theory Spec2Isabelle
  imports Complex_Main
begin

chapter \<open>Electastic renderer: a shallow embedding\<close>

text \<open>
  The renderer is TypeScript running in a browser runtime. Its numbers that matter here
  (node numbers, channel indices, packet ids, millisecond timestamps, counts) are integers
  and are modelled as \<open>int\<close> or \<open>nat\<close>; strings are lists of 8-bit characters read as
  code units below 256. An optional property is an \<open>option\<close>, a thrown value is the left
  summand of a sum, and every call that leaves the program (to the mesh library, the
  Bluetooth stack, the console, the map widget) is appended to a log of calls, with
  the callee's outcome taken as a parameter.
\<close>

section \<open>Strings of the host runtime\<close>

text \<open>\<^verbatim>\<open>s.startsWith(p)\<close> and \<^verbatim>\<open>s.includes(p)\<close>.\<close>

definition startsWith :: "string \<Rightarrow> string \<Rightarrow> bool" where
  "startsWith s p = (take (length p) s = p)"

fun str_includes :: "string \<Rightarrow> string \<Rightarrow> bool" where
  "str_includes [] p = (p = [])"
| "str_includes (c # s) p = (startsWith (c # s) p \<or> str_includes s p)"

text \<open>
  The white space \<^verbatim>\<open>trim()\<close> removes: TAB, LF, VT, FF, CR, SPACE and NBSP are the
  white-space and line-terminator code units below 256.
\<close>

definition is_white_space :: "char \<Rightarrow> bool" where
  "is_white_space c = ((of_char c :: nat) \<in> {9, 10, 11, 12, 13, 32, 160})"

definition trim :: "string \<Rightarrow> string" where
  "trim s = rev (dropWhile is_white_space (rev (dropWhile is_white_space s)))"

section \<open>Numbers as text\<close>

text \<open>
  \<^verbatim>\<open>String(n)\<close> of an integer, as template literals and JSX text use it: decimal digits,
  a minus sign for a negative number.
\<close>

definition digit_char :: "nat \<Rightarrow> char" where
  "digit_char d = char_of (48 + d)"

function string_of_nat :: "nat \<Rightarrow> string" where
  "string_of_nat n =
     (if n < 10 then [digit_char n]
      else string_of_nat (n div 10) @ [digit_char (n mod 10)])"
  by pat_completeness auto
termination
  by (relation "measure id") auto

declare string_of_nat.simps [simp del]

definition string_of_int :: "int \<Rightarrow> string" where
  "string_of_int i =
     (if i < 0 then CHR ''-'' # string_of_nat (nat (- i)) else string_of_nat (nat i))"

text \<open>A decimal digit.\<close>

definition is_decimal :: "char \<Rightarrow> bool" where
  "is_decimal c = (48 \<le> (of_char c :: nat) \<and> (of_char c :: nat) \<le> 57)"

text \<open>
  The value of a digit in radixes up to 36 (letters in either case), and of a run of
  digits, as \<^verbatim>\<open>parseInt\<close> and a JSON number read them.
\<close>

definition digit_value :: "char \<Rightarrow> nat option" where
  "digit_value c =
     (let n = (of_char c :: nat) in
      if 48 \<le> n \<and> n \<le> 57 then Some (n - 48)
      else if 97 \<le> n \<and> n \<le> 122 then Some (n - 87)
      else if 65 \<le> n \<and> n \<le> 90 then Some (n - 55)
      else None)"

definition is_digit :: "nat \<Rightarrow> char \<Rightarrow> bool" where
  "is_digit radix c = (case digit_value c of None \<Rightarrow> False | Some d \<Rightarrow> d < radix)"

definition digits_value :: "nat \<Rightarrow> string \<Rightarrow> nat" where
  "digits_value radix ds =
     foldl (\<lambda>acc c. acc * radix + (case digit_value c of None \<Rightarrow> 0 | Some d \<Rightarrow> d)) 0 ds"

section \<open>Connection manager\<close>

subsection \<open>Thrown values and logged calls\<close>

text \<open>
  A thrown value is an \<^verbatim>\<open>Error\<close> with its message, or some other value with the
  string \<^verbatim>\<open>String(err)\<close> yields. \<^verbatim>\<open>err instanceof Error ? err.message : String(err)\<close>
  is \<open>thrown_message\<close>.
\<close>

datatype thrown = Error string | NonError string

fun thrown_message :: "thrown \<Rightarrow> string" where
  "thrown_message (Error m) = m"
| "thrown_message (NonError s) = s"

text \<open>The calls out of the connection manager, in the order they are made.\<close>

datatype call =
    WebBluetooth_create
  | Bluetooth_getDevices
  | WebSerial_create nat
  | HTTP_create string bool
  | WebBluetooth_createFromDevice string
  | WebBluetooth_prepareConnection string
  | Gatt_disconnect string
  | SetTimeout nat
  | Console_warn
  | Device_disconnect
  | ToDevice_close
  | Device_complete

text \<open>
  A procedure takes the log so far and gives back what it returned or threw, with the
  log extended. \<open>call c out\<close> is one external call whose outcome is \<open>out\<close>;
  \<open>try_catch\<close> and \<open>try_finally\<close> are the statements of the same name.
\<close>

type_synonym 'a proc = "call list \<Rightarrow> (thrown + 'a) \<times> call list"

definition ret :: "'a \<Rightarrow> 'a proc" where
  "ret x = (\<lambda>lg. (Inr x, lg))"

definition throw :: "thrown \<Rightarrow> 'a proc" where
  "throw e = (\<lambda>lg. (Inl e, lg))"

definition call :: "call \<Rightarrow> thrown + 'a \<Rightarrow> 'a proc" where
  "call c out = (\<lambda>lg. (out, lg @ [c]))"

definition bind :: "'a proc \<Rightarrow> ('a \<Rightarrow> 'b proc) \<Rightarrow> 'b proc" where
  "bind p f = (\<lambda>lg. case p lg of
      (Inl e, lg') \<Rightarrow> (Inl e, lg')
    | (Inr x, lg') \<Rightarrow> f x lg')"

definition try_catch :: "'a proc \<Rightarrow> (thrown \<Rightarrow> 'a proc) \<Rightarrow> 'a proc" where
  "try_catch p h = (\<lambda>lg. case p lg of
      (Inl e, lg') \<Rightarrow> h e lg'
    | (Inr x, lg') \<Rightarrow> (Inr x, lg'))"

definition try_finally :: "'a proc \<Rightarrow> unit proc \<Rightarrow> 'a proc" where
  "try_finally p f = (\<lambda>lg. case p lg of
      (r, lg') \<Rightarrow> (case f lg' of
          (Inl e, lg'') \<Rightarrow> (Inl e, lg'')
        | (Inr _, lg'') \<Rightarrow> (r, lg'')))"

subsection \<open>Devices and transports\<close>

text \<open>
  A \<^verbatim>\<open>BluetoothDevice\<close> as the program reads it: its \<^verbatim>\<open>gatt\<close> property may be
  missing; a GATT server reports \<^verbatim>\<open>connected\<close>, and \<^verbatim>\<open>gatt.disconnect()\<close> returns
  or throws.
\<close>

record gatt_server =
  connected :: bool
  gatt_disconnect :: "thrown + unit"

record bluetooth_device =
  device_id :: string
  gatt :: "gatt_server option"

text \<open>
  A transport: which factory made it, what \<^verbatim>\<open>toDevice.close()\<close> does, and the
  \<^verbatim>\<open>__bluetoothDevice\<close> property the program stashes on it.
\<close>

datatype transport_kind = BleTransport | SerialTransport nat | HttpTransport string bool

record transport =
  kind :: transport_kind
  toDevice_close :: "thrown + unit"
  bluetoothDevice :: "bluetooth_device option"

text \<open>A \<^verbatim>\<open>MeshDevice\<close> of the mesh library, with the outcomes of its two methods.\<close>

record mesh_device =
  device_transport :: transport
  disconnect :: "thrown + unit"
  complete :: "thrown + unit"

text \<open>
  What the runtime and the transport libraries answer. A static method the Bluetooth
  transport class does not have (\<^verbatim>\<open>typeof ... !== "function"\<close>) is \<open>None\<close>; a
  factory that resolves to a falsy value gives \<open>Inr None\<close>.
\<close>

record host =
  ble_create :: "thrown + transport"
  getDevices :: "thrown + bluetooth_device list"
  serial_create :: "nat \<Rightarrow> thrown + transport"
  http_create :: "string \<Rightarrow> bool \<Rightarrow> thrown + transport"
  createFromDevice :: "(bluetooth_device \<Rightarrow> thrown + transport option) option"
  prepareConnection :: "(bluetooth_device \<Rightarrow> thrown + transport option) option"
  new_MeshDevice :: "transport \<Rightarrow> mesh_device"

subsection \<open>createConnection\<close>

text \<open>\<^verbatim>\<open>d.gatt?.connected\<close>\<close>

definition gatt_connected :: "bluetooth_device \<Rightarrow> bool" where
  "gatt_connected d = (case gatt d of None \<Rightarrow> False | Some g \<Rightarrow> connected g)"

text \<open>\<^verbatim>\<open>host.replace(/^https?:\/\//, "")\<close> and \<^verbatim>\<open>host.replace(/\/+$/, "")\<close>.\<close>

definition strip_protocol :: "string \<Rightarrow> string" where
  "strip_protocol s =
     (if startsWith s ''http://'' then drop (length ''http://'') s
      else if startsWith s ''https://'' then drop (length ''https://'') s
      else s)"

definition strip_trailing_slashes :: "string \<Rightarrow> string" where
  "strip_trailing_slashes s = rev (dropWhile (\<lambda>c. c = CHR ''/'') (rev s))"

text \<open>
  The connection type is a string at run time; \<open>httpAddress\<close> is \<open>None\<close> when the
  argument is left out.
\<close>

definition createConnection :: "host \<Rightarrow> string \<Rightarrow> string option \<Rightarrow> mesh_device proc" where
  "createConnection h type httpAddress =
     bind
       (if type = ''ble'' then
          bind (call WebBluetooth_create (ble_create h)) (\<lambda>transport.
            try_catch
              (bind (call Bluetooth_getDevices (getDevices h)) (\<lambda>devices.
                 case find gatt_connected devices of
                   Some connectedDevice \<Rightarrow> ret (transport\<lparr>bluetoothDevice := Some connectedDevice\<rparr>)
                 | None \<Rightarrow> ret transport))
              (\<lambda>err. bind (call Console_warn (Inr ())) (\<lambda>_. ret transport)))
        else if type = ''serial'' then
          call (WebSerial_create 115200) (serial_create h 115200)
        else if type = ''http'' then
          (case httpAddress of
             None \<Rightarrow> throw (Error ''HTTP address required'')
           | Some address \<Rightarrow>
               if address = [] then throw (Error ''HTTP address required'')
               else
                 let host0 = trim address;
                     useTls = startsWith host0 ''https://'';
                     host1 = strip_protocol host0;
                     host2 = strip_trailing_slashes host1
                 in call (HTTP_create host2 useTls) (http_create h host2 useTls))
        else throw (Error (''Unknown connection type: '' @ type)))
       (\<lambda>transport. ret (new_MeshDevice h transport))"

subsection \<open>reconnectBle\<close>

text \<open>\<^verbatim>\<open>d.gatt && !d.gatt.connected\<close> and \<^verbatim>\<open>d.gatt != null\<close>.\<close>

definition gatt_disconnected :: "bluetooth_device \<Rightarrow> bool" where
  "gatt_disconnected d = (case gatt d of None \<Rightarrow> False | Some g \<Rightarrow> \<not> connected g)"

definition has_gatt :: "bluetooth_device \<Rightarrow> bool" where
  "has_gatt d = (case gatt d of None \<Rightarrow> False | Some g \<Rightarrow> True)"

text \<open>\<^verbatim>\<open>devices.find(...) ?? devices.find(...)\<close>\<close>

definition reconnect_target :: "bluetooth_device list \<Rightarrow> bluetooth_device option" where
  "reconnect_target devices =
     (case find gatt_disconnected devices of
        Some d \<Rightarrow> Some d
      | None \<Rightarrow> find has_gatt devices)"

text \<open>The block under \<^verbatim>\<open>if (target.gatt?.connected)\<close>.\<close>

definition force_disconnect :: "bluetooth_device \<Rightarrow> unit proc" where
  "force_disconnect target =
     (case gatt target of
        None \<Rightarrow> ret ()
      | Some g \<Rightarrow>
          if connected g then
            bind (try_catch (call (Gatt_disconnect (device_id target)) (gatt_disconnect g))
                            (\<lambda>_. ret ()))
                 (\<lambda>_. call (SetTimeout 500) (Inr ()))
          else ret ())"

definition create_transport :: "host \<Rightarrow> bluetooth_device \<Rightarrow> transport option proc" where
  "create_transport h target =
     (case createFromDevice h of
        Some f \<Rightarrow> call (WebBluetooth_createFromDevice (device_id target)) (f target)
      | None \<Rightarrow>
          (case prepareConnection h of
             Some f \<Rightarrow> call (WebBluetooth_prepareConnection (device_id target)) (f target)
           | None \<Rightarrow> throw (Error
               ''TransportWebBluetooth has no method to create a transport from an existing device'')))"

definition reconnectBle :: "host \<Rightarrow> mesh_device proc" where
  "reconnectBle h =
     bind (call Bluetooth_getDevices (getDevices h)) (\<lambda>devices.
       case reconnect_target devices of
         None \<Rightarrow> throw (Error ''No previously connected BLE device found for reconnection'')
       | Some target \<Rightarrow>
           bind (force_disconnect target) (\<lambda>_.
           bind (create_transport h target) (\<lambda>created.
             case created of
               None \<Rightarrow> throw (Error ''Failed to create BLE transport for reconnection'')
             | Some transport \<Rightarrow>
                 ret (new_MeshDevice h (transport\<lparr>bluetoothDevice := Some target\<rparr>)))))"

subsection \<open>safeDisconnect\<close>

definition recoverable_message :: "string \<Rightarrow> bool" where
  "recoverable_message msg =
     (str_includes msg ''not a function'' \<or>
      str_includes msg ''already been closed'' \<or>
      str_includes msg ''locked'')"

text \<open>The GATT part of the catch block: \<^verbatim>\<open>if (btDevice?.gatt?.connected) ...\<close>\<close>

definition disconnect_gatt :: "bluetooth_device option \<Rightarrow> unit proc" where
  "disconnect_gatt btDevice =
     (case btDevice of
        None \<Rightarrow> ret ()
      | Some bt \<Rightarrow>
          (case gatt bt of
             None \<Rightarrow> ret ()
           | Some g \<Rightarrow>
               if connected g then
                 try_catch (call (Gatt_disconnect (device_id bt)) (gatt_disconnect g)) (\<lambda>_. ret ())
               else ret ()))"

definition safeDisconnect :: "mesh_device \<Rightarrow> unit proc" where
  "safeDisconnect device =
     try_finally
       (try_catch
          (call Device_disconnect (disconnect device))
          (\<lambda>err.
             let msg = thrown_message err in
             if recoverable_message msg then
               bind (try_catch (call ToDevice_close (toDevice_close (device_transport device)))
                               (\<lambda>_. ret ()))
                    (\<lambda>_. disconnect_gatt (bluetoothDevice (device_transport device)))
             else call Console_warn (Inr ())))
       (try_catch (call Device_complete (complete device)) (\<lambda>_. ret ()))"

subsection \<open>Running a procedure; sample hosts and devices\<close>

text \<open>A procedure run from the empty log: its outcome and the calls it made.\<close>

definition run :: "'a proc \<Rightarrow> (thrown + 'a) \<times> call list" where
  "run p = p []"

text \<open>The calls \<open>force_disconnect\<close> makes on a target.\<close>

definition force_disconnect_calls :: "bluetooth_device \<Rightarrow> call list" where
  "force_disconnect_calls t = (if gatt_connected t then [Gatt_disconnect (device_id t), SetTimeout 500] else [])"

text \<open>
  Sample values: a radio whose GATT link is up, one whose link is down, a device without
  GATT, a Bluetooth transport whose stream refuses to close, a mesh device whose
  \<^verbatim>\<open>disconnect()\<close> is missing, and a host whose Bluetooth class only has
  \<^verbatim>\<open>prepareConnection\<close>.
\<close>

definition example_gatt :: gatt_server where
  "example_gatt = \<lparr>connected = True, gatt_disconnect = Inr ()\<rparr>"

definition example_radio :: bluetooth_device where
  "example_radio = \<lparr>device_id = ''radio'', gatt = Some example_gatt\<rparr>"

definition example_idle_radio :: bluetooth_device where
  "example_idle_radio =
     \<lparr>device_id = ''idle'', gatt = Some \<lparr>connected = False, gatt_disconnect = Inr ()\<rparr>\<rparr>"

definition example_transport :: transport where
  "example_transport =
     \<lparr>kind = BleTransport, toDevice_close = Inl (Error ''stream is locked''),
      bluetoothDevice = Some example_radio\<rparr>"

definition example_device :: mesh_device where
  "example_device =
     \<lparr>device_transport = example_transport,
      disconnect = Inl (Error ''this.transport.disconnect is not a function''),
      complete = Inl (Error ''already completed'')\<rparr>"

definition example_host :: host where
  "example_host =
     \<lparr>ble_create = Inr example_transport,
      getDevices = Inr [example_radio, example_idle_radio],
      serial_create = (\<lambda>baud. Inr \<lparr>kind = SerialTransport baud, toDevice_close = Inr (),
                                   bluetoothDevice = None\<rparr>),
      http_create = (\<lambda>hst tls. Inr \<lparr>kind = HttpTransport hst tls, toDevice_close = Inr (),
                                    bluetoothDevice = None\<rparr>),
      createFromDevice = None,
      prepareConnection = Some (\<lambda>d. Inr (Some example_transport)),
      new_MeshDevice = (\<lambda>t. \<lparr>device_transport = t, disconnect = Inr (), complete = Inr ()\<rparr>)\<rparr>"

definition example_bare :: bluetooth_device where
  "example_bare = \<lparr>device_id = ''bare'', gatt = None\<rparr>"

section \<open>Chat panel\<close>

subsection \<open>Messages\<close>

text \<open>
  A \<^verbatim>\<open>ChatMessage\<close>, with the fields the panel's view state reads. A property that may
  be missing is an \<open>option\<close>; JavaScript's test \<^verbatim>\<open>if (x)\<close> on such a number is
  \<open>truthy\<close>: present and not zero.
\<close>

record chat_message =
  sender_id :: int
  sender_name :: string
  payload :: string
  channel :: int
  timestamp :: int
  to :: "int option"
  emoji :: "int option"
  replyId :: "int option"
  packetId :: "int option"

definition truthy :: "int option \<Rightarrow> bool" where
  "truthy v = (case v of None \<Rightarrow> False | Some n \<Rightarrow> n \<noteq> 0)"

text \<open>
  \<^verbatim>\<open>toLowerCase()\<close> on code units below 256: the letters A to Z and the capital
  letters of Latin-1 (all of 192 to 222 but the multiplication sign) move up by 32.
\<close>

definition lower_char :: "char \<Rightarrow> char" where
  "lower_char c =
     (let n = (of_char c :: nat) in
      if (65 \<le> n \<and> n \<le> 90) \<or> (192 \<le> n \<and> n \<le> 214) \<or> (216 \<le> n \<and> n \<le> 222)
      then char_of (n + 32) else c)"

definition toLowerCase :: "string \<Rightarrow> string" where
  "toLowerCase s = map lower_char s"

subsection \<open>Regular messages and reactions\<close>

text \<open>
  The loop that separates reactions from regular messages: the accumulator is the
  array \<^verbatim>\<open>regular\<close> and the map \<^verbatim>\<open>reactions\<close> from a packet id to the reactions on it.
\<close>

definition split_step ::
  "chat_message list \<times> (int \<rightharpoonup> (int \<times> string) list) \<Rightarrow> chat_message
   \<Rightarrow> chat_message list \<times> (int \<rightharpoonup> (int \<times> string) list)" where
  "split_step acc msg =
     (case acc of (regular, reactions) \<Rightarrow>
        (case (emoji msg, replyId msg) of
           (Some e, Some r) \<Rightarrow>
             if e \<noteq> 0 \<and> r \<noteq> 0 then
               let existing = (case reactions r of None \<Rightarrow> [] | Some xs \<Rightarrow> xs)
               in (regular, reactions(r \<mapsto> existing @ [(e, sender_name msg)]))
             else (regular @ [msg], reactions)
         | _ \<Rightarrow> (regular @ [msg], reactions)))"

definition split_messages ::
  "chat_message list \<Rightarrow> chat_message list \<times> (int \<rightharpoonup> (int \<times> string) list)" where
  "split_messages messages = foldl split_step ([], Map.empty) messages"

definition regularMessages :: "chat_message list \<Rightarrow> chat_message list" where
  "regularMessages messages = fst (split_messages messages)"

definition reactionsByReplyId :: "chat_message list \<Rightarrow> (int \<rightharpoonup> (int \<times> string) list)" where
  "reactionsByReplyId messages = snd (split_messages messages)"

subsection \<open>View state\<close>

datatype view_mode = Channels | Dm

text \<open>
  The state variables of the panel that the claims read. \<open>selectedChannel\<close> is the
  state variable \<^verbatim>\<open>channel\<close> (\<open>-1\<close> stands for "All"); \<open>lastRead\<close> is the map held in
  \<^verbatim>\<open>lastReadRef\<close>.
\<close>

record chat_state =
  viewMode :: view_mode
  selectedChannel :: int
  activeDmNode :: "int option"
  searchQuery :: string
  openDmTabs :: "int list"
  lastRead :: "int \<rightharpoonup> int"
  unreadCounts :: "int \<rightharpoonup> nat"

definition filteredMessages :: "chat_state \<Rightarrow> int \<Rightarrow> chat_message list \<Rightarrow> chat_message list" where
  "filteredMessages s myNodeNum regular =
     (let msgs =
        (case (viewMode s, activeDmNode s) of
           (Dm, Some dm) \<Rightarrow>
             filter (\<lambda>m. (to m = Some dm \<and> sender_id m = myNodeNum) \<or>
                         (sender_id m = dm \<and> to m = Some myNodeNum)) regular
         | _ \<Rightarrow>
             filter (\<lambda>m. \<not> truthy (to m) \<and>
                         (selectedChannel s = -1 \<or> channel m = selectedChannel s)) regular)
      in if trim (searchQuery s) \<noteq> [] then
           let q = toLowerCase (searchQuery s)
           in filter (\<lambda>m. str_includes (toLowerCase (payload m)) q \<or>
                          str_includes (toLowerCase (sender_name m)) q) msgs
         else msgs)"

text \<open>\<^verbatim>\<open>isDmMode\<close>\<close>

definition isDmMode :: "chat_state \<Rightarrow> bool" where
  "isDmMode s = (viewMode s = Dm \<and> activeDmNode s \<noteq> None)"

subsection \<open>Unread counts\<close>

text \<open>The body of the loop in the effect that counts unread messages.\<close>

definition unread_step ::
  "int \<Rightarrow> (int \<rightharpoonup> int) \<Rightarrow> (int \<rightharpoonup> nat) \<Rightarrow> chat_message \<Rightarrow> (int \<rightharpoonup> nat)" where
  "unread_step myNodeNum lastReadMap counts msg =
     (if sender_id msg = myNodeNum then counts
      else if truthy (to msg) then counts
      else
        let lastReadTime = (case lastReadMap (channel msg) of None \<Rightarrow> 0 | Some t \<Rightarrow> t)
        in if timestamp msg > lastReadTime then
             counts(channel msg \<mapsto> (case counts (channel msg) of None \<Rightarrow> 0 | Some n \<Rightarrow> n) + 1)
           else counts)"

text \<open>The effect on \<^verbatim>\<open>[regularMessages, myNodeNum]\<close>.\<close>

definition update_unread :: "int \<Rightarrow> chat_message list \<Rightarrow> chat_state \<Rightarrow> chat_state" where
  "update_unread myNodeNum regular s =
     s\<lparr>unreadCounts := foldl (unread_step myNodeNum (lastRead s)) Map.empty regular\<rparr>"

text \<open>
  The effect on \<^verbatim>\<open>[channel, regularMessages.length, viewMode]\<close>; \<open>now\<close> is what
  \<^verbatim>\<open>Date.now()\<close> returns.
\<close>

definition mark_read :: "int \<Rightarrow> chat_state \<Rightarrow> chat_state" where
  "mark_read now s =
     (if viewMode s = Channels then
        s\<lparr>lastRead := (lastRead s)(selectedChannel s \<mapsto> now),
          unreadCounts := (unreadCounts s)(selectedChannel s := None)\<rparr>
      else s)"

text \<open>
  What a channel's button shows: \<^verbatim>\<open>unread\<close> is \<^verbatim>\<open>unreadCounts.get(ch.index) ?? 0\<close>,
  and the badge is there only when \<^verbatim>\<open>unread > 0\<close> and the channel is not the one on
  view.
\<close>

definition unread :: "chat_state \<Rightarrow> int \<Rightarrow> nat" where
  "unread s ch = (case unreadCounts s ch of None \<Rightarrow> 0 | Some n \<Rightarrow> n)"

definition unread_badge :: "chat_state \<Rightarrow> int \<Rightarrow> string option" where
  "unread_badge s ch =
     (if unread s ch > 0 \<and> \<not> (viewMode s = Channels \<and> selectedChannel s = ch) then
        Some (if unread s ch > 99 then ''99+'' else string_of_nat (unread s ch))
      else None)"

text \<open>The claims' words: a reaction, a channel's last-read time, an unread message.\<close>

definition is_reaction :: "chat_message \<Rightarrow> bool" where
  "is_reaction m = (truthy (emoji m) \<and> truthy (replyId m))"

definition last_read_time :: "chat_state \<Rightarrow> int \<Rightarrow> int" where
  "last_read_time s ch = (case lastRead s ch of None \<Rightarrow> 0 | Some t \<Rightarrow> t)"

definition counts_as_unread :: "chat_state \<Rightarrow> int \<Rightarrow> int \<Rightarrow> chat_message \<Rightarrow> bool" where
  "counts_as_unread s myNodeNum ch m =
     (\<not> is_reaction m \<and> \<not> truthy (to m) \<and> channel m = ch \<and>
      sender_id m \<noteq> myNodeNum \<and> timestamp m > last_read_time s ch)"

definition shown_in_channel :: "int \<Rightarrow> chat_message \<Rightarrow> bool" where
  "shown_in_channel sel m = (\<not> truthy (to m) \<and> (sel = -1 \<or> channel m = sel))"

definition exchanged_with :: "int \<Rightarrow> int \<Rightarrow> chat_message \<Rightarrow> bool" where
  "exchanged_with myNodeNum dm m =
     ((sender_id m = myNodeNum \<and> to m = Some dm) \<or>
      (sender_id m = dm \<and> to m = Some myNodeNum))"

definition search_active :: "chat_state \<Rightarrow> bool" where
  "search_active s = (trim (searchQuery s) \<noteq> [])"

definition matches_search :: "string \<Rightarrow> chat_message \<Rightarrow> bool" where
  "matches_search query m =
     (str_includes (toLowerCase (payload m)) (toLowerCase query) \<or>
      str_includes (toLowerCase (sender_name m)) (toLowerCase query))"

text \<open>The reactions on packet \<open>k\<close>, in the order of the message list.\<close>

definition reactions_on :: "int \<Rightarrow> chat_message list \<Rightarrow> (int \<times> string) list" where
  "reactions_on k messages =
     map (\<lambda>m. (the (emoji m), sender_name m))
       (filter (\<lambda>m. is_reaction m \<and> replyId m = Some k) messages)"

text \<open>What the counting loop lets through, on the list of regular messages.\<close>

definition unread_candidate :: "int \<Rightarrow> (int \<rightharpoonup> int) \<Rightarrow> int \<Rightarrow> chat_message \<Rightarrow> bool" where
  "unread_candidate my lr ch m =
     (sender_id m \<noteq> my \<and> \<not> truthy (to m) \<and> channel m = ch \<and>
      timestamp m > (case lr ch of None \<Rightarrow> 0 | Some t \<Rightarrow> t))"

text \<open>Sample messages: a broadcast, a reaction to it, a direct message, an own broadcast.\<close>

definition example_message :: chat_message where
  "example_message =
     \<lparr>sender_id = 7, sender_name = ''Base'', payload = ''Hello Mesh'', channel = 0,
      timestamp = 1000, to = None, emoji = None, replyId = None, packetId = Some 11\<rparr>"

definition example_messages :: "chat_message list" where
  "example_messages =
     [example_message,
      example_message\<lparr>sender_id := 8, sender_name := ''Rover'', payload := [],
        emoji := Some 128077, replyId := Some 11, packetId := Some 12\<rparr>,
      example_message\<lparr>sender_id := 8, sender_name := ''Rover'', payload := ''psst'',
        to := Some 1, packetId := Some 13\<rparr>,
      example_message\<lparr>sender_id := 1, sender_name := ''Me'', payload := ''hello back'',
        timestamp := 2000, packetId := Some 14\<rparr>]"

definition example_chat :: chat_state where
  "example_chat =
     \<lparr>viewMode = Channels, selectedChannel = 1, activeDmNode = None, searchQuery = [],
      openDmTabs = [], lastRead = Map.empty, unreadCounts = Map.empty\<rparr>"

subsection \<open>Day separators\<close>

text \<open>
  The host's \<^verbatim>\<open>Date\<close> in the local time zone, as the panel uses it: the calendar day
  of an instant (\<^verbatim>\<open>getFullYear()\<close>, \<^verbatim>\<open>getMonth()\<close>, \<^verbatim>\<open>getDate()\<close> of \<^verbatim>\<open>new Date(ts)\<close>),
  the instant a calendar day starts (\<^verbatim>\<open>new Date(y, m, d).getTime()\<close>), and the text of
  \<^verbatim>\<open>toLocaleDateString\<close> with the panel's options. All three are parameters.
\<close>

record calendar =
  local_date :: "int \<Rightarrow> int \<times> nat \<times> nat"
  day_start :: "int \<times> nat \<times> nat \<Rightarrow> int"
  locale_date :: "int \<Rightarrow> string"

definition getDayKey :: "calendar \<Rightarrow> int \<Rightarrow> string" where
  "getDayKey cal ts =
     (case local_date cal ts of
        (y, m, d) \<Rightarrow> string_of_int y @ ''-'' @ string_of_nat m @ ''-'' @ string_of_nat d)"

text \<open>
  The loop of \<^verbatim>\<open>daySeparatorIndices\<close> from index \<open>i\<close> on, with the key of the
  message before in \<open>prevDayKey\<close> and the set built so far.
\<close>

fun day_loop :: "calendar \<Rightarrow> chat_message list \<Rightarrow> nat \<Rightarrow> string \<Rightarrow> nat set \<Rightarrow> nat set" where
  "day_loop cal [] i prevDayKey indices = indices"
| "day_loop cal (m # ms) i prevDayKey indices =
     (let dayKey = getDayKey cal (timestamp m) in
      if dayKey \<noteq> prevDayKey then day_loop cal ms (i + 1) dayKey (insert i indices)
      else day_loop cal ms (i + 1) prevDayKey indices)"

definition daySeparatorIndices :: "calendar \<Rightarrow> chat_message list \<Rightarrow> nat set" where
  "daySeparatorIndices cal filtered = day_loop cal filtered 0 [] {}"

text \<open>\<open>now\<close> is the instant of \<^verbatim>\<open>new Date()\<close>.\<close>

definition formatDayLabel :: "calendar \<Rightarrow> int \<Rightarrow> int \<Rightarrow> string" where
  "formatDayLabel cal now ts =
     (let today = day_start cal (local_date cal now);
          msgDay = day_start cal (local_date cal ts);
          diff = today - msgDay
      in if diff = 0 then ''Today''
         else if diff = 86400000 then ''Yesterday''
         else locale_date cal ts)"

text \<open>The calendar day of the message at index \<open>i\<close>.\<close>

definition day_of :: "calendar \<Rightarrow> chat_message list \<Rightarrow> nat \<Rightarrow> int \<times> nat \<times> nat" where
  "day_of cal filtered i = local_date cal (timestamp (filtered ! i))"

text \<open>
  A sample calendar, the proleptic Gregorian one in UTC: the civil date of a day
  number counted from 1970-01-01 and back, with months from 0 as \<^verbatim>\<open>getMonth()\<close> has
  them, and a date text of the numbers alone.
\<close>

definition civil_from_days :: "int \<Rightarrow> int \<times> nat \<times> nat" where
  "civil_from_days z =
     (let z1 = z + 719468;
          era = z1 div 146097;
          doe = z1 - era * 146097;
          yoe = (doe - doe div 1460 + doe div 36524 - doe div 146096) div 365;
          doy = doe - (365 * yoe + yoe div 4 - yoe div 100);
          mp = (5 * doy + 2) div 153;
          d = doy - (153 * mp + 2) div 5 + 1;
          m = (if mp < 10 then mp + 3 else mp - 9);
          y = yoe + era * 400 + (if m \<le> 2 then 1 else 0)
      in (y, nat (m - 1), nat d))"

definition days_from_civil :: "int \<times> nat \<times> nat \<Rightarrow> int" where
  "days_from_civil ymd =
     (case ymd of (y0, m0, d) \<Rightarrow>
        let m = int m0 + 1;
            y = (if m \<le> 2 then y0 - 1 else y0);
            era = y div 400;
            yoe = y - era * 400;
            doy = (153 * (if m > 2 then m - 3 else m + 9) + 2) div 5 + int d - 1;
            doe = yoe * 365 + yoe div 4 - yoe div 100 + doy
        in era * 146097 + doe - 719468)"

definition utc_calendar :: calendar where
  "utc_calendar =
     \<lparr>local_date = (\<lambda>ts. civil_from_days (ts div 86400000)),
      day_start = (\<lambda>ymd. days_from_civil ymd * 86400000),
      locale_date = (\<lambda>ts. case civil_from_days (ts div 86400000) of
                       (y, m, d) \<Rightarrow> string_of_nat (m + 1) @ ''/'' @ string_of_nat d)\<rparr>"

text \<open>
  Three sample messages: two on 2 November 2026 (UTC), one on the day after.
\<close>

definition example_days :: "chat_message list" where
  "example_days =
     [example_message\<lparr>timestamp := 1793620800000\<rparr>,
      example_message\<lparr>timestamp := 1793660000000\<rparr>,
      example_message\<lparr>timestamp := 1793707200000\<rparr>]"

text \<open>
  The rendered stream: \<^verbatim>\<open>filteredMessages.map((msg, i) => ...)\<close> puts the separator, when
  index \<open>i\<close> has one, right before the bubble of message \<open>i\<close>.
\<close>

datatype stream_item = Separator string | Bubble chat_message

definition render_stream :: "calendar \<Rightarrow> int \<Rightarrow> chat_message list \<Rightarrow> stream_item list" where
  "render_stream cal now filtered =
     concat (map (\<lambda>i.
        (if i \<in> daySeparatorIndices cal filtered
         then [Separator (formatDayLabel cal now (timestamp (filtered ! i)))] else []) @
        [Bubble (filtered ! i)]) [0..<length filtered])"

subsection \<open>Open DM tabs and their persistence\<close>

text \<open>
  A JSON value as \<^verbatim>\<open>JSON.parse\<close> returns it. The host's \<^verbatim>\<open>JSON.parse\<close> (\<open>None\<close> when it
  throws) and its \<^verbatim>\<open>JSON.stringify\<close> on an array of numbers are parameters;
  \<^verbatim>\<open>localStorage\<close> is a map from keys to strings, \<^verbatim>\<open>getItem\<close> giving \<^verbatim>\<open>null\<close> for a key
  that is not there.
\<close>

datatype json =
    JNull
  | JBool bool
  | JNumber int
  | JString string
  | JArray "json list"
  | JObject "(string \<times> json) list"

record json_host =
  JSON_parse :: "string \<Rightarrow> json option"
  JSON_stringify :: "int list \<Rightarrow> string"

type_synonym storage = "string \<rightharpoonup> string"

text \<open>\<^verbatim>\<open>typeof n === "number"\<close>, and the number itself.\<close>

fun is_number :: "json \<Rightarrow> bool" where
  "is_number (JNumber _) = True"
| "is_number _ = False"

fun number_value :: "json \<Rightarrow> int" where
  "number_value (JNumber n) = n"
| "number_value _ = 0"

text \<open>The initialiser of the \<^verbatim>\<open>openDmTabs\<close> state.\<close>

definition load_openDmTabs :: "json_host \<Rightarrow> storage \<Rightarrow> int list" where
  "load_openDmTabs h st =
     (case st ''electastic:openDmTabs'' of
        None \<Rightarrow> []
      | Some saved \<Rightarrow>
          if saved = [] then []
          else
            (case JSON_parse h saved of
               None \<Rightarrow> []
             | Some parsed \<Rightarrow>
                 (case parsed of
                    JArray elements \<Rightarrow>
                      if list_all is_number elements then map number_value elements else []
                  | _ \<Rightarrow> [])))"

text \<open>The effect on \<^verbatim>\<open>[openDmTabs]\<close>.\<close>

definition persist_openDmTabs :: "json_host \<Rightarrow> int list \<Rightarrow> storage \<Rightarrow> storage" where
  "persist_openDmTabs h tabs st = st(''electastic:openDmTabs'' \<mapsto> JSON_stringify h tabs)"

text \<open>
  The panel right after its mount, as far as the tabs go: the state from the
  initialisers, and the storage after the effect has run once.
\<close>

definition mount_tabs :: "json_host \<Rightarrow> storage \<Rightarrow> chat_state \<times> storage" where
  "mount_tabs h st =
     (let s = \<lparr>viewMode = Channels, selectedChannel = 0, activeDmNode = None,
                searchQuery = [], openDmTabs = load_openDmTabs h st,
                lastRead = Map.empty, unreadCounts = Map.empty\<rparr>
      in (s, persist_openDmTabs h (openDmTabs s) st))"

text \<open>
  What changes the tabs: \<^verbatim>\<open>openDmTo\<close>, \<^verbatim>\<open>closeDmTab\<close> and the effect on
  \<^verbatim>\<open>initialDmTarget\<close>. The effect on \<^verbatim>\<open>[openDmTabs]\<close> runs after every call of
  \<^verbatim>\<open>setOpenDmTabs\<close>.
\<close>

datatype tab_event = OpenDmTo int | CloseDmTab int | InitialDmTarget int

definition openDmTo :: "json_host \<Rightarrow> int \<Rightarrow> chat_state \<times> storage \<Rightarrow> chat_state \<times> storage" where
  "openDmTo h nodeNum p =
     (case p of (s, st) \<Rightarrow>
        if nodeNum \<notin> set (openDmTabs s) then
          let tabs = openDmTabs s @ [nodeNum]
          in (s\<lparr>openDmTabs := tabs, activeDmNode := Some nodeNum, viewMode := Dm\<rparr>,
              persist_openDmTabs h tabs st)
        else (s\<lparr>activeDmNode := Some nodeNum, viewMode := Dm\<rparr>, st))"

definition closeDmTab :: "json_host \<Rightarrow> int \<Rightarrow> chat_state \<times> storage \<Rightarrow> chat_state \<times> storage" where
  "closeDmTab h nodeNum p =
     (case p of (s, st) \<Rightarrow>
        let tabs = filter (\<lambda>n. n \<noteq> nodeNum) (openDmTabs s);
            s1 = s\<lparr>openDmTabs := tabs\<rparr>;
            s2 = (if activeDmNode s = Some nodeNum then
                    let remaining = filter (\<lambda>n. n \<noteq> nodeNum) (openDmTabs s)
                    in if length remaining > 0
                       then s1\<lparr>activeDmNode := Some (last remaining)\<rparr>
                       else s1\<lparr>activeDmNode := None, viewMode := Channels\<rparr>
                  else s1)
        in (s2, persist_openDmTabs h tabs st))"

fun tab_step :: "json_host \<Rightarrow> chat_state \<times> storage \<Rightarrow> tab_event \<Rightarrow> chat_state \<times> storage" where
  "tab_step h p (OpenDmTo n) = openDmTo h n p"
| "tab_step h p (CloseDmTab n) = closeDmTab h n p"
| "tab_step h p (InitialDmTarget n) = openDmTo h n p"

text \<open>The storage holds the text of the tabs the state holds.\<close>

definition stored_tabs :: "json_host \<Rightarrow> chat_state \<times> storage \<Rightarrow> bool" where
  "stored_tabs h p =
     (snd p ''electastic:openDmTabs'' = Some (JSON_stringify h (openDmTabs (fst p))))"

text \<open>
  What the round trip asks of the host: the text of a number array is not empty and
  parses back to that array.
\<close>

definition json_roundtrip :: "json_host \<Rightarrow> int list \<Rightarrow> bool" where
  "json_roundtrip h xs =
     (JSON_stringify h xs \<noteq> [] \<and>
      JSON_parse h (JSON_stringify h xs) = Some (JArray (map JNumber xs)))"

text \<open>
  A sample host. It prints a number array as JSON does, and parses the texts that are
  arrays of integer literals (white space allowed around the tokens), failing on any
  other text.
\<close>

definition json_ws :: "char \<Rightarrow> bool" where
  "json_ws c = ((of_char c :: nat) \<in> {9, 10, 13, 32})"

definition trim_ws :: "string \<Rightarrow> string" where
  "trim_ws s = rev (dropWhile json_ws (rev (dropWhile json_ws s)))"

fun split_on :: "char \<Rightarrow> string \<Rightarrow> string list" where
  "split_on sep [] = [[]]"
| "split_on sep (c # cs) =
     (case split_on sep cs of
        [] \<Rightarrow> [[c]]
      | piece # pieces \<Rightarrow> if c = sep then [] # piece # pieces else (c # piece) # pieces)"

fun join_with :: "char \<Rightarrow> string list \<Rightarrow> string" where
  "join_with sep [] = []"
| "join_with sep [x] = x"
| "join_with sep (x # y # ys) = x @ sep # join_with sep (y # ys)"

definition parse_int_literal :: "string \<Rightarrow> int option" where
  "parse_int_literal s =
     (let negative = (s \<noteq> [] \<and> hd s = CHR ''-'');
          ds = (if negative then tl s else s)
      in if ds = [] \<or> \<not> list_all is_decimal ds \<or> (length ds > 1 \<and> hd ds = CHR ''0'')
         then None
         else Some (if negative then - int (digits_value 10 ds) else int (digits_value 10 ds)))"

definition parse_number_array :: "string \<Rightarrow> json option" where
  "parse_number_array s =
     (let t = trim_ws s in
      if length t \<ge> 2 \<and> hd t = CHR ''['' \<and> last t = CHR '']'' then
        let inner = butlast (tl t) in
        if list_all json_ws inner then Some (JArray [])
        else
          let items = map (\<lambda>piece. parse_int_literal (trim_ws piece)) (split_on (CHR '','') inner)
          in if list_all (\<lambda>item. item \<noteq> None) items
             then Some (JArray (map (\<lambda>item. JNumber (the item)) items))
             else None
      else None)"

definition stringify_numbers :: "int list \<Rightarrow> string" where
  "stringify_numbers xs = ''['' @ join_with (CHR '','') (map string_of_int xs) @ '']''"

definition sample_json :: json_host where
  "sample_json = \<lparr>JSON_parse = parse_number_array, JSON_stringify = stringify_numbers\<rparr>"

section \<open>Map panel\<close>

subsection \<open>Nodes and markers\<close>

text \<open>
  A \<^verbatim>\<open>MeshNode\<close>, with the fields the markers read. \<^verbatim>\<open>getNodeStatus\<close> lives in a
  module outside these sources and is a parameter.
\<close>

record mesh_node =
  node_id :: int
  latitude :: real
  longitude :: real
  last_heard :: int

datatype node_status = Online | Stale | Offline

datatype icon_shape = Star | Circle

record icon =
  shape :: icon_shape
  fill :: string
  iconSize :: "nat \<times> nat"
  iconAnchor :: "nat \<times> nat"
  popupAnchor :: "int \<times> int"

definition createMarkerIcon :: "string \<Rightarrow> bool \<Rightarrow> icon" where
  "createMarkerIcon color isSelf =
     (let size = (if isSelf then 32 else 25);
          anchor = (if isSelf then 16 else 12)
      in if isSelf then
           \<lparr>shape = Star, fill = color, iconSize = (size, size),
            iconAnchor = (anchor, anchor), popupAnchor = (0, - int anchor)\<rparr>
         else
           \<lparr>shape = Circle, fill = color, iconSize = (size, size),
            iconAnchor = (anchor, anchor), popupAnchor = (0, - int anchor)\<rparr>)"

text \<open>The cached icons \<^verbatim>\<open>MARKERS\<close>.\<close>

definition MARKERS_selfOnline :: icon where
  "MARKERS_selfOnline = createMarkerIcon ''#22c55e'' True"

definition MARKERS_selfStale :: icon where
  "MARKERS_selfStale = createMarkerIcon ''#eab308'' True"

definition MARKERS_selfOffline :: icon where
  "MARKERS_selfOffline = createMarkerIcon ''#6b7280'' True"

definition MARKERS_online :: icon where
  "MARKERS_online = createMarkerIcon ''#22c55e'' False"

definition MARKERS_stale :: icon where
  "MARKERS_stale = createMarkerIcon ''#eab308'' False"

definition MARKERS_offline :: icon where
  "MARKERS_offline = createMarkerIcon ''#6b7280'' False"

definition getMarkerIcon :: "node_status \<Rightarrow> bool \<Rightarrow> icon" where
  "getMarkerIcon status isSelf =
     (if isSelf then
        (if status = Online then MARKERS_selfOnline
         else if status = Stale then MARKERS_selfStale
         else MARKERS_selfOffline)
      else
        (if status = Online then MARKERS_online
         else if status = Stale then MARKERS_stale
         else MARKERS_offline))"

text \<open>
  The node map's values in insertion order are a list; its keys are the node numbers,
  so the list has no two nodes of one \<open>node_id\<close>.
\<close>

definition nodesWithPosition :: "mesh_node list \<Rightarrow> mesh_node list" where
  "nodesWithPosition nodes = filter (\<lambda>n. latitude n \<noteq> 0 \<and> longitude n \<noteq> 0) nodes"

definition positions :: "mesh_node list \<Rightarrow> (real \<times> real) list" where
  "positions nodes = map (\<lambda>n. (latitude n, longitude n)) (nodesWithPosition nodes)"

text \<open>A \<^verbatim>\<open><Marker>\<close> element with its properties.\<close>

record marker =
  marker_key :: int
  marker_position :: "real \<times> real"
  marker_icon :: icon
  zIndexOffset :: nat

definition render_marker :: "(int \<Rightarrow> node_status) \<Rightarrow> int \<Rightarrow> mesh_node \<Rightarrow> marker" where
  "render_marker getNodeStatus myNodeNum node =
     (let isSelf = (node_id node = myNodeNum);
          status = getNodeStatus (last_heard node);
          icon = getMarkerIcon status isSelf
      in \<lparr>marker_key = node_id node,
          marker_position = (latitude node, longitude node),
          marker_icon = icon,
          zIndexOffset = (if isSelf then 1000 else 0)\<rparr>)"

definition render_markers :: "(int \<Rightarrow> node_status) \<Rightarrow> mesh_node list \<Rightarrow> int \<Rightarrow> marker list" where
  "render_markers getNodeStatus nodes myNodeNum =
     map (render_marker getNodeStatus myNodeNum) (nodesWithPosition nodes)"

text \<open>The colours by name.\<close>

definition status_color :: "node_status \<Rightarrow> string" where
  "status_color status =
     (case status of Online \<Rightarrow> ''#22c55e'' | Stale \<Rightarrow> ''#eab308'' | Offline \<Rightarrow> ''#6b7280'')"

text \<open>A sample status rule and node list: heard within the hour, within the day, older.\<close>

definition example_status :: "int \<Rightarrow> node_status" where
  "example_status heard =
     (if heard > 1000 then Online else if heard > 100 then Stale else Offline)"

definition example_nodes :: "mesh_node list" where
  "example_nodes =
     [\<lparr>node_id = 1, latitude = 40, longitude = -105, last_heard = 2000\<rparr>,
      \<lparr>node_id = 2, latitude = 0, longitude = -105, last_heard = 2000\<rparr>,
      \<lparr>node_id = 3, latitude = 41, longitude = -104, last_heard = 500\<rparr>]"

subsection \<open>View persistence and auto-fit\<close>

definition DEFAULT_CENTER :: "real \<times> real" where
  "DEFAULT_CENTER = (40.1672, -105.1019)"

definition DEFAULT_ZOOM :: real where
  "DEFAULT_ZOOM = 12"

text \<open>
  What the panel asks of the map widget: its creation with a centre and a zoom, and
  the two moves of the auto-fit.
\<close>

datatype map_call =
    CreateMap "real \<times> real" real
  | FlyTo "real \<times> real" real
  | FlyToBounds "(real \<times> real) list"

text \<open>
  A mounted panel: the \<^verbatim>\<open>lastFittedCount\<close> reference of \<^verbatim>\<open>MapFitter\<close>, the
  \<^verbatim>\<open>positions.length\<close> its effect last saw (the effect's dependency), and the
  widget's zoom as \<^verbatim>\<open>map.getZoom()\<close> reads it.
\<close>

record mounted_map =
  lastFittedCount :: nat
  renderedCount :: nat
  map_zoom :: real

text \<open>
  The module-level variables, which outlive a mount, with the mounted panel if there is
  one and the log of calls to the widget.
\<close>

record map_session =
  savedCenter :: "(real \<times> real) option"
  savedZoom :: "real option"
  userHasInteracted :: bool
  mounted :: "mounted_map option"
  map_calls :: "map_call list"

text \<open>
  \<open>Moveend c z\<close> and \<open>Zoomend c z\<close>: the widget fires the event while its centre is
  \<open>c\<close> and its zoom \<open>z\<close>. \<open>Render\<close> is a render of the mounted panel with a new node
  map.
\<close>

datatype map_event =
    Mount "mesh_node list"
  | Unmount
  | Render "mesh_node list"
  | Moveend "real \<times> real" real
  | Zoomend "real \<times> real" real

text \<open>The effect of \<^verbatim>\<open>MapFitter\<close>.\<close>

definition mapFitter_effect :: "(real \<times> real) list \<Rightarrow> map_session \<Rightarrow> map_session" where
  "mapFitter_effect ps s =
     (case mounted s of
        None \<Rightarrow> s
      | Some m \<Rightarrow>
          if userHasInteracted s then s
          else if length ps = 0 then s
          else if length ps \<le> lastFittedCount m then s
          else if length ps = 1 then
            s\<lparr>mounted := Some (m\<lparr>lastFittedCount := length ps\<rparr>),
              map_calls := map_calls s @ [FlyTo (hd ps) (map_zoom m)]\<rparr>
          else
            s\<lparr>mounted := Some (m\<lparr>lastFittedCount := length ps\<rparr>),
              map_calls := map_calls s @ [FlyToBounds ps]\<rparr>)"

text \<open>The handler of \<^verbatim>\<open>moveend\<close> and of \<^verbatim>\<open>zoomend\<close> in \<^verbatim>\<open>MapViewTracker\<close>.\<close>

definition track_view :: "real \<times> real \<Rightarrow> real \<Rightarrow> map_session \<Rightarrow> map_session" where
  "track_view c z s =
     (case mounted s of
        None \<Rightarrow> s
      | Some m \<Rightarrow>
          s\<lparr>savedCenter := Some c, savedZoom := Some z, userHasInteracted := True,
            mounted := Some (m\<lparr>map_zoom := z\<rparr>)\<rparr>)"

text \<open>
  The centre a fresh panel asks for (\<^verbatim>\<open>savedCenter ?? center\<close>) and its zoom
  (\<^verbatim>\<open>savedZoom ?? DEFAULT_ZOOM\<close>).
\<close>

definition initial_center :: "map_session \<Rightarrow> mesh_node list \<Rightarrow> real \<times> real" where
  "initial_center s nodes =
     (case savedCenter s of
        Some c \<Rightarrow> c
      | None \<Rightarrow>
          (case nodesWithPosition nodes of
             [] \<Rightarrow> DEFAULT_CENTER
           | n # _ \<Rightarrow> (latitude n, longitude n)))"

definition initial_zoom :: "map_session \<Rightarrow> real" where
  "initial_zoom s = (case savedZoom s of Some z \<Rightarrow> z | None \<Rightarrow> DEFAULT_ZOOM)"

fun map_step :: "map_session \<Rightarrow> map_event \<Rightarrow> map_session" where
  "map_step s (Mount nodes) =
     (case mounted s of
        Some _ \<Rightarrow> s
      | None \<Rightarrow>
          mapFitter_effect (positions nodes)
            (s\<lparr>mounted := Some \<lparr>lastFittedCount = 0,
                                 renderedCount = length (positions nodes),
                                 map_zoom = initial_zoom s\<rparr>,
               map_calls := map_calls s @ [CreateMap (initial_center s nodes) (initial_zoom s)]\<rparr>))"
| "map_step s Unmount = s\<lparr>mounted := None\<rparr>"
| "map_step s (Render nodes) =
     (case mounted s of
        None \<Rightarrow> s
      | Some m \<Rightarrow>
          if length (positions nodes) = renderedCount m then s
          else mapFitter_effect (positions nodes)
                 (s\<lparr>mounted := Some (m\<lparr>renderedCount := length (positions nodes)\<rparr>)\<rparr>))"
| "map_step s (Moveend c z) = track_view c z s"
| "map_step s (Zoomend c z) = track_view c z s"

definition map_init :: map_session where
  "map_init =
     \<lparr>savedCenter = None, savedZoom = None, userHasInteracted = False,
      mounted = None, map_calls = []\<rparr>"

definition map_run :: "map_session \<Rightarrow> map_event list \<Rightarrow> map_session" where
  "map_run s es = foldl map_step s es"

text \<open>The calls of the auto-fit among the calls made.\<close>

fun is_fit :: "map_call \<Rightarrow> bool" where
  "is_fit (CreateMap _ _) = False"
| "is_fit (FlyTo _ _) = True"
| "is_fit (FlyToBounds _) = True"

definition fit_calls :: "map_session \<Rightarrow> map_call list" where
  "fit_calls s = filter is_fit (map_calls s)"

text \<open>
  What every reachable session satisfies: once the user has interacted a centre and a
  zoom are saved; before that, the mounted panel has fitted at least as many nodes as it
  last rendered.
\<close>

definition map_inv :: "map_session \<Rightarrow> bool" where
  "map_inv s =
     ((userHasInteracted s \<longrightarrow> savedCenter s \<noteq> None \<and> savedZoom s \<noteq> None) \<and>
      (\<not> userHasInteracted s \<longrightarrow>
         (case mounted s of None \<Rightarrow> True | Some m \<Rightarrow> renderedCount m \<le> lastFittedCount m)))"

section \<open>Admin panel\<close>

text \<open>
  The calls the panel's buttons lead to: the device handlers it gets as properties
  (\<^verbatim>\<open>onReboot\<close> ... \<^verbatim>\<open>onRemoveNode\<close>) and the database calls of
  \<^verbatim>\<open>window.electronAPI\<close>.
\<close>

datatype admin_call =
    OnReboot int
  | OnShutdown int
  | OnResetNodeDb
  | OnFactoryReset
  | OnTraceRoute int
  | OnRemoveNode int
  | Db_exportDb
  | Db_importDb
  | Db_clearMessages
  | Db_clearNodes
  | ClearSessionData

text \<open>
  A \<^verbatim>\<open>PendingAction\<close>. Its \<open>action\<close> closure is the list of calls it awaits in turn;
  the title, message and button label only fill the modal and are left out.
\<close>

record pending_action =
  name :: string
  danger :: bool
  action :: "admin_call list"

datatype toast_kind = Success | ErrorToast | Info | Warning

text \<open>
  The component's two state variables and the \<^verbatim>\<open>isConnected\<close> property, with the log
  of calls made and of toasts shown.
\<close>

record admin_state =
  targetNode :: string
  pendingAction :: "pending_action option"
  isConnected :: bool
  invoked :: "admin_call list"
  toasts :: "(string \<times> toast_kind) list"

text \<open>
  What the callees answer: a promise resolves (\<open>Inr\<close>) or rejects (\<open>Inl\<close>); an export
  resolves to a path or to nothing, an import to the numbers of nodes and messages added
  or to nothing.
\<close>

record admin_env =
  outcome :: "admin_call \<Rightarrow> thrown + unit"
  exported_path :: "string option"
  import_result :: "(nat \<times> nat) option"

datatype admin_event =
    ChangeTargetNode string
  | SetConnected bool
  | ClickReboot
  | ClickShutdown
  | ClickResetNodeDb
  | ClickFactoryReset
  | ClickTraceRoute
  | ClickRemoveNode
  | ClickExportDatabase
  | ClickImportMerge
  | ClickClearMessages
  | ClickClearNodes
  | ClickClearAllData
  | ClickConfirm
  | ClickCancel
  | ClickBackdrop

subsection \<open>\<^verbatim>\<open>parseInt\<close> and \<^verbatim>\<open>getTargetNodeNum\<close>\<close>

text \<open>
  \<^verbatim>\<open>parseInt(s, radix)\<close> for radix 10 and 16: leading white space, a sign, for radix 16
  an optional \<^verbatim>\<open>0x\<close>, then the longest run of digits; \<open>None\<close> is \<^verbatim>\<open>NaN\<close>.
\<close>

definition parseInt :: "string \<Rightarrow> nat \<Rightarrow> int option" where
  "parseInt s radix =
     (let s1 = dropWhile is_white_space s;
          negative = (s1 \<noteq> [] \<and> hd s1 = CHR ''-'');
          s2 = (if s1 \<noteq> [] \<and> (hd s1 = CHR ''-'' \<or> hd s1 = CHR ''+'') then tl s1 else s1);
          s3 = (if radix = 16 \<and> (startsWith s2 ''0x'' \<or> startsWith s2 ''0X'')
                then drop 2 s2 else s2);
          ds = takeWhile (is_digit radix) s3
      in if ds = [] then None
         else Some (if negative then - int (digits_value radix ds)
                    else int (digits_value radix ds)))"

definition getTargetNodeNum :: "string \<Rightarrow> int" where
  "getTargetNodeNum target =
     (if target = [] then 0
      else let parsed = (if startsWith target ''!'' then parseInt (drop 1 target) 16
                         else parseInt target 10)
           in case parsed of None \<Rightarrow> 0 | Some n \<Rightarrow> n)"

subsection \<open>The handlers\<close>

text \<open>\<^verbatim>\<open>await pendingAction.action()\<close>: the calls in turn, up to the first that rejects.\<close>

fun run_action :: "(admin_call \<Rightarrow> thrown + unit) \<Rightarrow> admin_call list
    \<Rightarrow> admin_call list \<times> thrown option" where
  "run_action out [] = ([], None)"
| "run_action out (c # cs) =
     (case out c of
        Inl e \<Rightarrow> ([c], Some e)
      | Inr _ \<Rightarrow> (case run_action out cs of (made, r) \<Rightarrow> (c # made, r)))"

text \<open>\<^verbatim>\<open>err instanceof Error ? err.message : "Unknown error"\<close>\<close>

fun error_text :: "thrown \<Rightarrow> string" where
  "error_text (Error m) = m"
| "error_text (NonError _) = ''Unknown error''"

definition executeWithConfirmation :: "pending_action \<Rightarrow> admin_state \<Rightarrow> admin_state" where
  "executeWithConfirmation a s = s\<lparr>pendingAction := Some a\<rparr>"

definition handleConfirm :: "admin_env \<Rightarrow> admin_state \<Rightarrow> admin_state" where
  "handleConfirm env s =
     (case pendingAction s of
        None \<Rightarrow> s
      | Some pa \<Rightarrow>
          (case run_action (outcome env) (action pa) of
             (made, None) \<Rightarrow>
               s\<lparr>pendingAction := None, invoked := invoked s @ made,
                 toasts := toasts s @ [(name pa @ '' command sent successfully.'', Success)]\<rparr>
           | (made, Some err) \<Rightarrow>
               s\<lparr>pendingAction := None, invoked := invoked s @ made,
                 toasts := toasts s @ [(''Failed: '' @ error_text err, ErrorToast)]\<rparr>))"

text \<open>
  One user event. A disabled button does not fire, and the modal's buttons and backdrop
  exist only while an action is pending.
\<close>

fun admin_step :: "admin_env \<Rightarrow> admin_state \<Rightarrow> admin_event \<Rightarrow> admin_state" where
  "admin_step env s (ChangeTargetNode v) =
     (if isConnected s then s\<lparr>targetNode := v\<rparr> else s)"
| "admin_step env s (SetConnected b) = s\<lparr>isConnected := b\<rparr>"
| "admin_step env s ClickReboot =
     (if isConnected s then
        executeWithConfirmation \<lparr>name = ''Reboot'', danger = False, action = [OnReboot 2]\<rparr> s
      else s)"
| "admin_step env s ClickShutdown =
     (if isConnected s then
        executeWithConfirmation \<lparr>name = ''Shutdown'', danger = False, action = [OnShutdown 2]\<rparr> s
      else s)"
| "admin_step env s ClickResetNodeDb =
     (if isConnected s then
        executeWithConfirmation
          \<lparr>name = ''Reset NodeDB'', danger = False, action = [OnResetNodeDb]\<rparr> s
      else s)"
| "admin_step env s ClickFactoryReset =
     (if isConnected s then
        executeWithConfirmation
          \<lparr>name = ''Factory Reset'', danger = True, action = [OnFactoryReset]\<rparr> s
      else s)"
| "admin_step env s ClickTraceRoute =
     (if isConnected s \<and> targetNode s \<noteq> [] then
        let target = getTargetNodeNum (targetNode s) in
        if target \<noteq> 0 then
          (case outcome env (OnTraceRoute target) of
             Inr _ \<Rightarrow> s\<lparr>invoked := invoked s @ [OnTraceRoute target],
                        toasts := toasts s @ [(''Trace route request sent.'', Info)]\<rparr>
           | Inl err \<Rightarrow> s\<lparr>invoked := invoked s @ [OnTraceRoute target],
                          toasts := toasts s @
                            [(''Trace route failed: '' @ error_text err, ErrorToast)]\<rparr>)
        else s\<lparr>toasts := toasts s @ [(''Enter a target node for trace route.'', Warning)]\<rparr>
      else s)"
| "admin_step env s ClickRemoveNode =
     (if isConnected s \<and> targetNode s \<noteq> [] then
        let target = getTargetNodeNum (targetNode s) in
        if target \<noteq> 0 then
          executeWithConfirmation
            \<lparr>name = ''Remove Node'', danger = False, action = [OnRemoveNode target]\<rparr> s
        else s\<lparr>toasts := toasts s @ [(''Enter a target node to remove.'', Warning)]\<rparr>
      else s)"
| "admin_step env s ClickExportDatabase =
     (case outcome env Db_exportDb of
        Inr _ \<Rightarrow>
          (case exported_path env of
             Some path \<Rightarrow>
               if path \<noteq> [] then
                 s\<lparr>invoked := invoked s @ [Db_exportDb],
                   toasts := toasts s @ [(''Exported to: '' @ path, Success)]\<rparr>
               else s\<lparr>invoked := invoked s @ [Db_exportDb]\<rparr>
           | None \<Rightarrow> s\<lparr>invoked := invoked s @ [Db_exportDb]\<rparr>)
      | Inl err \<Rightarrow> s\<lparr>invoked := invoked s @ [Db_exportDb],
                     toasts := toasts s @ [(''Export failed: '' @ error_text err, ErrorToast)]\<rparr>)"
| "admin_step env s ClickImportMerge =
     (case outcome env Db_importDb of
        Inr _ \<Rightarrow>
          (case import_result env of
             Some (nodesAdded, messagesAdded) \<Rightarrow>
               s\<lparr>invoked := invoked s @ [Db_importDb],
                 toasts := toasts s @
                   [(''Merged: '' @ string_of_nat nodesAdded @ '' new nodes, '' @
                     string_of_nat messagesAdded @ '' new messages.'', Success)]\<rparr>
           | None \<Rightarrow> s\<lparr>invoked := invoked s @ [Db_importDb]\<rparr>)
      | Inl err \<Rightarrow> s\<lparr>invoked := invoked s @ [Db_importDb],
                     toasts := toasts s @ [(''Import failed: '' @ error_text err, ErrorToast)]\<rparr>)"
| "admin_step env s ClickClearMessages =
     executeWithConfirmation
       \<lparr>name = ''Clear Messages'', danger = True, action = [Db_clearMessages]\<rparr> s"
| "admin_step env s ClickClearNodes =
     executeWithConfirmation
       \<lparr>name = ''Clear Nodes'', danger = True, action = [Db_clearNodes]\<rparr> s"
| "admin_step env s ClickClearAllData =
     executeWithConfirmation
       \<lparr>name = ''Clear All Data'', danger = True,
        action = [Db_clearMessages, Db_clearNodes, ClearSessionData]\<rparr> s"
| "admin_step env s ClickConfirm = handleConfirm env s"
| "admin_step env s ClickCancel =
     (case pendingAction s of None \<Rightarrow> s | Some _ \<Rightarrow> s\<lparr>pendingAction := None\<rparr>)"
| "admin_step env s ClickBackdrop =
     (case pendingAction s of None \<Rightarrow> s | Some _ \<Rightarrow> s\<lparr>pendingAction := None\<rparr>)"

definition admin_init :: "bool \<Rightarrow> admin_state" where
  "admin_init online =
     \<lparr>targetNode = [], pendingAction = None, isConnected = online,
      invoked = [], toasts = []\<rparr>"

definition admin_run :: "admin_env \<Rightarrow> admin_state \<Rightarrow> admin_event list \<Rightarrow> admin_state" where
  "admin_run env s es = foldl (admin_step env) s es"

text \<open>The five device commands the confirmation modal guards.\<close>

fun guarded_command :: "admin_call \<Rightarrow> bool" where
  "guarded_command (OnReboot _) = True"
| "guarded_command (OnShutdown _) = True"
| "guarded_command OnResetNodeDb = True"
| "guarded_command OnFactoryReset = True"
| "guarded_command (OnRemoveNode _) = True"
| "guarded_command _ = False"

text \<open>The button that asks for a command.\<close>

fun command_button :: "admin_call \<Rightarrow> admin_event" where
  "command_button (OnReboot _) = ClickReboot"
| "command_button (OnShutdown _) = ClickShutdown"
| "command_button OnResetNodeDb = ClickResetNodeDb"
| "command_button OnFactoryReset = ClickFactoryReset"
| "command_button (OnRemoveNode _) = ClickRemoveNode"
| "command_button (OnTraceRoute _) = ClickTraceRoute"
| "command_button Db_exportDb = ClickExportDatabase"
| "command_button Db_importDb = ClickImportMerge"
| "command_button Db_clearMessages = ClickClearMessages"
| "command_button Db_clearNodes = ClickClearNodes"
| "command_button ClearSessionData = ClickClearAllData"

definition example_admin_env :: admin_env where
  "example_admin_env =
     \<lparr>outcome = (\<lambda>c. Inr ()), exported_path = None, import_result = None\<rparr>"

chapter \<open>Properties\<close>

section \<open>Connection manager: auxiliary facts\<close>

lemmas proc_defs = ret_def throw_def call_def bind_def try_catch_def try_finally_def

lemma disconnect_gatt_eq:
  "disconnect_gatt b lg =
     (Inr (), lg @ (case b of None \<Rightarrow> [] | Some bt \<Rightarrow> if gatt_connected bt then [Gatt_disconnect (device_id bt)] else []))"
  by (auto simp: disconnect_gatt_def gatt_connected_def proc_defs split: option.splits sum.splits)

lemma safeDisconnect_eq:
  "safeDisconnect device lg =
    (Inr (),
     lg @ [Device_disconnect] @
     (case disconnect device of
        Inr u \<Rightarrow> []
      | Inl e \<Rightarrow>
          if recoverable_message (thrown_message e) then
            ToDevice_close #
              (case bluetoothDevice (device_transport device) of
                 None \<Rightarrow> []
               | Some bt \<Rightarrow> if gatt_connected bt then [Gatt_disconnect (device_id bt)] else [])
          else [Console_warn]) @
     [Device_complete])"
  by (cases "disconnect device"; cases "toDevice_close (device_transport device)"; cases "complete device")
     (simp_all add: safeDisconnect_def proc_defs Let_def disconnect_gatt_eq)

lemma force_disconnect_eq:
  "force_disconnect t lg = (Inr (), lg @ force_disconnect_calls t)"
  by (auto simp: force_disconnect_def force_disconnect_calls_def gatt_connected_def proc_defs split: option.splits sum.splits)

lemma find_None_iff2: "find P xs = None \<longleftrightarrow> (\<forall>x\<in>set xs. \<not> P x)"
  by (induction xs) auto

lemma find_Some_set: "find P xs = Some x \<Longrightarrow> x \<in> set xs \<and> P x"
  by (induction xs) (auto split: if_splits)

lemma reconnect_target_None:
  "reconnect_target devices = None \<longleftrightarrow> (\<forall>d\<in>set devices. gatt d = None)"
  by (fastforce simp: reconnect_target_def find_None_iff2 has_gatt_def gatt_disconnected_def
           dest!: find_Some_set split: option.splits)

lemma reconnect_target_Some:
  assumes "reconnect_target devices = Some t"
  shows "t \<in> set devices" and "gatt t \<noteq> None"
    and "(\<exists>d\<in>set devices. gatt_disconnected d) \<Longrightarrow> gatt_disconnected t"
  using assms
  by (auto simp: reconnect_target_def find_None_iff2 has_gatt_def gatt_disconnected_def
           dest!: find_Some_set split: option.splits)

lemma reconnectBle_no_target:
  assumes "getDevices h = Inr devices" "reconnect_target devices = None"
  shows "reconnectBle h lg =
    (Inl (Error ''No previously connected BLE device found for reconnection''), lg @ [Bluetooth_getDevices])"
  using assms by (simp add: reconnectBle_def proc_defs)

lemma reconnectBle_target:
  assumes "getDevices h = Inr devices" "reconnect_target devices = Some t"
  shows "reconnectBle h lg =
    (case create_transport h t (lg @ Bluetooth_getDevices # force_disconnect_calls t) of
       (Inl e, lg') \<Rightarrow> (Inl e, lg')
     | (Inr None, lg') \<Rightarrow> (Inl (Error ''Failed to create BLE transport for reconnection''), lg')
     | (Inr (Some tr), lg') \<Rightarrow> (Inr (new_MeshDevice h (tr\<lparr>bluetoothDevice := Some t\<rparr>)), lg'))"
  using assms
  by (simp add: reconnectBle_def bind_def call_def force_disconnect_eq throw_def ret_def
           split: prod.splits sum.splits option.splits)

lemma create_transport_eq:
  "create_transport h t lg =
    (case createFromDevice h of
       Some f \<Rightarrow> (f t, lg @ [WebBluetooth_createFromDevice (device_id t)])
     | None \<Rightarrow> (case prepareConnection h of
         Some f \<Rightarrow> (f t, lg @ [WebBluetooth_prepareConnection (device_id t)])
       | None \<Rightarrow> (Inl (Error ''TransportWebBluetooth has no method to create a transport from an existing device''), lg)))"
  by (simp add: create_transport_def call_def throw_def split: option.splits)

lemma startsWith_append: "startsWith s p \<Longrightarrow> s = p @ drop (length p) s"
  by (metis append_take_drop_id startsWith_def)

lemma strip_protocol_decomp:
  "\<exists>p. s = p @ strip_protocol s \<and> p \<in> {[], ''http://'', ''https://''} \<and>
       ((startsWith s ''http://'' \<or> startsWith s ''https://'') \<longrightarrow> p \<noteq> [])"
proof (cases "startsWith s ''http://''")
  case True
  with startsWith_append[OF True] show ?thesis
    by (intro exI[of _ "''http://''"]) (simp add: strip_protocol_def)
next
  case False
  show ?thesis
  proof (cases "startsWith s ''https://''")
    case True
    with startsWith_append[OF True] False show ?thesis
      by (intro exI[of _ "''https://''"]) (simp add: strip_protocol_def)
  next
    case F2: False
    with False show ?thesis by (simp add: strip_protocol_def)
  qed
qed

lemma strip_trailing_slashes_decomp:
  "\<exists>n. s = strip_trailing_slashes s @ replicate n (CHR ''/'')"
proof -
  let ?P = "\<lambda>c. c = CHR ''/''"
  have "rev s = takeWhile ?P (rev s) @ dropWhile ?P (rev s)" by simp
  then have "s = rev (dropWhile ?P (rev s)) @ rev (takeWhile ?P (rev s))"
    by (metis rev_append rev_rev_ident)
  moreover have "takeWhile ?P (rev s) = replicate (length (takeWhile ?P (rev s))) (CHR ''/'')"
    by (rule replicate_length_same[symmetric]) (auto dest: set_takeWhileD)
  ultimately show ?thesis
    unfolding strip_trailing_slashes_def by (metis rev_replicate)
qed

lemma strip_trailing_slashes_last:
  "strip_trailing_slashes s \<noteq> [] \<Longrightarrow> last (strip_trailing_slashes s) \<noteq> CHR ''/''"
proof -
  let ?P = "\<lambda>c. c = CHR ''/''"
  assume "strip_trailing_slashes s \<noteq> []"
  then have ne: "dropWhile ?P (rev s) \<noteq> []" by (simp add: strip_trailing_slashes_def)
  then have "\<not> ?P (hd (dropWhile ?P (rev s)))" by (rule hd_dropWhile)
  with ne show ?thesis by (simp add: strip_trailing_slashes_def last_rev)
qed

lemma dropWhile_replicate_same:
  "dropWhile (\<lambda>c. c = a) (replicate n a @ ys) = dropWhile (\<lambda>c. c = a) ys"
  by (induction n) auto

lemma strip_trailing_slashes_unique:
  "hst = [] \<or> last hst \<noteq> CHR ''/'' \<Longrightarrow>
   strip_trailing_slashes (hst @ replicate n (CHR ''/'')) = hst"
  by (cases hst rule: rev_cases)
     (auto simp: strip_trailing_slashes_def dropWhile_replicate_same)

lemma createConnection_serial:
  "createConnection h ''serial'' a lg =
     (map_sum id (new_MeshDevice h) (serial_create h 115200), lg @ [WebSerial_create 115200])"
  by (cases "serial_create h 115200") (simp_all add: createConnection_def proc_defs)

lemma createConnection_http_missing:
  "a = None \<or> a = Some [] \<Longrightarrow>
   createConnection h ''http'' a lg = (Inl (Error ''HTTP address required''), lg)"
  by (auto simp: createConnection_def proc_defs)

lemma createConnection_http:
  "address \<noteq> [] \<Longrightarrow>
   createConnection h ''http'' (Some address) lg =
     (map_sum id (new_MeshDevice h)
        (http_create h (strip_trailing_slashes (strip_protocol (trim address)))
                       (startsWith (trim address) ''https://'')),
      lg @ [HTTP_create (strip_trailing_slashes (strip_protocol (trim address)))
                         (startsWith (trim address) ''https://'')])"
  by (cases "http_create h (strip_trailing_slashes (strip_protocol (trim address)))
                       (startsWith (trim address) ''https://'')")
     (simp_all add: createConnection_def proc_defs Let_def)

lemma createConnection_unknown:
  "type \<notin> {''ble'', ''serial'', ''http''} \<Longrightarrow>
   createConnection h type a lg = (Inl (Error (''Unknown connection type: '' @ type)), lg)"
  by (simp add: createConnection_def proc_defs)

lemma createConnection_ble_result:
  "fst (createConnection h ''ble'' a lg) =
     (case ble_create h of
        Inl e \<Rightarrow> Inl e
      | Inr t \<Rightarrow>
          Inr (new_MeshDevice h
            (case getDevices h of
               Inl e \<Rightarrow> t
             | Inr devices \<Rightarrow>
                 (case find gatt_connected devices of
                    Some d \<Rightarrow> t\<lparr>bluetoothDevice := Some d\<rparr>
                  | None \<Rightarrow> t))))"
  by (cases "ble_create h"; cases "getDevices h")
     (auto simp: createConnection_def proc_defs split: option.splits)

lemma createConnection_ble_log:
  "\<exists>rest. snd (createConnection h ''ble'' a lg) = lg @ WebBluetooth_create # rest \<and>
          set rest \<subseteq> {Bluetooth_getDevices, Console_warn}"
  by (cases "ble_create h"; cases "getDevices h")
     (auto simp: createConnection_def proc_defs split: option.splits)

lemma trim_example: "trim '' https://meshtastic.local// '' = ''https://meshtastic.local//''"
  by (simp add: trim_def is_white_space_def)

section \<open>Connection manager: teardown, reconnection, dispatch\<close>

text \<open>
  Claim C1. Whatever \<^verbatim>\<open>device.disconnect()\<close> does (resolve or throw),
  \<open>safeDisconnect\<close> returns normally, and \<^verbatim>\<open>device.complete()\<close> is its last call, made
  exactly once. When \<^verbatim>\<open>disconnect()\<close> throws with a message containing
  "not a function", "already been closed" or "locked", \<^verbatim>\<open>toDevice.close()\<close> is called,
  and when the transport carries a captured Bluetooth device whose GATT server reports
  connected, that device's \<^verbatim>\<open>gatt.disconnect()\<close> is called too. The thrown value is an
  \<^verbatim>\<open>Error\<close> with a string message or a value \<^verbatim>\<open>String()\<close> converts.
\<close>

theorem safeDisconnect_completes_and_never_throws:
  "fst (run (safeDisconnect device)) = Inr () \<and>
   (\<exists>before. snd (run (safeDisconnect device)) = before @ [Device_complete] \<and>
              Device_complete \<notin> set before) \<and>
   (\<forall>e. disconnect device = Inl e \<and> recoverable_message (thrown_message e) \<longrightarrow>
      ToDevice_close \<in> set (snd (run (safeDisconnect device))) \<and>
      (\<forall>bt. bluetoothDevice (device_transport device) = Some bt \<and> gatt_connected bt \<longrightarrow>
         Gatt_disconnect (device_id bt) \<in> set (snd (run (safeDisconnect device)))))"
proof -
  have "fst (run (safeDisconnect device)) = Inr ()"
    by (simp add: run_def safeDisconnect_eq)
  moreover have "\<exists>before. snd (run (safeDisconnect device)) = before @ [Device_complete] \<and>
              Device_complete \<notin> set before"
    by (auto simp: run_def safeDisconnect_eq split: sum.splits option.splits)
  moreover have "ToDevice_close \<in> set (snd (run (safeDisconnect device)))"
    if "disconnect device = Inl e" "recoverable_message (thrown_message e)" for e
    using that by (simp add: run_def safeDisconnect_eq)
  moreover have "Gatt_disconnect (device_id bt) \<in> set (snd (run (safeDisconnect device)))"
    if "disconnect device = Inl e" "recoverable_message (thrown_message e)"
       "bluetoothDevice (device_transport device) = Some bt" "gatt_connected bt" for e bt
    using that by (simp add: run_def safeDisconnect_eq)
  ultimately show ?thesis by blast
qed

text \<open>
  C1 at the sample device: \<^verbatim>\<open>disconnect()\<close> is missing, the stream refuses to close,
  \<^verbatim>\<open>complete()\<close> throws, and still the call returns with the GATT link torn down.
\<close>

theorem safeDisconnect_witness:
  "disconnect example_device = Inl (Error ''this.transport.disconnect is not a function'') \<and>
   recoverable_message ''this.transport.disconnect is not a function'' \<and>
   bluetoothDevice (device_transport example_device) = Some example_radio \<and>
   gatt_connected example_radio \<and>
   fst (run (safeDisconnect example_device)) = Inr () \<and>
   ToDevice_close \<in> set (snd (run (safeDisconnect example_device))) \<and>
   Gatt_disconnect ''radio'' \<in> set (snd (run (safeDisconnect example_device)))"
proof -
  have 1: "disconnect example_device = Inl (Error ''this.transport.disconnect is not a function'')"
    by (simp add: example_device_def)
  have 2: "recoverable_message (thrown_message (Error ''this.transport.disconnect is not a function''))"
    by (simp add: recoverable_message_def startsWith_def)
  have 3: "bluetoothDevice (device_transport example_device) = Some example_radio"
    by (simp add: example_device_def example_transport_def)
  have 4: "gatt_connected example_radio"
    by (simp add: gatt_connected_def example_radio_def example_gatt_def)
  have 5: "device_id example_radio = ''radio''"
    by (simp add: example_radio_def)
  from safeDisconnect_completes_and_never_throws[of example_device] 1 2 3 4 5
  show ?thesis
    by (metis thrown_message.simps(1))
qed

text \<open>
  Claim C2. Given the devices \<^verbatim>\<open>navigator.bluetooth.getDevices()\<close> resolves to:
  when none has a GATT object \<open>reconnectBle\<close> throws; otherwise its target is one of them
  that has a GATT object, and one with a disconnected GATT whenever such a device is in
  the list. When the target's GATT reports connected, \<^verbatim>\<open>gatt.disconnect()\<close> and the
  500 ms wait come right after \<^verbatim>\<open>getDevices()\<close> and before the transport is created.
  With neither \<^verbatim>\<open>createFromDevice\<close> nor \<^verbatim>\<open>prepareConnection\<close> it throws, no
  transport call made; with one of them (the first preferred) it throws when that
  resolves to no transport, and else returns the mesh device over that transport with
  the target stashed on it.
\<close>

theorem reconnectBle_target_and_failures:
  assumes "getDevices h = Inr devices"
  shows
   "((\<forall>d\<in>set devices. gatt d = None) \<longrightarrow>
       fst (run (reconnectBle h)) =
         Inl (Error ''No previously connected BLE device found for reconnection'')) \<and>
    ((\<exists>d\<in>set devices. gatt d \<noteq> None) \<longrightarrow>
       (\<exists>target created.
          reconnect_target devices = Some target \<and>
          target \<in> set devices \<and> gatt target \<noteq> None \<and>
          ((\<exists>d\<in>set devices. gatt_disconnected d) \<longrightarrow> gatt_disconnected target) \<and>
          snd (run (reconnectBle h)) =
            Bluetooth_getDevices #
            (if gatt_connected target
             then [Gatt_disconnect (device_id target), SetTimeout 500] else []) @ created \<and>
          created =
            (case createFromDevice h of
               Some f \<Rightarrow> [WebBluetooth_createFromDevice (device_id target)]
             | None \<Rightarrow> (case prepareConnection h of
                 Some f \<Rightarrow> [WebBluetooth_prepareConnection (device_id target)]
               | None \<Rightarrow> [])) \<and>
          (createFromDevice h = None \<and> prepareConnection h = None \<longrightarrow>
             fst (run (reconnectBle h)) = Inl (Error
               ''TransportWebBluetooth has no method to create a transport from an existing device'')) \<and>
          (\<forall>f. (createFromDevice h = Some f \<or>
                 createFromDevice h = None \<and> prepareConnection h = Some f) \<longrightarrow>
             fst (run (reconnectBle h)) =
               (case f target of
                  Inl e \<Rightarrow> Inl e
                | Inr None \<Rightarrow> Inl (Error ''Failed to create BLE transport for reconnection'')
                | Inr (Some tr) \<Rightarrow>
                    Inr (new_MeshDevice h (tr\<lparr>bluetoothDevice := Some target\<rparr>))))))"
proof (intro conjI impI)
  assume "\<forall>d\<in>set devices. gatt d = None"
  then have "reconnect_target devices = None" by (simp add: reconnect_target_None)
  with assms show "fst (run (reconnectBle h)) =
         Inl (Error ''No previously connected BLE device found for reconnection'')"
    by (simp add: run_def reconnectBle_no_target)
next
  assume "\<exists>d\<in>set devices. gatt d \<noteq> None"
  then have "reconnect_target devices \<noteq> None" by (simp add: reconnect_target_None)
  then obtain target where t: "reconnect_target devices = Some target" by blast
  note sel = reconnect_target_Some[OF t]
  note eq = reconnectBle_target[OF assms t, of "[]"]
  let ?created = "(case createFromDevice h of
               Some f \<Rightarrow> [WebBluetooth_createFromDevice (device_id target)]
             | None \<Rightarrow> (case prepareConnection h of
                 Some f \<Rightarrow> [WebBluetooth_prepareConnection (device_id target)]
               | None \<Rightarrow> []))"
  have lg: "snd (run (reconnectBle h)) =
            Bluetooth_getDevices #
            (if gatt_connected target
             then [Gatt_disconnect (device_id target), SetTimeout 500] else []) @ ?created"
    by (simp add: run_def eq create_transport_eq force_disconnect_calls_def
             split: option.splits sum.splits)
  have none: "fst (run (reconnectBle h)) = Inl (Error
               ''TransportWebBluetooth has no method to create a transport from an existing device'')"
    if "createFromDevice h = None \<and> prepareConnection h = None"
    using that by (simp add: run_def eq create_transport_eq)
  have some: "fst (run (reconnectBle h)) =
               (case f target of
                  Inl e \<Rightarrow> Inl e
                | Inr None \<Rightarrow> Inl (Error ''Failed to create BLE transport for reconnection'')
                | Inr (Some tr) \<Rightarrow>
                    Inr (new_MeshDevice h (tr\<lparr>bluetoothDevice := Some target\<rparr>)))"
    if "createFromDevice h = Some f \<or>
                 createFromDevice h = None \<and> prepareConnection h = Some f" for f
    using that by (auto simp: run_def eq create_transport_eq split: option.splits sum.splits)
  from t sel lg none some
  show "\<exists>target created.
          reconnect_target devices = Some target \<and>
          target \<in> set devices \<and> gatt target \<noteq> None \<and>
          ((\<exists>d\<in>set devices. gatt_disconnected d) \<longrightarrow> gatt_disconnected target) \<and>
          snd (run (reconnectBle h)) =
            Bluetooth_getDevices #
            (if gatt_connected target
             then [Gatt_disconnect (device_id target), SetTimeout 500] else []) @ created \<and>
          created =
            (case createFromDevice h of
               Some f \<Rightarrow> [WebBluetooth_createFromDevice (device_id target)]
             | None \<Rightarrow> (case prepareConnection h of
                 Some f \<Rightarrow> [WebBluetooth_prepareConnection (device_id target)]
               | None \<Rightarrow> [])) \<and>
          (createFromDevice h = None \<and> prepareConnection h = None \<longrightarrow>
             fst (run (reconnectBle h)) = Inl (Error
               ''TransportWebBluetooth has no method to create a transport from an existing device'')) \<and>
          (\<forall>f. (createFromDevice h = Some f \<or>
                 createFromDevice h = None \<and> prepareConnection h = Some f) \<longrightarrow>
             fst (run (reconnectBle h)) =
               (case f target of
                  Inl e \<Rightarrow> Inl e
                | Inr None \<Rightarrow> Inl (Error ''Failed to create BLE transport for reconnection'')
                | Inr (Some tr) \<Rightarrow>
                    Inr (new_MeshDevice h (tr\<lparr>bluetoothDevice := Some target\<rparr>))))"
    by (intro exI[of _ target] exI[of _ ?created]) blast
qed

text \<open>
  C2 at the sample host: of a connected and a disconnected radio the disconnected one is
  the target; a connected radio alone is disconnected first and waited for.
\<close>

theorem reconnectBle_witness:
  "getDevices example_host = Inr [example_radio, example_idle_radio] \<and>
   reconnect_target [example_radio, example_idle_radio] = Some example_idle_radio \<and>
   snd (run (reconnectBle example_host)) =
     [Bluetooth_getDevices, WebBluetooth_prepareConnection ''idle''] \<and>
   getDevices (example_host\<lparr>getDevices := Inr [example_bare, example_radio]\<rparr>) =
     Inr [example_bare, example_radio] \<and>
   snd (run (reconnectBle (example_host\<lparr>getDevices := Inr [example_bare, example_radio]\<rparr>))) =
     [Bluetooth_getDevices, Gatt_disconnect ''radio'', SetTimeout 500,
      WebBluetooth_prepareConnection ''radio''] \<and>
   fst (run (reconnectBle (example_host\<lparr>getDevices := Inr [example_bare]\<rparr>))) =
     Inl (Error ''No previously connected BLE device found for reconnection'') \<and>
   fst (run (reconnectBle (example_host\<lparr>prepareConnection := None\<rparr>))) =
     Inl (Error
       ''TransportWebBluetooth has no method to create a transport from an existing device'')"
proof -
  have e1: "getDevices example_host = Inr [example_radio, example_idle_radio]"
    by (simp add: example_host_def)
  have t1: "reconnect_target [example_radio, example_idle_radio] = Some example_idle_radio"
    by (simp add: reconnect_target_def gatt_disconnected_def has_gatt_def example_radio_def
        example_idle_radio_def example_gatt_def)
  have g1: "\<exists>d\<in>set [example_radio, example_idle_radio]. gatt d \<noteq> None"
    by (simp add: example_radio_def)
  let ?h = "example_host\<lparr>getDevices := Inr [example_bare, example_radio]\<rparr>"
  have e2: "getDevices ?h = Inr [example_bare, example_radio]"
    by simp
  have t2: "reconnect_target [example_bare, example_radio] = Some example_radio"
    by (simp add: reconnect_target_def gatt_disconnected_def has_gatt_def example_radio_def
        example_bare_def example_gatt_def)
  have g2: "\<exists>d\<in>set [example_bare, example_radio]. gatt d \<noteq> None"
    by (simp add: example_radio_def)
  let ?h3 = "example_host\<lparr>getDevices := Inr [example_bare]\<rparr>"
  have e3: "getDevices ?h3 = Inr [example_bare]" by simp
  have g3: "\<forall>d\<in>set [example_bare]. gatt d = None" by (simp add: example_bare_def)
  let ?h4 = "example_host\<lparr>prepareConnection := None\<rparr>"
  have e4: "getDevices ?h4 = Inr [example_radio, example_idle_radio]"
    by (simp add: example_host_def)
  have n4: "createFromDevice ?h4 = None \<and> prepareConnection ?h4 = None"
    by (simp add: example_host_def)
  from reconnectBle_target_and_failures[OF e1] g1 t1
  have r1: "snd (run (reconnectBle example_host)) =
     [Bluetooth_getDevices, WebBluetooth_prepareConnection ''idle'']"
    by (auto simp: example_host_def example_idle_radio_def gatt_connected_def)
  from reconnectBle_target_and_failures[OF e2] g2 t2
  have r2: "snd (run (reconnectBle ?h)) =
     [Bluetooth_getDevices, Gatt_disconnect ''radio'', SetTimeout 500,
      WebBluetooth_prepareConnection ''radio'']"
    by (auto simp: example_host_def example_radio_def example_gatt_def gatt_connected_def)
  from reconnectBle_target_and_failures[OF e3] g3
  have r3: "fst (run (reconnectBle ?h3)) =
     Inl (Error ''No previously connected BLE device found for reconnection'')"
    by blast
  from reconnectBle_target_and_failures[OF e4] g1 n4
  have r4: "fst (run (reconnectBle ?h4)) = Inl (Error
       ''TransportWebBluetooth has no method to create a transport from an existing device'')"
    by blast
  from e1 t1 r1 e2 r2 r3 r4 show ?thesis by blast
qed

text \<open>
  Claim C3. \<open>createConnection\<close> on \<^verbatim>\<open>"ble"\<close> calls the Web Bluetooth factory first and
  no other factory, and returns the mesh device over the transport that factory made,
  with the first device whose GATT reports connected stashed on it; on \<^verbatim>\<open>"serial"\<close> it calls the Web Serial factory with 115200; on
  \<^verbatim>\<open>"http"\<close> it throws when the address is missing or empty, and else calls the HTTP
  factory with a host \<open>hst\<close> and a TLS flag such that the trimmed address is
  \<open>prefix @ hst @\<close> slashes, where the prefix is \<^verbatim>\<open>http://\<close> or \<^verbatim>\<open>https://\<close> if the
  trimmed address starts with one and empty if not, \<open>hst\<close> does not end in a slash, and
  the flag says whether the trimmed address starts with \<^verbatim>\<open>https://\<close>. For any other
  type it throws, no call made.
\<close>

theorem createConnection_dispatch:
  "(type = ''ble'' \<longrightarrow>
      (\<exists>rest. snd (run (createConnection h type a)) = WebBluetooth_create # rest \<and>
              set rest \<subseteq> {Bluetooth_getDevices, Console_warn})) \<and>
   (type = ''serial'' \<longrightarrow>
      run (createConnection h type a) =
        (map_sum id (new_MeshDevice h) (serial_create h 115200), [WebSerial_create 115200])) \<and>
   (type = ''http'' \<and> (a = None \<or> a = Some []) \<longrightarrow>
      run (createConnection h type a) = (Inl (Error ''HTTP address required''), [])) \<and>
   (\<forall>address. type = ''http'' \<and> a = Some address \<and> address \<noteq> [] \<longrightarrow>
      (\<exists>hst tls prefix n.
         run (createConnection h type a) =
           (map_sum id (new_MeshDevice h) (http_create h hst tls), [HTTP_create hst tls]) \<and>
         trim address = prefix @ hst @ replicate n (CHR ''/'') \<and>
         prefix \<in> {[], ''http://'', ''https://''} \<and>
         (startsWith (trim address) ''http://'' \<or> startsWith (trim address) ''https://''
            \<longrightarrow> prefix \<noteq> []) \<and>
         (hst = [] \<or> last hst \<noteq> CHR ''/'') \<and>
         (tls \<longleftrightarrow> startsWith (trim address) ''https://''))) \<and>
   (type \<notin> {''ble'', ''serial'', ''http''} \<longrightarrow>
      run (createConnection h type a) =
        (Inl (Error (''Unknown connection type: '' @ type)), [])) \<and>
   (type = ''ble'' \<longrightarrow>
      fst (run (createConnection h type a)) =
        (case ble_create h of
           Inl e \<Rightarrow> Inl e
         | Inr t \<Rightarrow>
             Inr (new_MeshDevice h
               (case getDevices h of
                  Inl e \<Rightarrow> t
                | Inr devices \<Rightarrow>
                    (case find gatt_connected devices of
                       Some d \<Rightarrow> t\<lparr>bluetoothDevice := Some d\<rparr>
                     | None \<Rightarrow> t)))))"
proof (intro conjI impI allI)
  assume "type = ''ble''"
  with createConnection_ble_log[of h a "[]"]
  show "\<exists>rest. snd (run (createConnection h type a)) = WebBluetooth_create # rest \<and>
              set rest \<subseteq> {Bluetooth_getDevices, Console_warn}"
    by (simp add: run_def)
next
  assume "type = ''serial''"
  then show "run (createConnection h type a) =
        (map_sum id (new_MeshDevice h) (serial_create h 115200), [WebSerial_create 115200])"
    by (simp add: run_def createConnection_serial)
next
  assume "type = ''http'' \<and> (a = None \<or> a = Some [])"
  then show "run (createConnection h type a) = (Inl (Error ''HTTP address required''), [])"
    by (simp add: run_def createConnection_http_missing)
next
  fix address
  assume asm: "type = ''http'' \<and> a = Some address \<and> address \<noteq> []"
  let ?hst = "strip_trailing_slashes (strip_protocol (trim address))"
  let ?tls = "startsWith (trim address) ''https://''"
  obtain p where p: "trim address = p @ strip_protocol (trim address)"
      "p \<in> {[], ''http://'', ''https://''}"
      "startsWith (trim address) ''http://'' \<or> startsWith (trim address) ''https://''
         \<longrightarrow> p \<noteq> []"
    using strip_protocol_decomp[of "trim address"] by blast
  obtain n where n: "strip_protocol (trim address) = ?hst @ replicate n (CHR ''/'')"
    using strip_trailing_slashes_decomp[of "strip_protocol (trim address)"] by blast
  have "run (createConnection h type a) =
           (map_sum id (new_MeshDevice h) (http_create h ?hst ?tls), [HTTP_create ?hst ?tls])"
    using asm by (simp add: run_def createConnection_http)
  moreover have "trim address = p @ ?hst @ replicate n (CHR ''/'')"
    using p(1) n by simp
  moreover have "?hst = [] \<or> last ?hst \<noteq> CHR ''/''"
    using strip_trailing_slashes_last by blast
  ultimately show "\<exists>hst tls prefix n.
         run (createConnection h type a) =
           (map_sum id (new_MeshDevice h) (http_create h hst tls), [HTTP_create hst tls]) \<and>
         trim address = prefix @ hst @ replicate n (CHR ''/'') \<and>
         prefix \<in> {[], ''http://'', ''https://''} \<and>
         (startsWith (trim address) ''http://'' \<or> startsWith (trim address) ''https://''
            \<longrightarrow> prefix \<noteq> []) \<and>
         (hst = [] \<or> last hst \<noteq> CHR ''/'') \<and>
         (tls \<longleftrightarrow> startsWith (trim address) ''https://'')"
    using p(2,3) by (intro exI[of _ ?hst] exI[of _ ?tls] exI[of _ p] exI[of _ n]) blast
next
  assume "type \<notin> {''ble'', ''serial'', ''http''}"
  then show "run (createConnection h type a) =
        (Inl (Error (''Unknown connection type: '' @ type)), [])"
    by (simp add: run_def createConnection_unknown)
next
  assume "type = ''ble''"
  then show "fst (run (createConnection h type a)) =
        (case ble_create h of
           Inl e \<Rightarrow> Inl e
         | Inr t \<Rightarrow>
             Inr (new_MeshDevice h
               (case getDevices h of
                  Inl e \<Rightarrow> t
                | Inr devices \<Rightarrow>
                    (case find gatt_connected devices of
                       Some d \<Rightarrow> t\<lparr>bluetoothDevice := Some d\<rparr>
                     | None \<Rightarrow> t))))"
    by (simp only: run_def createConnection_ble_result)
qed

text \<open>C3 at an HTTPS address with spaces around and slashes behind, at serial, and at an unknown type.\<close>

theorem createConnection_witness:
  "run (createConnection example_host ''http'' (Some '' https://meshtastic.local// '')) =
     (Inr (new_MeshDevice example_host
        \<lparr>kind = HttpTransport ''meshtastic.local'' True, toDevice_close = Inr (),
         bluetoothDevice = None\<rparr>),
      [HTTP_create ''meshtastic.local'' True]) \<and>
   run (createConnection example_host ''serial'' None) =
     (Inr (new_MeshDevice example_host
        \<lparr>kind = SerialTransport 115200, toDevice_close = Inr (), bluetoothDevice = None\<rparr>),
      [WebSerial_create 115200]) \<and>
   run (createConnection example_host ''usb'' None) =
     (Inl (Error ''Unknown connection type: usb''), []) \<and>
   run (createConnection example_host ''http'' None) =
     (Inl (Error ''HTTP address required''), []) \<and>
   (\<exists>rest. snd (run (createConnection example_host ''ble'' None)) =
      WebBluetooth_create # rest \<and> set rest \<subseteq> {Bluetooth_getDevices, Console_warn})"
proof -
  have u: "''usb'' \<notin> {''ble'', ''serial'', ''http''}" by simp
  have s: "startsWith ''https://meshtastic.local//'' ''https://''"
    by (simp add: startsWith_def)
  have ns: "\<not> startsWith ''https://meshtastic.local//'' ''http://''"
    by (simp add: startsWith_def)
  have "\<exists>hst tls prefix n.
         run (createConnection example_host ''http'' (Some '' https://meshtastic.local// '')) =
           (map_sum id (new_MeshDevice example_host) (http_create example_host hst tls),
            [HTTP_create hst tls]) \<and>
         ''https://meshtastic.local//'' = prefix @ hst @ replicate n (CHR ''/'') \<and>
         prefix \<in> {[], ''http://'', ''https://''} \<and>
         (startsWith ''https://meshtastic.local//'' ''http://'' \<or>
          startsWith ''https://meshtastic.local//'' ''https://'' \<longrightarrow> prefix \<noteq> []) \<and>
         (hst = [] \<or> last hst \<noteq> CHR ''/'') \<and>
         (tls \<longleftrightarrow> startsWith ''https://meshtastic.local//'' ''https://'')"
    using createConnection_dispatch[of "''http''" example_host
        "Some '' https://meshtastic.local// ''"]
    unfolding trim_example[symmetric] by blast
  then obtain hst tls prefix n where
    r: "run (createConnection example_host ''http'' (Some '' https://meshtastic.local// '')) =
           (map_sum id (new_MeshDevice example_host) (http_create example_host hst tls),
            [HTTP_create hst tls])"
    and d: "''https://meshtastic.local//'' = prefix @ hst @ replicate n (CHR ''/'')"
    and pre: "prefix \<in> {[], ''http://'', ''https://''}" "prefix \<noteq> []"
    and l: "hst = [] \<or> last hst \<noteq> CHR ''/''"
    and tls: "tls"
    using s by blast
  from d pre ns have prefix: "prefix = ''https://''"
    by (auto simp: startsWith_def)
  with d have d': "''meshtastic.local//'' = hst @ replicate n (CHR ''/'')" by simp
  have "hst = ''meshtastic.local''"
  proof -
    have "strip_trailing_slashes (hst @ replicate n (CHR ''/'')) = hst"
      using l by (rule strip_trailing_slashes_unique)
    moreover have "strip_trailing_slashes ''meshtastic.local//'' = ''meshtastic.local''"
      by (simp add: strip_trailing_slashes_def)
    ultimately show ?thesis using d' by simp
  qed
  with r tls have
    "run (createConnection example_host ''http'' (Some '' https://meshtastic.local// '')) =
     (Inr (new_MeshDevice example_host
        \<lparr>kind = HttpTransport ''meshtastic.local'' True, toDevice_close = Inr (),
         bluetoothDevice = None\<rparr>),
      [HTTP_create ''meshtastic.local'' True])"
    by (simp add: example_host_def)
  moreover from createConnection_dispatch[of "''serial''" example_host None]
  have "run (createConnection example_host ''serial'' None) =
     (Inr (new_MeshDevice example_host
        \<lparr>kind = SerialTransport 115200, toDevice_close = Inr (), bluetoothDevice = None\<rparr>),
      [WebSerial_create 115200])"
    by (simp add: example_host_def)
  moreover from createConnection_dispatch[of "''usb''" example_host None] u
  have "run (createConnection example_host ''usb'' None) =
     (Inl (Error ''Unknown connection type: usb''), [])"
    by simp
  moreover from createConnection_dispatch[of "''http''" example_host None]
  have "run (createConnection example_host ''http'' None) =
     (Inl (Error ''HTTP address required''), [])"
    by simp
  moreover from createConnection_dispatch[of "''ble''" example_host None]
  have "\<exists>rest. snd (run (createConnection example_host ''ble'' None)) =
      WebBluetooth_create # rest \<and> set rest \<subseteq> {Bluetooth_getDevices, Console_warn}"
    by simp
  ultimately show ?thesis by blast
qed

section \<open>Admin panel: auxiliary facts\<close>

lemma run_action_subset: "set (fst (run_action out cs)) \<subseteq> set cs"
  by (induction cs) (auto split: sum.splits prod.splits)

lemma run_action_prefix: "\<exists>rest. cs = fst (run_action out cs) @ rest"
  by (induction cs) (auto split: sum.splits prod.splits)

lemma handleConfirm_invoked:
  "invoked (handleConfirm env s) =
     invoked s @ (case pendingAction s of None \<Rightarrow> []
                  | Some pa \<Rightarrow> fst (run_action (outcome env) (action pa)))"
  by (auto simp: handleConfirm_def split: option.splits prod.splits)

lemma handleConfirm_pending: "pendingAction (handleConfirm env s) = None"
  by (auto simp: handleConfirm_def split: option.splits prod.splits)

lemma admin_step_guarded:
  assumes "c \<in> set (invoked (admin_step env s e))" "guarded_command c"
  shows "c \<in> set (invoked s) \<or>
         (e = ClickConfirm \<and> (\<exists>pa. pendingAction s = Some pa \<and> c \<in> set (action pa)))"
proof (cases e)
  case ClickConfirm
  with assms(1) have "c \<in> set (invoked s) \<or>
      (\<exists>pa. pendingAction s = Some pa \<and> c \<in> set (fst (run_action (outcome env) (action pa))))"
    by (auto simp: handleConfirm_invoked split: option.splits)
  with ClickConfirm run_action_subset show ?thesis by blast
qed (use assms in \<open>auto simp: executeWithConfirmation_def Let_def
       split: if_splits sum.splits option.splits\<close>)

lemma admin_step_pending:
  assumes "pendingAction (admin_step env s e) = Some pa" "c \<in> set (action pa)"
    "guarded_command c"
  shows "pendingAction s = Some pa \<or> e = command_button c"
  using assms
  by (cases e)
     (auto simp: executeWithConfirmation_def handleConfirm_pending Let_def
           split: if_splits sum.splits option.splits)

lemma admin_run_snoc: "admin_run env s (es @ [e]) = admin_step env (admin_run env s es) e"
  by (simp add: admin_run_def)

lemma admin_run_pending_requested:
  "pendingAction (admin_run env (admin_init b) es) = Some pa \<Longrightarrow> c \<in> set (action pa) \<Longrightarrow>
   guarded_command c \<Longrightarrow> command_button c \<in> set es"
proof (induction es arbitrary: pa rule: rev_induct)
  case Nil
  then show ?case by (simp add: admin_run_def admin_init_def)
next
  case (snoc e es)
  from snoc.prems admin_step_pending[of env "admin_run env (admin_init b) es" e pa c]
  have "pendingAction (admin_run env (admin_init b) es) = Some pa \<or> e = command_button c"
    by (simp add: admin_run_snoc)
  with snoc.IH[of pa] snoc.prems(2,3) show ?case by auto
qed

lemma admin_run_invoked_confirmed:
  "c \<in> set (invoked (admin_run env (admin_init b) es)) \<Longrightarrow> guarded_command c \<Longrightarrow>
   \<exists>pre post pa. es = pre @ ClickConfirm # post \<and>
      pendingAction (admin_run env (admin_init b) pre) = Some pa \<and> c \<in> set (action pa)"
proof (induction es rule: rev_induct)
  case Nil
  then show ?case by (simp add: admin_run_def admin_init_def)
next
  case (snoc e es)
  let ?s = "admin_run env (admin_init b) es"
  from snoc.prems admin_step_guarded[of c env ?s e]
  consider "c \<in> set (invoked ?s)"
    | pa where "e = ClickConfirm" "pendingAction ?s = Some pa" "c \<in> set (action pa)"
    by (auto simp: admin_run_snoc)
  then show ?case
  proof cases
    case 1
    with snoc.IH snoc.prems(2) obtain pre post pa where
      "es = pre @ ClickConfirm # post"
      "pendingAction (admin_run env (admin_init b) pre) = Some pa" "c \<in> set (action pa)"
      by blast
    then have "es @ [e] = pre @ ClickConfirm # (post @ [e])" by simp
    with \<open>pendingAction (admin_run env (admin_init b) pre) = Some pa\<close> \<open>c \<in> set (action pa)\<close>
    show ?thesis by blast
  next
    case 2
    then have "es @ [e] = es @ ClickConfirm # []" by simp
    with 2 show ?thesis by blast
  qed
qed

lemma admin_example_run:
  "invoked (admin_run example_admin_env (admin_init True)
      [ClickReboot, ClickCancel, ClickFactoryReset, ClickConfirm]) = [OnFactoryReset]"
  by (simp add: admin_run_def admin_init_def example_admin_env_def
      executeWithConfirmation_def handleConfirm_def)

section \<open>Admin panel: commands wait for the confirm button\<close>

text \<open>
  Claim C4. In every run of the panel from its initial state, a call of the Reboot,
  Shutdown, Reset NodeDB, Factory Reset or Remove Node handler was made by a press of
  the modal's confirm button, at a moment when the pending action held that call, and
  after the command's own button had been pressed. Cancel and the backdrop leave no
  action pending and make no call. The panel holds one pending action at most: a press
  of confirm makes calls of that one action only (all of them, or up to the first that
  rejects) and leaves none pending.
\<close>

theorem admin_commands_need_confirmation:
  "(\<forall>c. guarded_command c \<and> c \<in> set (invoked (admin_run env (admin_init b) es)) \<longrightarrow>
      (\<exists>pre post pa.
         es = pre @ ClickConfirm # post \<and>
         pendingAction (admin_run env (admin_init b) pre) = Some pa \<and>
         c \<in> set (action pa) \<and>
         command_button c \<in> set pre)) \<and>
   (\<forall>s e. e = ClickCancel \<or> e = ClickBackdrop \<longrightarrow>
      pendingAction (admin_step env s e) = None \<and>
      invoked (admin_step env s e) = invoked s) \<and>
   (\<forall>s. pendingAction (admin_step env s ClickConfirm) = None \<and>
      (\<exists>made. invoked (admin_step env s ClickConfirm) = invoked s @ made \<and>
         (case pendingAction s of
            None \<Rightarrow> made = []
          | Some pa \<Rightarrow> (\<exists>rest. action pa = made @ rest))))"
proof (intro conjI allI impI)
  fix c
  assume c: "guarded_command c \<and> c \<in> set (invoked (admin_run env (admin_init b) es))"
  with admin_run_invoked_confirmed[of c env b es] obtain pre post pa where
    p: "es = pre @ ClickConfirm # post"
       "pendingAction (admin_run env (admin_init b) pre) = Some pa" "c \<in> set (action pa)"
    by blast
  with c admin_run_pending_requested[of env b pre pa c]
  have "command_button c \<in> set pre" by blast
  with p show "\<exists>pre post pa.
         es = pre @ ClickConfirm # post \<and>
         pendingAction (admin_run env (admin_init b) pre) = Some pa \<and>
         c \<in> set (action pa) \<and>
         command_button c \<in> set pre"
    by blast
next
  fix s e
  assume "e = ClickCancel \<or> e = ClickBackdrop"
  then show "pendingAction (admin_step env s e) = None"
    by (auto split: option.splits)
next
  fix s e
  assume "e = ClickCancel \<or> e = ClickBackdrop"
  then show "invoked (admin_step env s e) = invoked s"
    by (auto split: option.splits)
next
  fix s
  show "pendingAction (admin_step env s ClickConfirm) = None"
    by (simp add: handleConfirm_pending)
next
  fix s
  show "\<exists>made. invoked (admin_step env s ClickConfirm) = invoked s @ made \<and>
         (case pendingAction s of
            None \<Rightarrow> made = []
          | Some pa \<Rightarrow> (\<exists>rest. action pa = made @ rest))"
    using run_action_prefix
    by (auto simp: handleConfirm_invoked split: option.splits)
qed

text \<open>
  C4 at a run that asks for a reboot, cancels, asks for a factory reset and confirms:
  only the factory reset reaches the device.
\<close>

theorem admin_commands_witness:
  "guarded_command OnFactoryReset \<and>
   invoked (admin_run example_admin_env (admin_init True)
      [ClickReboot, ClickCancel, ClickFactoryReset, ClickConfirm]) = [OnFactoryReset] \<and>
   (\<exists>pre post pa.
      [ClickReboot, ClickCancel, ClickFactoryReset, ClickConfirm] = pre @ ClickConfirm # post \<and>
      pendingAction (admin_run example_admin_env (admin_init True) pre) = Some pa \<and>
      OnFactoryReset \<in> set (action pa) \<and>
      ClickFactoryReset \<in> set pre) \<and>
   pendingAction (admin_step example_admin_env
      (admin_run example_admin_env (admin_init True) [ClickReboot]) ClickCancel) = None \<and>
   invoked (admin_step example_admin_env
      (admin_run example_admin_env (admin_init True) [ClickReboot]) ClickCancel) = []"
proof -
  let ?es = "[ClickReboot, ClickCancel, ClickFactoryReset, ClickConfirm]"
  note inst = admin_commands_need_confirmation[of example_admin_env True ?es]
  have g: "guarded_command OnFactoryReset" by simp
  have m: "OnFactoryReset \<in> set (invoked (admin_run example_admin_env (admin_init True) ?es))"
    by (simp add: admin_example_run)
  from inst g m have 1: "\<exists>pre post pa.
      ?es = pre @ ClickConfirm # post \<and>
      pendingAction (admin_run example_admin_env (admin_init True) pre) = Some pa \<and>
      OnFactoryReset \<in> set (action pa) \<and>
      command_button OnFactoryReset \<in> set pre"
    by blast
  from inst have 2: "pendingAction (admin_step example_admin_env
      (admin_run example_admin_env (admin_init True) [ClickReboot]) ClickCancel) = None \<and>
    invoked (admin_step example_admin_env
      (admin_run example_admin_env (admin_init True) [ClickReboot]) ClickCancel) =
    invoked (admin_run example_admin_env (admin_init True) [ClickReboot])"
    by blast
  have 3: "invoked (admin_run example_admin_env (admin_init True) [ClickReboot]) = []"
    by (simp add: admin_run_def admin_init_def executeWithConfirmation_def)
  from g 1 2 3 admin_example_run show ?thesis by simp
qed

section \<open>Map panel: auxiliary facts\<close>

lemma render_marker_key: "marker_key (render_marker gs my n) = node_id n"
  by (simp add: render_marker_def Let_def)

lemma render_marker_position:
  "marker_position (render_marker gs my n) = (latitude n, longitude n)"
  by (simp add: render_marker_def Let_def)

lemma render_marker_fill:
  "fill (marker_icon (render_marker gs my n)) = status_color (gs (last_heard n))"
  by (cases "gs (last_heard n)")
     (simp_all add: render_marker_def Let_def getMarkerIcon_def createMarkerIcon_def
        status_color_def MARKERS_selfOnline_def MARKERS_selfStale_def MARKERS_selfOffline_def
        MARKERS_online_def MARKERS_stale_def MARKERS_offline_def)

lemma render_marker_self:
  "node_id n = my \<Longrightarrow>
   shape (marker_icon (render_marker gs my n)) = Star \<and>
   iconSize (marker_icon (render_marker gs my n)) = (32, 32) \<and>
   zIndexOffset (render_marker gs my n) = 1000"
  by (cases "gs (last_heard n)")
     (simp_all add: render_marker_def Let_def getMarkerIcon_def createMarkerIcon_def
        MARKERS_selfOnline_def MARKERS_selfStale_def MARKERS_selfOffline_def)

lemma render_marker_other:
  "node_id n \<noteq> my \<Longrightarrow>
   shape (marker_icon (render_marker gs my n)) = Circle \<and>
   iconSize (marker_icon (render_marker gs my n)) = (25, 25) \<and>
   zIndexOffset (render_marker gs my n) = 0"
  by (cases "gs (last_heard n)")
     (simp_all add: render_marker_def Let_def getMarkerIcon_def createMarkerIcon_def
        MARKERS_online_def MARKERS_stale_def MARKERS_offline_def)

lemma rendered_iff:
  assumes "distinct (map node_id nodes)" "n \<in> set nodes"
  shows "(\<exists>m\<in>set (render_markers gs nodes my). marker_key m = node_id n) \<longleftrightarrow>
         latitude n \<noteq> 0 \<and> longitude n \<noteq> 0"
proof
  assume "\<exists>m\<in>set (render_markers gs nodes my). marker_key m = node_id n"
  then obtain n' where n': "n' \<in> set nodes" "latitude n' \<noteq> 0 \<and> longitude n' \<noteq> 0"
      "node_id n' = node_id n"
    by (auto simp: render_markers_def nodesWithPosition_def render_marker_key)
  with assms have "n' = n" by (meson distinct_map inj_onD)
  with n' show "latitude n \<noteq> 0 \<and> longitude n \<noteq> 0" by simp
next
  assume "latitude n \<noteq> 0 \<and> longitude n \<noteq> 0"
  with assms(2) have "render_marker gs my n \<in> set (render_markers gs nodes my)"
    by (simp add: render_markers_def nodesWithPosition_def)
  then show "\<exists>m\<in>set (render_markers gs nodes my). marker_key m = node_id n"
    using render_marker_key by blast
qed

lemma example_markers:
  "map marker_key (render_markers example_status example_nodes 3) = [1, 3]"
  by (simp add: render_markers_def nodesWithPosition_def example_nodes_def render_marker_key)

lemma map_run_snoc: "map_run s (es @ [e]) = map_step (map_run s es) e"
  by (simp add: map_run_def)

lemma map_run_Cons: "map_run s (e # es) = map_run (map_step s e) es"
  by (simp add: map_run_def)

lemma mapFitter_effect_interacted [simp]:
  "userHasInteracted (mapFitter_effect ps s) = userHasInteracted s"
  by (simp add: mapFitter_effect_def split: option.splits)

lemma mapFitter_effect_saved [simp]:
  "savedCenter (mapFitter_effect ps s) = savedCenter s"
  "savedZoom (mapFitter_effect ps s) = savedZoom s"
  by (simp_all add: mapFitter_effect_def split: option.splits)

lemma mapFitter_effect_locked:
  "userHasInteracted s \<Longrightarrow> mapFitter_effect ps s = s"
  by (simp add: mapFitter_effect_def split: option.splits)

lemma interacted_step: "userHasInteracted s \<Longrightarrow> userHasInteracted (map_step s e)"
  by (cases e) (auto simp: track_view_def split: option.splits)

lemma interacted_run: "userHasInteracted s \<Longrightarrow> userHasInteracted (map_run s es)"
  by (induction es arbitrary: s) (simp_all add: map_run_def interacted_step)

lemma map_inv_init: "map_inv map_init"
  by (simp add: map_inv_def map_init_def)

lemma map_inv_step: "map_inv s \<Longrightarrow> map_inv (map_step s e)"
  by (cases e)
     (auto simp: map_inv_def track_view_def mapFitter_effect_def split: option.splits if_splits)

lemma map_inv_run: "map_inv s \<Longrightarrow> map_inv (map_run s es)"
  by (induction es arbitrary: s) (simp_all add: map_run_def map_inv_step)

lemma locked_step_calls:
  assumes "userHasInteracted s"
  shows "fit_calls (map_step s e) = fit_calls s"
  using assms
  by (cases e) (auto simp: fit_calls_def track_view_def mapFitter_effect_locked split: option.splits)

lemma locked_mount:
  assumes "userHasInteracted s" "savedCenter s = Some c" "savedZoom s = Some z" "mounted s = None"
  shows "map_calls (map_step s (Mount nodes)) = map_calls s @ [CreateMap c z]"
  using assms
  by (simp add: mapFitter_effect_locked initial_center_def initial_zoom_def mapFitter_effect_def)

lemma fit_only_on_increase:
  assumes "map_inv s" "fit_calls (map_step s e) \<noteq> fit_calls s"
  shows "\<not> userHasInteracted s \<and>
     ((\<exists>nodes. e = Mount nodes \<and> mounted s = None \<and> 0 < length (positions nodes)) \<or>
      (\<exists>nodes m. e = Render nodes \<and> mounted s = Some m \<and>
          renderedCount m < length (positions nodes) \<and>
          lastFittedCount m < length (positions nodes)))"
proof -
  from assms(2) locked_step_calls have ni: "\<not> userHasInteracted s" by blast
  show ?thesis
  proof (cases e)
    case (Mount nodes)
    with assms(2) show ?thesis
      using ni by (auto simp: fit_calls_def mapFitter_effect_def split: option.splits if_splits)
  next
    case Unmount
    with assms(2) show ?thesis by (simp add: fit_calls_def)
  next
    case (Render nodes)
    with assms show ?thesis
      using ni
      by (auto simp: fit_calls_def mapFitter_effect_def map_inv_def
               split: option.splits if_splits)
  next
    case (Moveend c z)
    with assms(2) show ?thesis by (simp add: fit_calls_def track_view_def split: option.splits)
  next
    case (Zoomend c z)
    with assms(2) show ?thesis by (simp add: fit_calls_def track_view_def split: option.splits)
  qed
qed

lemma mount_fits:
  assumes "\<not> userHasInteracted s" "mounted s = None" "0 < length (positions nodes)"
  shows "fit_calls (map_step s (Mount nodes)) =
     fit_calls s @
       [if length (positions nodes) = 1
        then FlyTo (hd (positions nodes)) (initial_zoom s)
        else FlyToBounds (positions nodes)]"
  using assms by (simp add: fit_calls_def mapFitter_effect_def)

lemma render_fits:
  assumes "map_inv s" "\<not> userHasInteracted s" "mounted s = Some m"
    "lastFittedCount m < length (positions nodes)"
  shows "fit_calls (map_step s (Render nodes)) =
     fit_calls s @
       [if length (positions nodes) = 1
        then FlyTo (hd (positions nodes)) (map_zoom m)
        else FlyToBounds (positions nodes)]"
  using assms by (auto simp: fit_calls_def mapFitter_effect_def map_inv_def)

lemma fit_iff:
  assumes "map_inv s"
  shows "fit_calls (map_step s e) \<noteq> fit_calls s \<longleftrightarrow>
     \<not> userHasInteracted s \<and>
     ((\<exists>nodes. e = Mount nodes \<and> mounted s = None \<and> 0 < length (positions nodes)) \<or>
      (\<exists>nodes m. e = Render nodes \<and> mounted s = Some m \<and>
          renderedCount m < length (positions nodes) \<and>
          lastFittedCount m < length (positions nodes)))"
proof
  assume "fit_calls (map_step s e) \<noteq> fit_calls s"
  with assms show "\<not> userHasInteracted s \<and>
     ((\<exists>nodes. e = Mount nodes \<and> mounted s = None \<and> 0 < length (positions nodes)) \<or>
      (\<exists>nodes m. e = Render nodes \<and> mounted s = Some m \<and>
          renderedCount m < length (positions nodes) \<and>
          lastFittedCount m < length (positions nodes)))"
    by (rule fit_only_on_increase)
next
  assume r: "\<not> userHasInteracted s \<and>
     ((\<exists>nodes. e = Mount nodes \<and> mounted s = None \<and> 0 < length (positions nodes)) \<or>
      (\<exists>nodes m. e = Render nodes \<and> mounted s = Some m \<and>
          renderedCount m < length (positions nodes) \<and>
          lastFittedCount m < length (positions nodes)))"
  then have ni: "\<not> userHasInteracted s" by blast
  from r consider
      nodes where "e = Mount nodes" "mounted s = None" "0 < length (positions nodes)"
    | nodes m where "e = Render nodes" "mounted s = Some m"
        "lastFittedCount m < length (positions nodes)"
    by blast
  then show "fit_calls (map_step s e) \<noteq> fit_calls s"
  proof cases
    case 1
    with mount_fits[OF ni 1(2,3)] show ?thesis by simp
  next
    case 2
    with render_fits[OF assms ni 2(2,3)] show ?thesis by simp
  qed
qed

lemma example_map_run1:
  "map_run map_init [Mount example_nodes] =
     \<lparr>savedCenter = None, savedZoom = None, userHasInteracted = False,
      mounted = Some \<lparr>lastFittedCount = 2, renderedCount = 2, map_zoom = 12\<rparr>,
      map_calls = [CreateMap (40, -105) 12, FlyToBounds [(40, -105), (41, -104)]]\<rparr>"
  by (simp add: map_run_def map_init_def example_nodes_def positions_def nodesWithPosition_def
      initial_center_def initial_zoom_def DEFAULT_ZOOM_def mapFitter_effect_def)

lemma example_remount:
  "map_run map_init [Mount example_nodes, Unmount] =
     \<lparr>savedCenter = None, savedZoom = None, userHasInteracted = False,
      mounted = None,
      map_calls = [CreateMap (40, -105) 12, FlyToBounds [(40, -105), (41, -104)]]\<rparr>"
proof -
  have "map_run map_init [Mount example_nodes, Unmount] =
      map_step (map_run map_init [Mount example_nodes]) Unmount"
    by (simp add: map_run_def)
  then show ?thesis unfolding example_map_run1 by simp
qed

lemma example_positions: "positions example_nodes = [(40, -105), (41, -104)]"
  by (simp add: example_nodes_def positions_def nodesWithPosition_def)

lemma example_first_positioned:
  "initial_center
     \<lparr>savedCenter = None, savedZoom = None, userHasInteracted = False, mounted = None,
      map_calls = cs\<rparr> example_nodes = (40, -105)"
  by (simp add: initial_center_def nodesWithPosition_def example_nodes_def)

lemma example_remount2:
  "map_run map_init [Mount example_nodes, Unmount, Mount example_nodes] =
     \<lparr>savedCenter = None, savedZoom = None, userHasInteracted = False,
      mounted = Some \<lparr>lastFittedCount = 2, renderedCount = 2, map_zoom = 12\<rparr>,
      map_calls = [CreateMap (40, -105) 12, FlyToBounds [(40, -105), (41, -104)],
                   CreateMap (40, -105) 12, FlyToBounds [(40, -105), (41, -104)]]\<rparr>"
proof -
  have "map_run map_init [Mount example_nodes, Unmount, Mount example_nodes] =
      map_step (map_run map_init [Mount example_nodes, Unmount]) (Mount example_nodes)"
    by (simp add: map_run_def)
  also have "\<dots> =
     \<lparr>savedCenter = None, savedZoom = None, userHasInteracted = False,
      mounted = Some \<lparr>lastFittedCount = 2, renderedCount = 2, map_zoom = 12\<rparr>,
      map_calls = [CreateMap (40, -105) 12, FlyToBounds [(40, -105), (41, -104)],
                   CreateMap (40, -105) 12, FlyToBounds [(40, -105), (41, -104)]]\<rparr>"
    unfolding example_remount
    by (simp add: example_positions example_first_positioned initial_zoom_def DEFAULT_ZOOM_def
        mapFitter_effect_def)
  finally show ?thesis .
qed

section \<open>Map panel: markers\<close>

text \<open>
  Claim C9. With the node map's nodes under distinct node numbers: a node has a marker
  iff its latitude and its longitude are both nonzero, one marker per such node in the
  map's order; the marker sits at the node's position and its icon is filled green
  (\<^verbatim>\<open>#22c55e\<close>) when the status of the node's last-heard time is online, yellow
  (\<^verbatim>\<open>#eab308\<close>) when stale and gray (\<^verbatim>\<open>#6b7280\<close>) when offline; the local node's
  marker is a star, larger in both dimensions and with a higher z-index offset than the
  marker of any other node, which is a circle. The status function is a parameter.
\<close>

theorem markers_by_position_status_and_self:
  assumes "distinct (map node_id nodes)"
  shows
    "(\<forall>n\<in>set nodes.
        (\<exists>m\<in>set (render_markers gs nodes my). marker_key m = node_id n) \<longleftrightarrow>
        (latitude n \<noteq> 0 \<and> longitude n \<noteq> 0)) \<and>
     map marker_key (render_markers gs nodes my) =
       map node_id (filter (\<lambda>n. latitude n \<noteq> 0 \<and> longitude n \<noteq> 0) nodes) \<and>
     (\<forall>n\<in>set nodes. latitude n \<noteq> 0 \<and> longitude n \<noteq> 0 \<longrightarrow>
        (\<exists>m\<in>set (render_markers gs nodes my).
           marker_key m = node_id n \<and>
           marker_position m = (latitude n, longitude n) \<and>
           fill (marker_icon m) =
             (case gs (last_heard n) of
                Online \<Rightarrow> ''#22c55e'' | Stale \<Rightarrow> ''#eab308'' | Offline \<Rightarrow> ''#6b7280''))) \<and>
     (\<forall>m\<in>set (render_markers gs nodes my). \<forall>m'\<in>set (render_markers gs nodes my).
        marker_key m = my \<and> marker_key m' \<noteq> my \<longrightarrow>
          shape (marker_icon m) = Star \<and> shape (marker_icon m') = Circle \<and>
          fst (iconSize (marker_icon m)) > fst (iconSize (marker_icon m')) \<and>
          snd (iconSize (marker_icon m)) > snd (iconSize (marker_icon m')) \<and>
          zIndexOffset m > zIndexOffset m')"
proof -
  have p1: "\<forall>n\<in>set nodes.
        (\<exists>m\<in>set (render_markers gs nodes my). marker_key m = node_id n) \<longleftrightarrow>
        (latitude n \<noteq> 0 \<and> longitude n \<noteq> 0)"
    using assms rendered_iff by blast
  have p2: "map marker_key (render_markers gs nodes my) =
       map node_id (filter (\<lambda>n. latitude n \<noteq> 0 \<and> longitude n \<noteq> 0) nodes)"
    by (simp add: render_markers_def nodesWithPosition_def render_marker_key)
  have p3: "\<forall>n\<in>set nodes. latitude n \<noteq> 0 \<and> longitude n \<noteq> 0 \<longrightarrow>
        (\<exists>m\<in>set (render_markers gs nodes my).
           marker_key m = node_id n \<and>
           marker_position m = (latitude n, longitude n) \<and>
           fill (marker_icon m) =
             (case gs (last_heard n) of
                Online \<Rightarrow> ''#22c55e'' | Stale \<Rightarrow> ''#eab308'' | Offline \<Rightarrow> ''#6b7280''))"
  proof (intro ballI impI)
    fix n assume n: "n \<in> set nodes" "latitude n \<noteq> 0 \<and> longitude n \<noteq> 0"
    then have "render_marker gs my n \<in> set (render_markers gs nodes my)"
      by (simp add: render_markers_def nodesWithPosition_def)
    moreover have "fill (marker_icon (render_marker gs my n)) =
               (case gs (last_heard n) of
                  Online \<Rightarrow> ''#22c55e'' | Stale \<Rightarrow> ''#eab308'' | Offline \<Rightarrow> ''#6b7280'')"
      by (simp add: render_marker_fill status_color_def)
    ultimately show "\<exists>m\<in>set (render_markers gs nodes my).
             marker_key m = node_id n \<and>
             marker_position m = (latitude n, longitude n) \<and>
             fill (marker_icon m) =
               (case gs (last_heard n) of
                  Online \<Rightarrow> ''#22c55e'' | Stale \<Rightarrow> ''#eab308'' | Offline \<Rightarrow> ''#6b7280'')"
      using render_marker_key render_marker_position by blast
  qed
  have p4: "\<forall>m\<in>set (render_markers gs nodes my). \<forall>m'\<in>set (render_markers gs nodes my).
        marker_key m = my \<and> marker_key m' \<noteq> my \<longrightarrow>
          shape (marker_icon m) = Star \<and> shape (marker_icon m') = Circle \<and>
          fst (iconSize (marker_icon m)) > fst (iconSize (marker_icon m')) \<and>
          snd (iconSize (marker_icon m)) > snd (iconSize (marker_icon m')) \<and>
          zIndexOffset m > zIndexOffset m'"
  proof (intro ballI impI)
    fix m m'
    assume m: "m \<in> set (render_markers gs nodes my)" "m' \<in> set (render_markers gs nodes my)"
      and k: "marker_key m = my \<and> marker_key m' \<noteq> my"
    from m obtain n n' where n: "m = render_marker gs my n" "m' = render_marker gs my n'"
      by (auto simp: render_markers_def)
    with k have "node_id n = my" "node_id n' \<noteq> my" by (simp_all add: render_marker_key)
    with render_marker_self[of n my gs] render_marker_other[of n' my gs] n
    show "shape (marker_icon m) = Star \<and> shape (marker_icon m') = Circle \<and>
            fst (iconSize (marker_icon m)) > fst (iconSize (marker_icon m')) \<and>
            snd (iconSize (marker_icon m)) > snd (iconSize (marker_icon m')) \<and>
            zIndexOffset m > zIndexOffset m'"
      by simp
  qed
  show ?thesis
    by (rule conjI[OF p1 conjI[OF p2 conjI[OF p3 p4]]])
qed

text \<open>C9 at three nodes, one of them without a latitude, seen from node 3.\<close>

theorem markers_witness:
  "distinct (map node_id example_nodes) \<and>
   map marker_key (render_markers example_status example_nodes 3) = [1, 3] \<and>
   map (\<lambda>m. fill (marker_icon m)) (render_markers example_status example_nodes 3) =
     [''#22c55e'', ''#eab308''] \<and>
   map (\<lambda>m. shape (marker_icon m)) (render_markers example_status example_nodes 3) =
     [Circle, Star] \<and>
   map zIndexOffset (render_markers example_status example_nodes 3) = [0, 1000]"
proof -
  have d: "distinct (map node_id example_nodes)"
    by (simp add: example_nodes_def)
  have f: "filter (\<lambda>n. latitude n \<noteq> 0 \<and> longitude n \<noteq> 0) example_nodes =
    [\<lparr>node_id = 1, latitude = 40, longitude = -105, last_heard = 2000\<rparr>,
     \<lparr>node_id = 3, latitude = 41, longitude = -104, last_heard = 500\<rparr>]"
    by (simp add: example_nodes_def)
  from markers_by_position_status_and_self[OF d, of example_status 3]
  have "map marker_key (render_markers example_status example_nodes 3) = [1, 3]"
    by (simp add: f)
  moreover have "map (\<lambda>m. fill (marker_icon m)) (render_markers example_status example_nodes 3) =
     [''#22c55e'', ''#eab308'']"
    by (simp add: render_markers_def nodesWithPosition_def f render_marker_fill
        status_color_def example_status_def)
  moreover have "map (\<lambda>m. shape (marker_icon m)) (render_markers example_status example_nodes 3) =
     [Circle, Star]"
    by (simp add: render_markers_def nodesWithPosition_def f render_marker_self
        render_marker_other)
  moreover have "map zIndexOffset (render_markers example_status example_nodes 3) = [0, 1000]"
    by (simp add: render_markers_def nodesWithPosition_def f render_marker_self
        render_marker_other)
  ultimately show ?thesis using d by blast
qed

section \<open>Map panel: the view stays where the user left it\<close>

text \<open>
  Claim C5. Take any run of the panel that has it mounted, then a \<^verbatim>\<open>moveend\<close> or
  \<^verbatim>\<open>zoomend\<close> event at centre \<open>c\<close> and zoom \<open>z\<close>: the event saves \<open>c\<close> and \<open>z\<close>, and
  after any further events the session still counts as interacted, no event adds a
  \<^verbatim>\<open>flyTo\<close> or \<^verbatim>\<open>flyToBounds\<close>, and a mount creates the map at the saved centre and
  zoom. In any run at all, an event adds such a call exactly when the session is not
  interacted and the event is either a mount with at least one positioned node, or a
  render of the mounted panel whose count of positioned nodes exceeds both the count of
  the render before and the count that mount last fitted. The count last fitted belongs
  to the mount and starts at zero with it: before any interaction every mount with a
  positioned node fits, whatever an earlier mount has fitted.
\<close>

theorem map_view_locked_and_fit_per_mount:
  assumes "mounted (map_run map_init es1) \<noteq> None"
    and "e = Moveend c z \<or> e = Zoomend c z"
  shows
    "savedCenter (map_step (map_run map_init es1) e) = Some c \<and>
     savedZoom (map_step (map_run map_init es1) e) = Some z \<and>
     userHasInteracted (map_run (map_step (map_run map_init es1) e) es2) \<and>
     (\<forall>e'. fit_calls (map_step (map_run (map_step (map_run map_init es1) e) es2) e') =
            fit_calls (map_run (map_step (map_run map_init es1) e) es2)) \<and>
     (\<forall>nodes. mounted (map_run (map_step (map_run map_init es1) e) es2) = None \<longrightarrow>
        (\<exists>c' z'.
           savedCenter (map_run (map_step (map_run map_init es1) e) es2) = Some c' \<and>
           savedZoom (map_run (map_step (map_run map_init es1) e) es2) = Some z' \<and>
           map_calls (map_step (map_run (map_step (map_run map_init es1) e) es2) (Mount nodes)) =
             map_calls (map_run (map_step (map_run map_init es1) e) es2) @ [CreateMap c' z'])) \<and>
     (\<forall>es e'. fit_calls (map_step (map_run map_init es) e') \<noteq> fit_calls (map_run map_init es) \<longleftrightarrow>
        \<not> userHasInteracted (map_run map_init es) \<and>
        ((\<exists>nodes. e' = Mount nodes \<and> mounted (map_run map_init es) = None \<and>
             0 < length (positions nodes)) \<or>
         (\<exists>nodes m. e' = Render nodes \<and> mounted (map_run map_init es) = Some m \<and>
             renderedCount m < length (positions nodes) \<and>
             lastFittedCount m < length (positions nodes)))) \<and>
     (\<forall>es nodes.
        \<not> userHasInteracted (map_run map_init es) \<and> mounted (map_run map_init es) = None \<and>
        0 < length (positions nodes) \<longrightarrow>
        fit_calls (map_step (map_run map_init es) (Mount nodes)) =
          fit_calls (map_run map_init es) @
            [if length (positions nodes) = 1
             then FlyTo (hd (positions nodes)) (initial_zoom (map_run map_init es))
             else FlyToBounds (positions nodes)])"
proof -
  let ?s1 = "map_step (map_run map_init es1) e"
  let ?s2 = "map_run ?s1 es2"
  from assms have saved: "savedCenter ?s1 = Some c" "savedZoom ?s1 = Some z"
    and i1: "userHasInteracted ?s1"
    by (auto simp: track_view_def split: option.splits)
  from i1 have i2: "userHasInteracted ?s2" by (rule interacted_run)
  have inv2: "map_inv ?s2"
    by (intro map_inv_run map_inv_step map_inv_init)
  with i2 obtain c' z' where sv: "savedCenter ?s2 = Some c'" "savedZoom ?s2 = Some z'"
    by (auto simp: map_inv_def)
  have p4: "\<forall>e'. fit_calls (map_step ?s2 e') = fit_calls ?s2"
    using i2 locked_step_calls by blast
  have p5: "\<forall>nodes. mounted ?s2 = None \<longrightarrow>
        (\<exists>c' z'. savedCenter ?s2 = Some c' \<and> savedZoom ?s2 = Some z' \<and>
           map_calls (map_step ?s2 (Mount nodes)) = map_calls ?s2 @ [CreateMap c' z'])"
    using sv locked_mount[OF i2 sv] by blast
  have p6: "\<forall>es e'. fit_calls (map_step (map_run map_init es) e') \<noteq> fit_calls (map_run map_init es) \<longleftrightarrow>
        \<not> userHasInteracted (map_run map_init es) \<and>
        ((\<exists>nodes. e' = Mount nodes \<and> mounted (map_run map_init es) = None \<and>
             0 < length (positions nodes)) \<or>
         (\<exists>nodes m. e' = Render nodes \<and> mounted (map_run map_init es) = Some m \<and>
             renderedCount m < length (positions nodes) \<and>
             lastFittedCount m < length (positions nodes)))"
    using fit_iff[OF map_inv_run[OF map_inv_init]] by blast
  have p7: "\<forall>es nodes.
        \<not> userHasInteracted (map_run map_init es) \<and> mounted (map_run map_init es) = None \<and>
        0 < length (positions nodes) \<longrightarrow>
        fit_calls (map_step (map_run map_init es) (Mount nodes)) =
          fit_calls (map_run map_init es) @
            [if length (positions nodes) = 1
             then FlyTo (hd (positions nodes)) (initial_zoom (map_run map_init es))
             else FlyToBounds (positions nodes)]"
    using mount_fits by blast
  show ?thesis
    by (rule conjI[OF saved(1) conjI[OF saved(2) conjI[OF i2 conjI[OF p4
          conjI[OF p5 conjI[OF p6 p7]]]]]])
qed

text \<open>
  The claim's last clause, that the auto-fit runs only when the count of positioned
  nodes strictly increases, fails at a remount: \<^verbatim>\<open>lastFittedCount\<close> is a reference of
  the \<^verbatim>\<open>MapFitter\<close> instance and not a module-level variable. With two positioned
  nodes and no interaction, mounting, unmounting and mounting again at the same nodes
  fits twice, the second time at an unchanged count of two.
\<close>

theorem remount_refits_counterexample:
  "\<not> userHasInteracted (map_run map_init [Mount example_nodes, Unmount]) \<and>
   fit_calls (map_run map_init [Mount example_nodes, Unmount]) =
     [FlyToBounds [(40, -105), (41, -104)]] \<and>
   fit_calls (map_run map_init [Mount example_nodes, Unmount, Mount example_nodes]) =
     [FlyToBounds [(40, -105), (41, -104)], FlyToBounds [(40, -105), (41, -104)]] \<and>
   length (positions example_nodes) = 2 \<and>
   \<not> (\<forall>nodes0 nodes.
        fit_calls (map_run map_init [Mount nodes0, Unmount, Mount nodes]) \<noteq>
          fit_calls (map_run map_init [Mount nodes0, Unmount]) \<longrightarrow>
        length (positions nodes0) < length (positions nodes))"
proof -
  have a: "\<not> userHasInteracted (map_run map_init [Mount example_nodes, Unmount])"
    unfolding example_remount by simp
  have b: "fit_calls (map_run map_init [Mount example_nodes, Unmount]) =
     [FlyToBounds [(40, -105), (41, -104)]]"
    unfolding example_remount by (simp add: fit_calls_def)
  have c: "fit_calls (map_run map_init [Mount example_nodes, Unmount, Mount example_nodes]) =
     [FlyToBounds [(40, -105), (41, -104)], FlyToBounds [(40, -105), (41, -104)]]"
    unfolding example_remount2 by (simp add: fit_calls_def)
  have d: "length (positions example_nodes) = 2"
    by (simp add: example_positions)
  have e: "\<not> (\<forall>nodes0 nodes.
        fit_calls (map_run map_init [Mount nodes0, Unmount, Mount nodes]) \<noteq>
          fit_calls (map_run map_init [Mount nodes0, Unmount]) \<longrightarrow>
        length (positions nodes0) < length (positions nodes))"
  proof
    assume "\<forall>nodes0 nodes.
        fit_calls (map_run map_init [Mount nodes0, Unmount, Mount nodes]) \<noteq>
          fit_calls (map_run map_init [Mount nodes0, Unmount]) \<longrightarrow>
        length (positions nodes0) < length (positions nodes)"
    then have "fit_calls (map_run map_init [Mount example_nodes, Unmount, Mount example_nodes]) \<noteq>
          fit_calls (map_run map_init [Mount example_nodes, Unmount]) \<longrightarrow>
        length (positions example_nodes) < length (positions example_nodes)"
      by blast
    with b c show False by simp
  qed
  show ?thesis
    by (rule conjI[OF a conjI[OF b conjI[OF c conjI[OF d e]]]])
qed

text \<open>
  C5 at a run that mounts two positioned nodes, moves the map, unmounts and mounts
  again: the second map is created where the user left the first. At the run that
  mounts, unmounts and mounts again with no interaction, the second mount fits.
\<close>

theorem map_view_witness:
  "mounted (map_run map_init [Mount example_nodes]) \<noteq> None \<and>
   userHasInteracted
     (map_run (map_step (map_run map_init [Mount example_nodes]) (Moveend (1, 2) 5)) [Unmount]) \<and>
   mounted
     (map_run (map_step (map_run map_init [Mount example_nodes]) (Moveend (1, 2) 5)) [Unmount])
     = None \<and>
   map_calls (map_step
       (map_run (map_step (map_run map_init [Mount example_nodes]) (Moveend (1, 2) 5)) [Unmount])
       (Mount example_nodes)) =
     [CreateMap (40, -105) 12, FlyToBounds [(40, -105), (41, -104)], CreateMap (1, 2) 5] \<and>
   \<not> userHasInteracted (map_run map_init [Mount example_nodes, Unmount]) \<and>
   mounted (map_run map_init [Mount example_nodes, Unmount]) = None \<and>
   0 < length (positions example_nodes) \<and>
   fit_calls (map_step (map_run map_init [Mount example_nodes, Unmount]) (Mount example_nodes)) \<noteq>
     fit_calls (map_run map_init [Mount example_nodes, Unmount]) \<and>
   fit_calls (map_step (map_run map_init [Mount example_nodes, Unmount]) (Mount example_nodes)) =
     [FlyToBounds [(40, -105), (41, -104)], FlyToBounds [(40, -105), (41, -104)]]"
proof -
  let ?s2 = "map_run (map_step (map_run map_init [Mount example_nodes]) (Moveend (1, 2) 5)) [Unmount]"
  let ?r = "map_run map_init [Mount example_nodes, Unmount]"
  have m: "mounted (map_run map_init [Mount example_nodes]) \<noteq> None"
    by (simp add: example_map_run1)
  have s2: "?s2 =
     \<lparr>savedCenter = Some (1, 2), savedZoom = Some 5, userHasInteracted = True,
      mounted = None,
      map_calls = [CreateMap (40, -105) 12, FlyToBounds [(40, -105), (41, -104)]]\<rparr>"
    unfolding example_map_run1 by (simp add: map_run_def track_view_def)
  have mn: "mounted ?s2 = None" unfolding s2 by simp
  have mcs: "map_calls ?s2 = [CreateMap (40, -105) 12, FlyToBounds [(40, -105), (41, -104)]]"
    unfolding s2 by simp
  note inst1 = map_view_locked_and_fit_per_mount[OF m, of "Moveend (1, 2) 5" "(1, 2)" 5 "[Unmount]"]
  from inst1
  have i: "userHasInteracted ?s2"
    and a: "\<forall>nodes. mounted ?s2 = None \<longrightarrow>
        (\<exists>c' z'. savedCenter ?s2 = Some c' \<and> savedZoom ?s2 = Some z' \<and>
           map_calls (map_step ?s2 (Mount nodes)) = map_calls ?s2 @ [CreateMap c' z'])"
    by blast+
  from a mn obtain c' z' where sc: "savedCenter ?s2 = Some c'" "savedZoom ?s2 = Some z'"
    and mc: "map_calls (map_step ?s2 (Mount example_nodes)) = map_calls ?s2 @ [CreateMap c' z']"
    by blast
  from sc have "c' = (1, 2)" "z' = 5" unfolding s2 by simp_all
  with mc mcs have w4: "map_calls (map_step ?s2 (Mount example_nodes)) =
     [CreateMap (40, -105) 12, FlyToBounds [(40, -105), (41, -104)], CreateMap (1, 2) 5]"
    by (simp only: append.simps)
  have ni: "\<not> userHasInteracted ?r" unfolding example_remount by simp
  have un: "mounted ?r = None" unfolding example_remount by simp
  have pos: "0 < length (positions example_nodes)" by (simp add: example_positions)
  have fc: "fit_calls ?r = [FlyToBounds [(40, -105), (41, -104)]]"
    unfolding example_remount by (simp add: fit_calls_def)
  from inst1
  have iff: "\<forall>es e'. fit_calls (map_step (map_run map_init es) e') \<noteq>
          fit_calls (map_run map_init es) \<longleftrightarrow>
        \<not> userHasInteracted (map_run map_init es) \<and>
        ((\<exists>nodes. e' = Mount nodes \<and> mounted (map_run map_init es) = None \<and>
             0 < length (positions nodes)) \<or>
         (\<exists>nodes m. e' = Render nodes \<and> mounted (map_run map_init es) = Some m \<and>
             renderedCount m < length (positions nodes) \<and>
             lastFittedCount m < length (positions nodes)))"
    and app: "\<forall>es nodes.
        \<not> userHasInteracted (map_run map_init es) \<and> mounted (map_run map_init es) = None \<and>
        0 < length (positions nodes) \<longrightarrow>
        fit_calls (map_step (map_run map_init es) (Mount nodes)) =
          fit_calls (map_run map_init es) @
            [if length (positions nodes) = 1
             then FlyTo (hd (positions nodes)) (initial_zoom (map_run map_init es))
             else FlyToBounds (positions nodes)]"
    by blast+
  from iff ni un pos
  have w8: "fit_calls (map_step ?r (Mount example_nodes)) \<noteq> fit_calls ?r"
    by blast
  from app ni un pos
  have "fit_calls (map_step ?r (Mount example_nodes)) =
          fit_calls ?r @
            [if length (positions example_nodes) = 1
             then FlyTo (hd (positions example_nodes)) (initial_zoom ?r)
             else FlyToBounds (positions example_nodes)]"
    by blast
  then have w9: "fit_calls (map_step ?r (Mount example_nodes)) =
     [FlyToBounds [(40, -105), (41, -104)], FlyToBounds [(40, -105), (41, -104)]]"
    by (simp add: fc example_positions)
  show ?thesis
    by (rule conjI[OF m conjI[OF i conjI[OF mn conjI[OF w4 conjI[OF ni conjI[OF un
          conjI[OF pos conjI[OF w8 w9]]]]]]]])
qed

section \<open>Chat panel: auxiliary facts\<close>

lemma split_step_regular:
  "fst (split_step (regular, reactions) m) = (if is_reaction m then regular else regular @ [m])"
  by (auto simp: split_step_def is_reaction_def truthy_def Let_def split: option.splits)

lemma split_step_reactions:
  "snd (split_step (regular, reactions) m) k =
     (if is_reaction m \<and> replyId m = Some k
      then Some ((case reactions k of None \<Rightarrow> [] | Some xs \<Rightarrow> xs) @ [(the (emoji m), sender_name m)])
      else reactions k)"
  by (auto simp: split_step_def is_reaction_def truthy_def Let_def split: option.splits)

lemma reactions_on_Cons:
  "reactions_on k (m # ms) =
     (if is_reaction m \<and> replyId m = Some k
      then (the (emoji m), sender_name m) # reactions_on k ms
      else reactions_on k ms)"
  by (simp add: reactions_on_def)

lemma foldl_split_step:
  "fst (foldl split_step (regular, reactions) messages) =
     regular @ filter (\<lambda>m. \<not> is_reaction m) messages \<and>
   (\<forall>k. snd (foldl split_step (regular, reactions) messages) k =
     (if reactions_on k messages = [] then reactions k
      else Some ((case reactions k of None \<Rightarrow> [] | Some xs \<Rightarrow> xs) @ reactions_on k messages)))"
proof (induction messages arbitrary: regular reactions)
  case Nil
  then show ?case by (simp add: reactions_on_def)
next
  case (Cons m ms)
  obtain regular' reactions' where st: "split_step (regular, reactions) m = (regular', reactions')"
    by (cases "split_step (regular, reactions) m")
  from st split_step_regular[of regular reactions m]
  have r: "regular' = (if is_reaction m then regular else regular @ [m])" by simp
  from st split_step_reactions[of regular reactions m]
  have x: "reactions' k =
     (if is_reaction m \<and> replyId m = Some k
      then Some ((case reactions k of None \<Rightarrow> [] | Some xs \<Rightarrow> xs) @ [(the (emoji m), sender_name m)])
      else reactions k)" for k by simp
  have f: "foldl split_step (regular, reactions) (m # ms) = foldl split_step (regular', reactions') ms"
    by (simp add: st)
  from Cons.IH[of regular' reactions']
  have ih1: "fst (foldl split_step (regular', reactions') ms) =
               regular' @ filter (\<lambda>m. \<not> is_reaction m) ms"
    and ih2: "snd (foldl split_step (regular', reactions') ms) k =
     (if reactions_on k ms = [] then reactions' k
      else Some ((case reactions' k of None \<Rightarrow> [] | Some xs \<Rightarrow> xs) @ reactions_on k ms))" for k
    by blast+
  have g1: "fst (foldl split_step (regular, reactions) (m # ms)) =
     regular @ filter (\<lambda>m. \<not> is_reaction m) (m # ms)"
    by (subst f, subst ih1) (simp add: r)
  have g2: "snd (foldl split_step (regular, reactions) (m # ms)) k =
     (if reactions_on k (m # ms) = [] then reactions k
      else Some ((case reactions k of None \<Rightarrow> [] | Some xs \<Rightarrow> xs) @ reactions_on k (m # ms)))"
    for k
  proof (cases "is_reaction m \<and> replyId m = Some k")
    case True
    then show ?thesis
      by (subst f, subst ih2) (simp add: x reactions_on_Cons)
  next
    case False
    then show ?thesis
      by (subst f, subst ih2) (auto simp: x reactions_on_Cons)
  qed
  from g1 g2 show ?case by blast
qed

lemma regularMessages_filter:
  "regularMessages messages = filter (\<lambda>m. \<not> is_reaction m) messages"
  using foldl_split_step[of "[]" Map.empty messages]
  by (simp add: regularMessages_def split_messages_def)

lemma reactionsByReplyId_eq:
  "reactionsByReplyId messages k =
     (if reactions_on k messages = [] then None else Some (reactions_on k messages))"
  using foldl_split_step[of "[]" Map.empty messages]
  by (simp add: reactionsByReplyId_def split_messages_def)

lemma filteredMessages_filter:
  "filteredMessages s my regular =
     filter (\<lambda>m. (if isDmMode s then exchanged_with my (the (activeDmNode s)) m
                  else shown_in_channel (selectedChannel s) m) \<and>
                 (search_active s \<longrightarrow> matches_search (searchQuery s) m)) regular"
proof (cases "isDmMode s")
  case True
  then obtain dm where dm: "viewMode s = Dm" "activeDmNode s = Some dm"
    by (auto simp: isDmMode_def)
  show ?thesis
    using True dm
    by (auto simp: filteredMessages_def Let_def search_active_def matches_search_def
        exchanged_with_def intro!: filter_cong)
next
  case False
  show ?thesis
  proof (cases "viewMode s")
    case Channels
    with False show ?thesis
      by (auto simp: filteredMessages_def Let_def search_active_def matches_search_def
          shown_in_channel_def intro!: filter_cong)
  next
    case Dm
    with False have "activeDmNode s = None" by (simp add: isDmMode_def)
    with False Dm show ?thesis
      by (auto simp: filteredMessages_def Let_def search_active_def matches_search_def
          shown_in_channel_def intro!: filter_cong)
  qed
qed

lemma example_channel_stream:
  "filter (\<lambda>m. \<not> is_reaction m \<and> shown_in_channel 0 m \<and> matches_search ''MESH'' m)
     example_messages = [example_message]"
  by code_simp

lemma example_dm_stream:
  "filter (\<lambda>m. \<not> is_reaction m \<and> exchanged_with 1 8 m) example_messages =
     [example_message\<lparr>sender_id := 8, sender_name := ''Rover'', payload := ''psst'',
        to := Some 1, packetId := Some 13\<rparr>]"
  by code_simp

lemma example_reactions:
  "map (\<lambda>m. (the (emoji m), sender_name m))
     (filter (\<lambda>m. is_reaction m \<and> replyId m = Some 11) example_messages) =
   [(128077, ''Rover'')]"
  by code_simp

lemma example_reaction_exists:
  "\<exists>m\<in>set example_messages. is_reaction m \<and> replyId m = Some 11"
  by (simp add: example_messages_def example_message_def is_reaction_def truthy_def)

lemma unread_step_count:
  "(case unread_step my lr counts m ch of None \<Rightarrow> 0 | Some n \<Rightarrow> n) =
     (case counts ch of None \<Rightarrow> 0 | Some n \<Rightarrow> n) + (if unread_candidate my lr ch m then 1 else 0)"
  by (auto simp: unread_step_def unread_candidate_def Let_def split: option.splits)

lemma foldl_unread_step:
  "(case foldl (unread_step my lr) counts regular ch of None \<Rightarrow> 0 | Some n \<Rightarrow> n) =
     (case counts ch of None \<Rightarrow> 0 | Some n \<Rightarrow> n) +
     length (filter (unread_candidate my lr ch) regular)"
proof (induction regular arbitrary: counts)
  case Nil
  then show ?case by simp
next
  case (Cons m ms)
  have "(case foldl (unread_step my lr) counts (m # ms) ch of None \<Rightarrow> 0 | Some n \<Rightarrow> n) =
        (case unread_step my lr counts m ch of None \<Rightarrow> 0 | Some n \<Rightarrow> n) +
        length (filter (unread_candidate my lr ch) ms)"
    using Cons.IH[of "unread_step my lr counts m"] by simp
  then show ?case by (simp add: unread_step_count)
qed

lemma update_unread_count:
  "unread (update_unread my (regularMessages messages) s) ch =
     length (filter (counts_as_unread s my ch) messages)"
proof -
  have "unread (update_unread my (regularMessages messages) s) ch =
        length (filter (unread_candidate my (lastRead s) ch) (regularMessages messages))"
    using foldl_unread_step[of my "lastRead s" Map.empty "regularMessages messages" ch]
    by (simp add: unread_def update_unread_def)
  also have "\<dots> = length (filter (counts_as_unread s my ch) messages)"
    unfolding regularMessages_filter filter_filter
    by (rule arg_cong[where f = length], rule filter_cong)
       (auto simp: counts_as_unread_def unread_candidate_def last_read_time_def)
  finally show ?thesis .
qed

lemma unread_badge_cases:
  "unread_badge s ch =
     (if unread s ch = 0 \<or> (viewMode s = Channels \<and> selectedChannel s = ch) then None
      else if unread s ch \<le> 99 then Some (string_of_nat (unread s ch))
      else Some ''99+'')"
  by (auto simp: unread_badge_def)

lemma mark_read_channels:
  assumes "viewMode s = Channels"
  shows "lastRead (mark_read now s) (selectedChannel s) = Some now"
    and "unread (mark_read now s) (selectedChannel s) = 0"
    and "unread_badge (mark_read now s) (selectedChannel s) = None"
    and "ch' \<noteq> selectedChannel s \<Longrightarrow> unread (mark_read now s) ch' = unread s ch'"
    and "ch' \<noteq> selectedChannel s \<Longrightarrow> lastRead (mark_read now s) ch' = lastRead s ch'"
  using assms by (simp_all add: mark_read_def unread_def unread_badge_def)

lemma example_hundred:
  "length (filter (counts_as_unread example_chat 1 0) (replicate 100 example_message)) = 100"
proof -
  have "counts_as_unread example_chat 1 0 example_message"
    by (simp add: counts_as_unread_def example_message_def example_chat_def is_reaction_def
        truthy_def last_read_time_def)
  then show ?thesis by (simp add: filter_replicate)
qed

lemma string_of_nat_100: "string_of_nat 100 = ''100''"
  by code_simp

section \<open>Chat panel: the message stream\<close>

text \<open>
  Claim C6. The rendered stream is the message list filtered by three tests at once. A
  message that is a reaction is left out; it counts as one iff it carries a nonzero
  emoji code and a nonzero reply id. In DM mode (\<^verbatim>\<open>viewMode\<close> is \<^verbatim>\<open>"dm"\<close> and a DM node
  is active) a message is kept iff the local node sent it to the active DM node or the
  active DM node sent it to the local node; otherwise it is kept iff it has no
  destination and the selected channel is \<open>-1\<close> ("All") or the message's own. While
  the search query is not blank a message must also contain the lower-cased query in
  its lower-cased payload or sender name. The reactions left out are filed under the
  packet they reply to: the map gives, for a packet id, the emoji and sender of every
  reaction to it, in message order, and nothing for a packet without reactions.
\<close>

theorem chat_stream_shows_exactly:
  "filteredMessages s my (regularMessages messages) =
     filter (\<lambda>m. \<not> is_reaction m \<and>
                 (if isDmMode s then exchanged_with my (the (activeDmNode s)) m
                  else shown_in_channel (selectedChannel s) m) \<and>
                 (search_active s \<longrightarrow> matches_search (searchQuery s) m)) messages \<and>
   (\<forall>m. is_reaction m \<longleftrightarrow>
      (\<exists>e r. emoji m = Some e \<and> e \<noteq> 0 \<and> replyId m = Some r \<and> r \<noteq> 0)) \<and>
   (\<forall>k. reactionsByReplyId messages k =
      (if \<exists>m\<in>set messages. is_reaction m \<and> replyId m = Some k
       then Some (map (\<lambda>m. (the (emoji m), sender_name m))
                    (filter (\<lambda>m. is_reaction m \<and> replyId m = Some k) messages))
       else None))"
proof -
  have p1: "filteredMessages s my (regularMessages messages) =
     filter (\<lambda>m. \<not> is_reaction m \<and>
                 (if isDmMode s then exchanged_with my (the (activeDmNode s)) m
                  else shown_in_channel (selectedChannel s) m) \<and>
                 (search_active s \<longrightarrow> matches_search (searchQuery s) m)) messages"
    unfolding filteredMessages_filter regularMessages_filter filter_filter
    by (rule filter_cong) auto
  have p2: "\<forall>m. is_reaction m \<longleftrightarrow>
      (\<exists>e r. emoji m = Some e \<and> e \<noteq> 0 \<and> replyId m = Some r \<and> r \<noteq> 0)"
    by (auto simp: is_reaction_def truthy_def split: option.splits)
  have p3: "\<forall>k. reactionsByReplyId messages k =
      (if \<exists>m\<in>set messages. is_reaction m \<and> replyId m = Some k
       then Some (map (\<lambda>m. (the (emoji m), sender_name m))
                    (filter (\<lambda>m. is_reaction m \<and> replyId m = Some k) messages))
       else None)"
    by (auto simp: reactionsByReplyId_eq reactions_on_def filter_empty_conv)
  show ?thesis by (rule conjI[OF p1 conjI[OF p2 p3]])
qed

text \<open>
  C6 at four sample messages: the channel view under a search, the DM view, and the
  reaction filed under the packet it answers.
\<close>

theorem chat_stream_witness:
  "filteredMessages (example_chat\<lparr>selectedChannel := 0, searchQuery := ''MESH''\<rparr>) 1
     (regularMessages example_messages) = [example_message] \<and>
   filteredMessages (example_chat\<lparr>viewMode := Dm, activeDmNode := Some 8\<rparr>) 1
     (regularMessages example_messages) =
     [example_message\<lparr>sender_id := 8, sender_name := ''Rover'', payload := ''psst'',
        to := Some 1, packetId := Some 13\<rparr>] \<and>
   reactionsByReplyId example_messages 11 = Some [(128077, ''Rover'')]"
proof -
  let ?s1 = "example_chat\<lparr>selectedChannel := 0, searchQuery := ''MESH''\<rparr>"
  let ?s2 = "example_chat\<lparr>viewMode := Dm, activeDmNode := Some 8\<rparr>"
  have a: "search_active ?s1" "\<not> isDmMode ?s1" "selectedChannel ?s1 = 0"
    "searchQuery ?s1 = ''MESH''"
    by (simp_all add: search_active_def isDmMode_def example_chat_def trim_def is_white_space_def)
  have b: "\<not> search_active ?s2" "isDmMode ?s2" "the (activeDmNode ?s2) = 8"
    by (simp_all add: search_active_def isDmMode_def example_chat_def trim_def)
  note inst1 = chat_stream_shows_exactly[of ?s1 1 example_messages]
  note inst2 = chat_stream_shows_exactly[of ?s2 1 example_messages]
  from inst1 have "filteredMessages ?s1 1 (regularMessages example_messages) =
      filter (\<lambda>m. \<not> is_reaction m \<and> shown_in_channel 0 m \<and> matches_search ''MESH'' m)
        example_messages"
    by (simp only: a if_False simp_thms)
  then have 1: "filteredMessages ?s1 1 (regularMessages example_messages) = [example_message]"
    by (simp only: example_channel_stream)
  from inst2 have "filteredMessages ?s2 1 (regularMessages example_messages) =
      filter (\<lambda>m. \<not> is_reaction m \<and> exchanged_with 1 8 m) example_messages"
    by (simp only: b if_True simp_thms)
  then have 2: "filteredMessages ?s2 1 (regularMessages example_messages) =
     [example_message\<lparr>sender_id := 8, sender_name := ''Rover'', payload := ''psst'',
        to := Some 1, packetId := Some 13\<rparr>]"
    by (simp only: example_dm_stream)
  from inst1 example_reaction_exists
  have "reactionsByReplyId example_messages 11 =
     Some (map (\<lambda>m. (the (emoji m), sender_name m))
       (filter (\<lambda>m. is_reaction m \<and> replyId m = Some 11) example_messages))"
    by (simp only: if_True simp_thms)
  then have 3: "reactionsByReplyId example_messages 11 = Some [(128077, ''Rover'')]"
    by (simp only: example_reactions)
  from 1 2 3 show ?thesis by blast
qed

section \<open>Chat panel: unread counts\<close>

text \<open>
  Claim C7, amended. When the effect on the message list has run, the count kept for a
  channel is the number of messages that are no reactions, have no destination, are on
  that channel, come from another node than the local one and bear a timestamp later
  than the channel's last-read time (zero when it was never read); a message of the
  local node, a direct message or a reaction never counts. The badge of a channel shows
  that count in decimal up to 99 and \<^verbatim>\<open>99+\<close> above, and nothing when the count is zero
  or the channel is the one on view in channel mode. The effect that marks as read
  sets, in channel mode, the selected channel's last-read time to now and removes its
  count, leaving other channels alone; in DM mode it does nothing.
\<close>

theorem unread_counts_and_badge:
  "unread (update_unread my (regularMessages messages) s) ch =
     length (filter (counts_as_unread s my ch) messages) \<and>
   (\<forall>m. sender_id m = my \<or> truthy (to m) \<or> is_reaction m \<longrightarrow> \<not> counts_as_unread s my ch m) \<and>
   unread_badge s ch =
     (if unread s ch = 0 \<or> (viewMode s = Channels \<and> selectedChannel s = ch) then None
      else if unread s ch \<le> 99 then Some (string_of_nat (unread s ch))
      else Some ''99+'') \<and>
   (viewMode s = Channels \<longrightarrow>
      lastRead (mark_read now s) (selectedChannel s) = Some now \<and>
      unread (mark_read now s) (selectedChannel s) = 0 \<and>
      unread_badge (mark_read now s) (selectedChannel s) = None \<and>
      (\<forall>ch'. ch' \<noteq> selectedChannel s \<longrightarrow>
         unread (mark_read now s) ch' = unread s ch' \<and>
         lastRead (mark_read now s) ch' = lastRead s ch')) \<and>
   (viewMode s \<noteq> Channels \<longrightarrow> mark_read now s = s)"
proof -
  have p2: "\<forall>m. sender_id m = my \<or> truthy (to m) \<or> is_reaction m \<longrightarrow> \<not> counts_as_unread s my ch m"
    by (auto simp: counts_as_unread_def)
  have p4: "viewMode s = Channels \<longrightarrow>
      lastRead (mark_read now s) (selectedChannel s) = Some now \<and>
      unread (mark_read now s) (selectedChannel s) = 0 \<and>
      unread_badge (mark_read now s) (selectedChannel s) = None \<and>
      (\<forall>ch'. ch' \<noteq> selectedChannel s \<longrightarrow>
         unread (mark_read now s) ch' = unread s ch' \<and>
         lastRead (mark_read now s) ch' = lastRead s ch')"
    using mark_read_channels[where s = s and now = now] by blast
  have p5: "viewMode s \<noteq> Channels \<longrightarrow> mark_read now s = s"
    by (simp add: mark_read_def)
  show ?thesis
    by (rule conjI[OF update_unread_count conjI[OF p2 conjI[OF unread_badge_cases conjI[OF p4 p5]]]])
qed

text \<open>
  C7 as stated fails where the count passes 99: with a hundred unread messages on
  channel 0, seen from channel 1, the badge reads \<^verbatim>\<open>99+\<close> and not the number.
\<close>

theorem unread_badge_counterexample:
  "unread_badge (update_unread 1 (regularMessages (replicate 100 example_message)) example_chat) 0
     \<noteq> Some (string_of_nat
          (length (filter (counts_as_unread example_chat 1 0) (replicate 100 example_message))))"
proof -
  let ?s = "update_unread 1 (regularMessages (replicate 100 example_message)) example_chat"
  have u: "unread ?s 0 = 100"
    by (simp only: update_unread_count example_hundred)
  have v: "viewMode ?s = Channels" "selectedChannel ?s = 1"
    by (simp_all add: update_unread_def example_chat_def)
  have "unread_badge ?s 0 = Some ''99+''"
    by (simp add: unread_badge_cases u v)
  then show ?thesis
    by (simp add: example_hundred string_of_nat_100)
qed

text \<open>C7 at the sample messages: one unread on channel 0, none once the channel is viewed.\<close>

theorem unread_counts_witness:
  "viewMode example_chat = Channels \<and>
   unread (update_unread 1 (regularMessages example_messages) example_chat) 0 = 1 \<and>
   unread_badge (update_unread 1 (regularMessages example_messages) example_chat) 0 = Some ''1'' \<and>
   unread (mark_read 5000 (example_chat\<lparr>selectedChannel := 0\<rparr>)) 0 = 0 \<and>
   lastRead (mark_read 5000 (example_chat\<lparr>selectedChannel := 0\<rparr>)) 0 = Some 5000 \<and>
   viewMode (example_chat\<lparr>viewMode := Dm\<rparr>) \<noteq> Channels \<and>
   mark_read 5000 (example_chat\<lparr>viewMode := Dm\<rparr>) = example_chat\<lparr>viewMode := Dm\<rparr>"
proof -
  let ?s = "update_unread 1 (regularMessages example_messages) example_chat"
  have c: "length (filter (counts_as_unread example_chat 1 0) example_messages) = 1"
    by code_simp
  have v: "viewMode example_chat = Channels" "viewMode ?s = Channels" "selectedChannel ?s = 1"
    "viewMode (example_chat\<lparr>selectedChannel := 0\<rparr>) = Channels"
    "selectedChannel (example_chat\<lparr>selectedChannel := 0\<rparr>) = 0"
    by (simp_all add: update_unread_def example_chat_def)
  have one: "string_of_nat (Suc 0) = ''1''" by code_simp
  from unread_counts_and_badge[of 1 example_messages example_chat 0] c
  have u: "unread ?s 0 = 1" by simp
  from unread_counts_and_badge[of 1 "[]" ?s 0] u v
  have b: "unread_badge ?s 0 = Some ''1''" by (simp add: one)
  from unread_counts_and_badge[of 1 "[]" "example_chat\<lparr>selectedChannel := 0\<rparr>" 0 5000] v
  have m: "unread (mark_read 5000 (example_chat\<lparr>selectedChannel := 0\<rparr>)) 0 = 0"
    "lastRead (mark_read 5000 (example_chat\<lparr>selectedChannel := 0\<rparr>)) 0 = Some 5000"
    by simp_all
  have d: "viewMode (example_chat\<lparr>viewMode := Dm\<rparr>) \<noteq> Channels" by simp
  from unread_counts_and_badge[of 1 "[]" "example_chat\<lparr>viewMode := Dm\<rparr>" 0 5000] d
  have n: "mark_read 5000 (example_chat\<lparr>viewMode := Dm\<rparr>) = example_chat\<lparr>viewMode := Dm\<rparr>"
    by blast
  from v(1) u b m d n show ?thesis by blast
qed

section \<open>Numbers as text and day keys: auxiliary facts\<close>

lemma digit_char_value: "d < 10 \<Longrightarrow> digit_value (digit_char d) = Some d"
  by (simp add: digit_value_def digit_char_def Let_def)

lemma digit_char_decimal: "d < 10 \<Longrightarrow> is_decimal (digit_char d)"
  by (simp add: is_decimal_def digit_char_def)

lemma string_of_nat_decimal: "c \<in> set (string_of_nat n) \<Longrightarrow> is_decimal c"
proof (induction n rule: string_of_nat.induct)
  case (1 n)
  show ?case
  proof (cases "n < 10")
    case True
    with "1.prems" show ?thesis
      by (subst (asm) string_of_nat.simps) (simp add: digit_char_decimal)
  next
    case False
    with "1.prems" have "c \<in> set (string_of_nat (n div 10)) \<or> c = digit_char (n mod 10)"
      by (subst (asm) string_of_nat.simps) auto
    with "1.IH" False show ?thesis
      by (auto simp: digit_char_decimal)
  qed
qed

lemma string_of_nat_nonempty: "string_of_nat n \<noteq> []"
  by (subst string_of_nat.simps) simp

lemma digits_value_snoc:
  "digits_value r (ds @ [c]) =
     digits_value r ds * r + (case digit_value c of None \<Rightarrow> 0 | Some d \<Rightarrow> d)"
  by (simp add: digits_value_def)

lemma digits_value_string_of_nat: "digits_value 10 (string_of_nat n) = n"
proof (induction n rule: string_of_nat.induct)
  case (1 n)
  show ?case
  proof (cases "n < 10")
    case True
    then show ?thesis
      by (subst string_of_nat.simps) (simp add: digits_value_def digit_char_value)
  next
    case False
    with "1.IH" show ?thesis
      by (subst string_of_nat.simps) (simp add: digits_value_snoc digit_char_value)
  qed
qed

lemma string_of_nat_inj: "string_of_nat a = string_of_nat b \<longleftrightarrow> a = b"
  by (metis digits_value_string_of_nat)

lemma minus_not_decimal: "\<not> is_decimal (CHR ''-'')"
  by (simp add: is_decimal_def)

lemma string_of_nat_no_minus: "CHR ''-'' \<notin> set (string_of_nat n)"
  using string_of_nat_decimal minus_not_decimal by blast

lemma string_of_nat_hd: "hd (string_of_nat n) \<noteq> CHR ''-''"
  using string_of_nat_no_minus[of n] string_of_nat_nonempty[of n]
  by (cases "string_of_nat n") auto

lemma string_of_int_eq: "string_of_int a = string_of_int b \<Longrightarrow> a = b"
proof -
  assume eq: "string_of_int a = string_of_int b"
  consider "a < 0" "b < 0" | "a < 0" "\<not> b < 0" | "\<not> a < 0" "b < 0" | "\<not> a < 0" "\<not> b < 0"
    by blast
  then show ?thesis
  proof cases
    case 1
    with eq have "nat (- a) = nat (- b)" by (simp add: string_of_int_def string_of_nat_inj)
    with 1 show ?thesis by simp
  next
    case 2
    with eq have "CHR ''-'' # string_of_nat (nat (- a)) = string_of_nat (nat b)"
      by (simp add: string_of_int_def)
    then have "hd (string_of_nat (nat b)) = CHR ''-''"
      by (metis list.sel(1))
    with string_of_nat_hd show ?thesis by blast
  next
    case 3
    with eq have "string_of_nat (nat a) = CHR ''-'' # string_of_nat (nat (- b))"
      by (simp add: string_of_int_def)
    then have "hd (string_of_nat (nat a)) = CHR ''-''"
      by (metis list.sel(1))
    with string_of_nat_hd show ?thesis by blast
  next
    case 4
    with eq have "nat a = nat b" by (simp add: string_of_int_def string_of_nat_inj)
    with 4 show ?thesis by simp
  qed
qed

lemma string_of_int_inj: "string_of_int a = string_of_int b \<longleftrightarrow> a = b"
proof
  assume "string_of_int a = string_of_int b"
  then show "a = b" by (rule string_of_int_eq)
next
  assume "a = b"
  then show "string_of_int a = string_of_int b" by simp
qed

lemma split_at_first:
  "x \<notin> set p \<Longrightarrow> x \<notin> set p' \<Longrightarrow> p @ x # r = p' @ x # r' \<Longrightarrow> p = p' \<and> r = r'"
proof (induction p arbitrary: p')
  case Nil
  show ?case
  proof (cases p')
    case Nil
    with Nil.prems show ?thesis by simp
  next
    case (Cons b q)
    with Nil.prems show ?thesis by simp
  qed
next
  case (Cons a p)
  show ?case
  proof (cases p')
    case Nil
    with Cons.prems show ?thesis by simp
  next
    case (Cons b q)
    with Cons.prems have "a = b" "x \<notin> set p" "x \<notin> set q" "p @ x # r = q @ x # r'"
      by simp_all
    with Cons.IH[of q] \<open>p' = b # q\<close> show ?thesis by simp
  qed
qed

lemma split_at_last:
  assumes "x \<notin> set b" "x \<notin> set b'" "a @ x # b = a' @ x # b'"
  shows "a = a' \<and> b = b'"
proof -
  from assms(3) have "rev (a @ x # b) = rev (a' @ x # b')" by simp
  then have e: "rev b @ x # rev a = rev b' @ x # rev a'" by simp
  have n: "x \<notin> set (rev b)" "x \<notin> set (rev b')" using assms(1,2) by simp_all
  from split_at_first[OF n e] show ?thesis by simp
qed

lemma getDayKey_eq_iff:
  "getDayKey cal t = getDayKey cal t' \<longleftrightarrow> local_date cal t = local_date cal t'"
proof
  assume eq: "getDayKey cal t = getDayKey cal t'"
  obtain y m d where a: "local_date cal t = (y, m, d)" by (cases "local_date cal t")
  obtain y' m' d' where b: "local_date cal t' = (y', m', d')" by (cases "local_date cal t'")
  from eq a b have e1:
    "(string_of_int y @ ''-'' @ string_of_nat m) @ CHR ''-'' # string_of_nat d =
     (string_of_int y' @ ''-'' @ string_of_nat m') @ CHR ''-'' # string_of_nat d'"
    by (simp add: getDayKey_def)
  from split_at_last[OF string_of_nat_no_minus string_of_nat_no_minus e1]
  have e2: "string_of_int y @ CHR ''-'' # string_of_nat m =
            string_of_int y' @ CHR ''-'' # string_of_nat m'"
    and d: "string_of_nat d = string_of_nat d'" by simp_all
  from split_at_last[OF string_of_nat_no_minus string_of_nat_no_minus e2]
  have "string_of_int y = string_of_int y'" "string_of_nat m = string_of_nat m'" by simp_all
  with d a b show "local_date cal t = local_date cal t'"
    by (simp add: string_of_int_inj string_of_nat_inj)
next
  assume "local_date cal t = local_date cal t'"
  then show "getDayKey cal t = getDayKey cal t'" by (simp add: getDayKey_def)
qed

lemma getDayKey_nonempty: "getDayKey cal t \<noteq> []"
  by (cases "local_date cal t") (simp add: getDayKey_def)

lemma day_loop_mem:
  "x \<in> day_loop cal ms i prev indices \<longleftrightarrow>
     x \<in> indices \<or>
     (i \<le> x \<and> x - i < length ms \<and>
      getDayKey cal (timestamp (ms ! (x - i))) \<noteq>
        (if x = i then prev else getDayKey cal (timestamp (ms ! (x - i - 1)))))"
proof (induction ms arbitrary: i prev indices)
  case Nil
  then show ?case by simp
next
  case (Cons m ms)
  let ?k = "getDayKey cal (timestamp m)"
  have later: "(i + 1 \<le> x \<and> x - (i + 1) < length ms \<and>
      getDayKey cal (timestamp (ms ! (x - (i + 1)))) \<noteq>
        (if x = i + 1 then ?k else getDayKey cal (timestamp (ms ! (x - (i + 1) - 1))))) \<longleftrightarrow>
     (i < x \<and> x - i < length (m # ms) \<and>
      getDayKey cal (timestamp ((m # ms) ! (x - i))) \<noteq>
        getDayKey cal (timestamp ((m # ms) ! (x - i - 1))))"
  proof (cases "i < x")
    case False
    then show ?thesis by simp
  next
    case True
    then obtain j where j: "x = i + Suc j" by (metis less_iff_Suc_add add_Suc_right)
    show ?thesis
      by (cases j) (simp_all add: j)
  qed
  show ?case
  proof (cases "?k \<noteq> prev")
    case True
    then have step: "day_loop cal (m # ms) i prev indices =
        day_loop cal ms (i + 1) ?k (insert i indices)"
      by (simp add: Let_def)
    show ?thesis
      unfolding step Cons.IH[of "i + 1" ?k "insert i indices"] later
      using True by (cases "x = i") auto
  next
    case False
    then have step: "day_loop cal (m # ms) i prev indices = day_loop cal ms (i + 1) prev indices"
      by (simp add: Let_def)
    have same: "(if x = i + 1 then prev else getDayKey cal (timestamp (ms ! (x - (i + 1) - 1)))) =
      (if x = i + 1 then ?k else getDayKey cal (timestamp (ms ! (x - (i + 1) - 1))))"
      using False by simp
    show ?thesis
      unfolding step Cons.IH[of "i + 1" prev indices] same later
      using False by (cases "x = i") auto
  qed
qed

lemma daySeparatorIndices_iff:
  assumes "i < length filtered"
  shows "i \<in> daySeparatorIndices cal filtered \<longleftrightarrow>
         (i = 0 \<or> day_of cal filtered i \<noteq> day_of cal filtered (i - 1))"
  using assms
  by (auto simp: daySeparatorIndices_def day_loop_mem getDayKey_eq_iff getDayKey_nonempty
        day_of_def)

lemma daySeparatorIndices_bound:
  "i \<in> daySeparatorIndices cal filtered \<Longrightarrow> i < length filtered"
  by (auto simp: daySeparatorIndices_def day_loop_mem)

lemma formatDayLabel_cases:
  "formatDayLabel cal now ts =
     (if day_start cal (local_date cal now) - day_start cal (local_date cal ts) = 0 then ''Today''
      else if day_start cal (local_date cal now) - day_start cal (local_date cal ts) = 86400000
      then ''Yesterday''
      else locale_date cal ts)"
  by (simp add: formatDayLabel_def Let_def)

lemma render_stream_days:
  "render_stream cal now filtered =
     concat (map (\<lambda>i.
        (if i = 0 \<or> day_of cal filtered i \<noteq> day_of cal filtered (i - 1)
         then [Separator (formatDayLabel cal now (timestamp (filtered ! i)))] else []) @
        [Bubble (filtered ! i)]) [0..<length filtered])"
  unfolding render_stream_def
  by (rule arg_cong[where f = concat], rule map_cong) (simp_all add: daySeparatorIndices_iff)

lemma example_days_facts:
  "length example_days = 3"
  "day_of utc_calendar example_days 1 = day_of utc_calendar example_days 0"
  "day_of utc_calendar example_days 2 \<noteq> day_of utc_calendar example_days 1"
  "local_date utc_calendar 1793707200000 = local_date utc_calendar 1793710000000"
  "day_start utc_calendar (local_date utc_calendar 1793710000000) -
     day_start utc_calendar (local_date utc_calendar 1793660000000) = 86400000"
  "day_start utc_calendar (local_date utc_calendar 1793710000000) -
     day_start utc_calendar (local_date utc_calendar 1793400000000) = 345600000"
  "locale_date utc_calendar 1793400000000 = ''10/30''"
  by code_simp+

section \<open>Chat panel: day separators\<close>

text \<open>
  Claim C8. For an index \<open>i\<close> of the filtered list, \<open>i\<close> is a separator index iff
  \<open>i = 0\<close> or the local calendar day (year, month, day of month) of message \<open>i\<close>
  differs from that of message \<open>i - 1\<close>; there are no other separator indices, a list
  that is not empty has one at 0, and the rendered stream has, for each index in turn,
  the separator (if any) and then the message. The label is \<^verbatim>\<open>Today\<close> when the
  message's day is the current day, \<^verbatim>\<open>Yesterday\<close> when the current day starts
  86,400,000 ms after the message's day does, and the locale's date text when that
  difference is neither 0 nor 86,400,000; on a calendar where the two days start at
  different instants unless they are the same day, these three cases are all there is.
  The calendar is the host's and is a parameter.
\<close>

theorem day_separators_and_labels:
  "(\<forall>i<length filtered.
      i \<in> daySeparatorIndices cal filtered \<longleftrightarrow>
      (i = 0 \<or> day_of cal filtered i \<noteq> day_of cal filtered (i - 1))) \<and>
   (\<forall>i. i \<in> daySeparatorIndices cal filtered \<longrightarrow> i < length filtered) \<and>
   (filtered \<noteq> [] \<longrightarrow> 0 \<in> daySeparatorIndices cal filtered) \<and>
   render_stream cal now filtered =
     concat (map (\<lambda>i.
        (if i = 0 \<or> day_of cal filtered i \<noteq> day_of cal filtered (i - 1)
         then [Separator (formatDayLabel cal now (timestamp (filtered ! i)))] else []) @
        [Bubble (filtered ! i)]) [0..<length filtered]) \<and>
   (local_date cal ts = local_date cal now \<longrightarrow> formatDayLabel cal now ts = ''Today'') \<and>
   (day_start cal (local_date cal now) - day_start cal (local_date cal ts) = 86400000 \<longrightarrow>
      formatDayLabel cal now ts = ''Yesterday'') \<and>
   (day_start cal (local_date cal now) - day_start cal (local_date cal ts) \<noteq> 0 \<and>
    day_start cal (local_date cal now) - day_start cal (local_date cal ts) \<noteq> 86400000 \<longrightarrow>
      formatDayLabel cal now ts = locale_date cal ts) \<and>
   ((day_start cal (local_date cal now) = day_start cal (local_date cal ts) \<longrightarrow>
       local_date cal now = local_date cal ts) \<longrightarrow>
      formatDayLabel cal now ts =
        (if local_date cal ts = local_date cal now then ''Today''
         else if day_start cal (local_date cal now) - day_start cal (local_date cal ts) = 86400000
         then ''Yesterday''
         else locale_date cal ts))"
proof -
  have p1: "\<forall>i<length filtered.
      i \<in> daySeparatorIndices cal filtered \<longleftrightarrow>
      (i = 0 \<or> day_of cal filtered i \<noteq> day_of cal filtered (i - 1))"
    using daySeparatorIndices_iff by blast
  have p2: "\<forall>i. i \<in> daySeparatorIndices cal filtered \<longrightarrow> i < length filtered"
    using daySeparatorIndices_bound by blast
  have p3: "filtered \<noteq> [] \<longrightarrow> 0 \<in> daySeparatorIndices cal filtered"
    using daySeparatorIndices_iff[of 0 filtered cal] by simp
  have p5: "local_date cal ts = local_date cal now \<longrightarrow> formatDayLabel cal now ts = ''Today''"
    by (simp add: formatDayLabel_cases)
  have p6: "day_start cal (local_date cal now) - day_start cal (local_date cal ts) = 86400000 \<longrightarrow>
      formatDayLabel cal now ts = ''Yesterday''"
    by (simp add: formatDayLabel_cases)
  have p7: "day_start cal (local_date cal now) - day_start cal (local_date cal ts) \<noteq> 0 \<and>
    day_start cal (local_date cal now) - day_start cal (local_date cal ts) \<noteq> 86400000 \<longrightarrow>
      formatDayLabel cal now ts = locale_date cal ts"
    by (simp add: formatDayLabel_cases)
  have p8: "(day_start cal (local_date cal now) = day_start cal (local_date cal ts) \<longrightarrow>
       local_date cal now = local_date cal ts) \<longrightarrow>
      formatDayLabel cal now ts =
        (if local_date cal ts = local_date cal now then ''Today''
         else if day_start cal (local_date cal now) - day_start cal (local_date cal ts) = 86400000
         then ''Yesterday''
         else locale_date cal ts)"
    by (auto simp: formatDayLabel_cases)
  show ?thesis
    by (rule conjI[OF p1 conjI[OF p2 conjI[OF p3 conjI[OF render_stream_days
          conjI[OF p5 conjI[OF p6 conjI[OF p7 p8]]]]]]])
qed

text \<open>
  C8 on the sample calendar: two messages of 2 November 2026 and one of the day after,
  read on the day after.
\<close>

theorem day_separators_witness:
  "example_days \<noteq> [] \<and>
   0 \<in> daySeparatorIndices utc_calendar example_days \<and>
   1 \<notin> daySeparatorIndices utc_calendar example_days \<and>
   2 \<in> daySeparatorIndices utc_calendar example_days \<and>
   formatDayLabel utc_calendar 1793710000000 1793707200000 = ''Today'' \<and>
   formatDayLabel utc_calendar 1793710000000 1793660000000 = ''Yesterday'' \<and>
   formatDayLabel utc_calendar 1793710000000 1793400000000 = ''10/30''"
proof -
  note inst = day_separators_and_labels[where filtered = example_days and cal = utc_calendar]
  have ne: "example_days \<noteq> []" using example_days_facts(1) by auto
  from inst[where now = 0 and ts = 0] ne have 0: "0 \<in> daySeparatorIndices utc_calendar example_days" by blast
  from inst[where now = 0 and ts = 0] example_days_facts(1,2)
  have 1: "1 \<notin> daySeparatorIndices utc_calendar example_days" by simp
  from inst[where now = 0 and ts = 0] example_days_facts(1,3)
  have 2: "2 \<in> daySeparatorIndices utc_calendar example_days" by simp
  from inst[where ts = 1793707200000 and now = 1793710000000] example_days_facts(4)
  have t: "formatDayLabel utc_calendar 1793710000000 1793707200000 = ''Today''" by blast
  from inst[where ts = 1793660000000 and now = 1793710000000] example_days_facts(5)
  have y: "formatDayLabel utc_calendar 1793710000000 1793660000000 = ''Yesterday''" by blast
  from inst[where ts = 1793400000000 and now = 1793710000000] example_days_facts(6,7)
  have o: "formatDayLabel utc_calendar 1793710000000 1793400000000 = ''10/30''" by simp
  from ne 0 1 2 t y o show ?thesis by blast
qed

section \<open>Open DM tabs: auxiliary facts\<close>

lemma all_numbers_conv: "list_all is_number xs \<longleftrightarrow> (\<exists>ns. xs = map JNumber ns)"
proof
  assume "list_all is_number xs"
  then have "xs = map JNumber (map number_value xs)"
  proof (induction xs)
    case Nil
    then show ?case by simp
  next
    case (Cons x xs)
    then show ?case by (cases x) simp_all
  qed
  then show "\<exists>ns. xs = map JNumber ns" by blast
next
  assume "\<exists>ns. xs = map JNumber ns"
  then show "list_all is_number xs" by (auto simp: list_all_iff)
qed

lemma number_value_JNumber: "map (number_value \<circ> JNumber) ns = ns"
  by (induction ns) simp_all

lemma load_numbers:
  assumes "st ''electastic:openDmTabs'' = Some saved" "saved \<noteq> []"
    "JSON_parse h saved = Some (JArray (map JNumber ns))"
  shows "load_openDmTabs h st = ns"
proof -
  have "list_all is_number (map JNumber ns)" by (simp add: list_all_iff)
  with assms show ?thesis
    by (simp add: load_openDmTabs_def number_value_JNumber)
qed

lemma load_fallback:
  assumes "\<not> (\<exists>saved ns. st ''electastic:openDmTabs'' = Some saved \<and> saved \<noteq> [] \<and>
             JSON_parse h saved = Some (JArray (map JNumber ns)))"
  shows "load_openDmTabs h st = []"
proof (cases "st ''electastic:openDmTabs''")
  case None
  then show ?thesis by (simp add: load_openDmTabs_def)
next
  case (Some saved)
  show ?thesis
  proof (cases "saved = []")
    case True
    with Some show ?thesis by (simp add: load_openDmTabs_def)
  next
    case False
    show ?thesis
    proof (cases "JSON_parse h saved")
      case None
      with Some False show ?thesis by (simp add: load_openDmTabs_def)
    next
      case (Some parsed)
      show ?thesis
      proof (cases parsed)
        case (JArray elements)
        have "\<not> list_all is_number elements"
        proof
          assume "list_all is_number elements"
          then obtain ns where "elements = map JNumber ns" using all_numbers_conv by blast
          with assms \<open>st ''electastic:openDmTabs'' = Some saved\<close> False Some JArray
          show False by blast
        qed
        with \<open>st ''electastic:openDmTabs'' = Some saved\<close> False Some JArray show ?thesis
          by (simp add: load_openDmTabs_def)
      qed (use \<open>st ''electastic:openDmTabs'' = Some saved\<close> False Some in
            \<open>simp_all add: load_openDmTabs_def\<close>)
    qed
  qed
qed

lemma load_after_persist:
  "json_roundtrip h tabs \<Longrightarrow> load_openDmTabs h (persist_openDmTabs h tabs st) = tabs"
  by (rule load_numbers[where saved = "JSON_stringify h tabs"])
     (simp_all add: persist_openDmTabs_def json_roundtrip_def)

lemma stored_mount: "stored_tabs h (mount_tabs h st)"
  by (simp add: stored_tabs_def mount_tabs_def persist_openDmTabs_def Let_def)

lemma stored_step: "stored_tabs h p \<Longrightarrow> stored_tabs h (tab_step h p e)"
  by (cases e; cases p)
     (auto simp: stored_tabs_def openDmTo_def closeDmTab_def persist_openDmTabs_def Let_def)

lemma stored_run: "stored_tabs h p \<Longrightarrow> stored_tabs h (foldl (tab_step h) p es)"
  by (induction es arbitrary: p) (simp_all add: stored_step)

lemma decimal_not_ws: "is_decimal c \<Longrightarrow> \<not> json_ws c"
  by (auto simp: is_decimal_def json_ws_def)

lemma decimal_not_comma: "is_decimal c \<Longrightarrow> c \<noteq> CHR '',''"
  by (auto simp: is_decimal_def)

lemma string_of_int_chars: "c \<in> set (string_of_int i) \<Longrightarrow> is_decimal c \<or> c = CHR ''-''"
  by (auto simp: string_of_int_def dest: string_of_nat_decimal split: if_splits)

lemma string_of_int_nonempty: "string_of_int i \<noteq> []"
  by (simp add: string_of_int_def string_of_nat_nonempty)

lemma string_of_int_no_ws: "c \<in> set (string_of_int i) \<Longrightarrow> \<not> json_ws c"
  using string_of_int_chars[of c i] decimal_not_ws[of c] by (auto simp: json_ws_def)

lemma string_of_int_no_comma: "CHR '','' \<notin> set (string_of_int i)"
  using string_of_int_chars[of "CHR '',''" i] decimal_not_comma by auto

lemma trim_ws_id:
  assumes "s \<noteq> []" "\<not> json_ws (hd s)" "\<not> json_ws (last s)"
  shows "trim_ws s = s"
proof -
  from assms(1,2) have 1: "dropWhile json_ws s = s" by (cases s) simp_all
  from assms(1,3) have "dropWhile json_ws (rev s) = rev s"
    by (cases s rule: rev_cases) simp_all
  with 1 show ?thesis by (simp add: trim_ws_def)
qed

lemma trim_ws_string_of_int: "trim_ws (string_of_int i) = string_of_int i"
proof (rule trim_ws_id)
  show ne: "string_of_int i \<noteq> []" by (rule string_of_int_nonempty)
  from ne have "hd (string_of_int i) \<in> set (string_of_int i)" by simp
  then show "\<not> json_ws (hd (string_of_int i))" by (rule string_of_int_no_ws)
  from ne have "last (string_of_int i) \<in> set (string_of_int i)" by simp
  then show "\<not> json_ws (last (string_of_int i))" by (rule string_of_int_no_ws)
qed

lemma split_on_nonempty: "split_on sep s \<noteq> []"
  by (induction s) (auto split: list.splits)

lemma split_on_none: "sep \<notin> set p \<Longrightarrow> split_on sep p = [p]"
  by (induction p) (auto split: list.splits)

lemma split_on_append:
  "sep \<notin> set p \<Longrightarrow> split_on sep (p @ sep # rest) = p # split_on sep rest"
proof (induction p)
  case Nil
  then show ?case using split_on_nonempty[of sep rest] by (auto split: list.splits)
next
  case (Cons c p)
  then show ?case by (auto split: list.splits)
qed

lemma split_on_join:
  "ps \<noteq> [] \<Longrightarrow> \<forall>p\<in>set ps. sep \<notin> set p \<Longrightarrow> split_on sep (join_with sep ps) = ps"
proof (induction sep ps rule: join_with.induct)
  case (1 sep)
  then show ?case by simp
next
  case (2 sep x)
  then show ?case by (simp add: split_on_none)
next
  case (3 sep x y ys)
  then show ?case by (simp add: split_on_append)
qed

lemma string_of_nat_no_leading_zero:
  "0 < n \<Longrightarrow> hd (string_of_nat n) \<noteq> CHR ''0''"
proof (induction n rule: string_of_nat.induct)
  case (1 n)
  show ?case
  proof (cases "n < 10")
    case True
    with "1.prems" have "digit_char n \<noteq> CHR ''0''"
      by (auto simp: digit_char_def dest!: arg_cong[where f = "of_char :: char \<Rightarrow> nat"])
    with True show ?thesis by (subst string_of_nat.simps) simp
  next
    case False
    then have "0 < n div 10" by simp
    with "1.IH" False have "hd (string_of_nat (n div 10)) \<noteq> CHR ''0''" by simp
    with False show ?thesis
      by (subst string_of_nat.simps) (simp add: string_of_nat_nonempty)
  qed
qed

lemma string_of_nat_length: "1 < length (string_of_nat n) \<Longrightarrow> 0 < n"
  by (cases "n = 0") (simp_all add: string_of_nat.simps[of 0])

lemma parse_nat_literal:
  "parse_int_literal (string_of_nat n) = Some (int n)"
proof -
  have "hd (string_of_nat n) \<noteq> CHR ''-''"
    using string_of_nat_no_minus[of n] string_of_nat_nonempty[of n]
    by (cases "string_of_nat n") auto
  moreover have "list_all is_decimal (string_of_nat n)"
    using string_of_nat_decimal by (auto simp: list_all_iff)
  moreover have "\<not> (1 < length (string_of_nat n) \<and> hd (string_of_nat n) = CHR ''0'')"
    using string_of_nat_length string_of_nat_no_leading_zero by blast
  ultimately show ?thesis
    by (simp add: parse_int_literal_def Let_def string_of_nat_nonempty
        digits_value_string_of_nat)
qed

lemma parse_int_literal_string_of_int: "parse_int_literal (string_of_int i) = Some i"
proof (cases "i < 0")
  case False
  then show ?thesis by (simp add: string_of_int_def parse_nat_literal)
next
  case True
  let ?ds = "string_of_nat (nat (- i))"
  have "list_all is_decimal ?ds"
    using string_of_nat_decimal by (auto simp: list_all_iff)
  moreover have "\<not> (1 < length ?ds \<and> hd ?ds = CHR ''0'')"
    using string_of_nat_length string_of_nat_no_leading_zero by blast
  ultimately show ?thesis
    using True
    by (simp add: string_of_int_def parse_int_literal_def Let_def string_of_nat_nonempty
        digits_value_string_of_nat)
qed

lemma join_with_chars:
  "c \<in> set (join_with sep ps) \<Longrightarrow> c = sep \<or> (\<exists>p\<in>set ps. c \<in> set p)"
  by (induction sep ps rule: join_with.induct) auto

lemma join_with_nonempty: "ps \<noteq> [] \<Longrightarrow> \<forall>p\<in>set ps. p \<noteq> [] \<Longrightarrow> join_with sep ps \<noteq> []"
  by (induction sep ps rule: join_with.induct) auto

lemma joined_not_all_ws:
  assumes "xs \<noteq> []"
  shows "\<not> list_all json_ws (join_with (CHR '','') (map string_of_int xs))"
proof -
  let ?j = "join_with (CHR '','') (map string_of_int xs)"
  from assms have "?j \<noteq> []"
    by (intro join_with_nonempty) (auto simp: string_of_int_nonempty)
  then obtain c where c: "c \<in> set ?j" by (cases ?j) auto
  have "\<not> json_ws c"
    using join_with_chars[OF c] string_of_int_no_ws by (auto simp: json_ws_def)
  with c show ?thesis by (auto simp: list_all_iff)
qed

lemma sample_json_roundtrip: "json_roundtrip sample_json xs"
proof -
  let ?inner = "join_with (CHR '','') (map string_of_int xs)"
  let ?t = "''['' @ ?inner @ '']''"
  have t: "trim_ws ?t = ?t"
    by (rule trim_ws_id) (simp_all add: json_ws_def)
  have shape: "2 \<le> length ?t" "hd ?t = CHR ''[''" "last ?t = CHR '']''"
    "butlast (tl ?t) = ?inner"
    by (simp_all add: butlast_append)
  have parse: "parse_number_array ?t = Some (JArray (map JNumber xs))"
  proof (cases "xs = []")
    case True
    then show ?thesis
      unfolding parse_number_array_def t Let_def shape by simp
  next
    case False
    have sp: "split_on (CHR '','') ?inner = map string_of_int xs"
      using False by (intro split_on_join) (auto simp: string_of_int_no_comma)
    have items: "map (\<lambda>piece. parse_int_literal (trim_ws piece)) (map string_of_int xs) =
                 map Some xs"
      by (simp add: trim_ws_string_of_int parse_int_literal_string_of_int comp_def)
    have ok: "list_all (\<lambda>item. item \<noteq> None) (map Some xs)"
      by (simp add: list_all_iff)
    have vals: "map (\<lambda>item. JNumber (the item)) (map Some xs) = map JNumber xs"
      by simp
    from joined_not_all_ws[OF False] ok vals show ?thesis
      unfolding parse_number_array_def t Let_def shape sp items
      by simp
  qed
  then show ?thesis
    by (simp add: json_roundtrip_def sample_json_def stringify_numbers_def)
qed

lemma sample_run:
  "openDmTabs (fst (foldl (tab_step sample_json) (mount_tabs sample_json Map.empty)
      [OpenDmTo 12, OpenDmTo 5, CloseDmTab 12])) = [5]"
  by (simp add: mount_tabs_def load_openDmTabs_def openDmTo_def closeDmTab_def Let_def)

lemma sample_text: "stringify_numbers [5] = ''[5]''"
  by code_simp

section \<open>Chat panel: the open DM tabs survive a restart\<close>

text \<open>
  Claim C10. After the mount and after any sequence of tab openings and closings, the
  storage holds under the key \<^verbatim>\<open>electastic:openDmTabs\<close> the JSON text of the current
  tab list. A fresh panel starts from the stored list when the key holds a text that is
  not empty and parses as an array whose elements are all numbers, and from the empty
  list in every other case: no such key, an empty text, a text that does not parse, a
  value that is no array, an array with an element that is no number. So on a host
  whose \<^verbatim>\<open>JSON.parse\<close> reads back what its \<^verbatim>\<open>JSON.stringify\<close> wrote for a tab list,
  persisting the list and then mounting a panel gives the list back; the sample host,
  which prints and reads arrays of integers as JSON does, is such a host for every
  list. Tab numbers are integers.
\<close>

theorem openDmTabs_persisted_and_restored:
  "(\<forall>es. snd (foldl (tab_step h) (mount_tabs h st) es) ''electastic:openDmTabs'' =
          Some (JSON_stringify h (openDmTabs (fst (foldl (tab_step h) (mount_tabs h st) es))))) \<and>
   (\<forall>saved ns. st ''electastic:openDmTabs'' = Some saved \<and> saved \<noteq> [] \<and>
        JSON_parse h saved = Some (JArray (map JNumber ns)) \<longrightarrow>
      load_openDmTabs h st = ns) \<and>
   (\<not> (\<exists>saved ns. st ''electastic:openDmTabs'' = Some saved \<and> saved \<noteq> [] \<and>
          JSON_parse h saved = Some (JArray (map JNumber ns))) \<longrightarrow>
      load_openDmTabs h st = []) \<and>
   (json_roundtrip h tabs \<longrightarrow>
      load_openDmTabs h (persist_openDmTabs h tabs st) = tabs \<and>
      openDmTabs (fst (mount_tabs h (persist_openDmTabs h tabs st))) = tabs) \<and>
   load_openDmTabs sample_json (persist_openDmTabs sample_json tabs st) = tabs"
proof -
  have p1: "\<forall>es. snd (foldl (tab_step h) (mount_tabs h st) es) ''electastic:openDmTabs'' =
          Some (JSON_stringify h (openDmTabs (fst (foldl (tab_step h) (mount_tabs h st) es))))"
    using stored_run[OF stored_mount] by (simp add: stored_tabs_def)
  have p2: "\<forall>saved ns. st ''electastic:openDmTabs'' = Some saved \<and> saved \<noteq> [] \<and>
        JSON_parse h saved = Some (JArray (map JNumber ns)) \<longrightarrow>
      load_openDmTabs h st = ns"
    using load_numbers by blast
  have p3: "\<not> (\<exists>saved ns. st ''electastic:openDmTabs'' = Some saved \<and> saved \<noteq> [] \<and>
          JSON_parse h saved = Some (JArray (map JNumber ns))) \<longrightarrow>
      load_openDmTabs h st = []"
    using load_fallback by blast
  have p4: "json_roundtrip h tabs \<longrightarrow>
      load_openDmTabs h (persist_openDmTabs h tabs st) = tabs \<and>
      openDmTabs (fst (mount_tabs h (persist_openDmTabs h tabs st))) = tabs"
    by (simp add: load_after_persist mount_tabs_def Let_def)
  have p5: "load_openDmTabs sample_json (persist_openDmTabs sample_json tabs st) = tabs"
    using sample_json_roundtrip by (rule load_after_persist)
  show ?thesis by (rule conjI[OF p1 conjI[OF p2 conjI[OF p3 conjI[OF p4 p5]]]])
qed

text \<open>
  C10 on the sample host: a list of three node numbers comes back from the storage;
  after opening 12 and 5 and closing 12 the storage reads \<^verbatim>\<open>[5]\<close>; an empty storage
  gives no tabs.
\<close>

theorem openDmTabs_witness:
  "json_roundtrip sample_json [12, -7, 0] \<and>
   load_openDmTabs sample_json (persist_openDmTabs sample_json [12, -7, 0] Map.empty) =
     [12, -7, 0] \<and>
   snd (foldl (tab_step sample_json) (mount_tabs sample_json Map.empty)
      [OpenDmTo 12, OpenDmTo 5, CloseDmTab 12]) ''electastic:openDmTabs'' = Some ''[5]'' \<and>
   load_openDmTabs sample_json Map.empty = []"
proof -
  note inst = openDmTabs_persisted_and_restored[where h = sample_json and st = Map.empty
      and tabs = "[12, -7, 0]"]
  from inst sample_json_roundtrip[of "[12, -7, 0]"]
  have 1: "load_openDmTabs sample_json (persist_openDmTabs sample_json [12, -7, 0] Map.empty) =
     [12, -7, 0]" by blast
  from inst have "snd (foldl (tab_step sample_json) (mount_tabs sample_json Map.empty)
      [OpenDmTo 12, OpenDmTo 5, CloseDmTab 12]) ''electastic:openDmTabs'' =
     Some (JSON_stringify sample_json (openDmTabs (fst (foldl (tab_step sample_json)
       (mount_tabs sample_json Map.empty) [OpenDmTo 12, OpenDmTo 5, CloseDmTab 12]))))"
    by blast
  then have 2: "snd (foldl (tab_step sample_json) (mount_tabs sample_json Map.empty)
      [OpenDmTo 12, OpenDmTo 5, CloseDmTab 12]) ''electastic:openDmTabs'' = Some ''[5]''"
    unfolding sample_run by (simp add: sample_json_def sample_text)
  from inst have 3: "load_openDmTabs sample_json Map.empty = []" by simp
  from sample_json_roundtrip[of "[12, -7, 0]"] 1 2 3 show ?thesis by blast
qed

end

